theory Spec2Isabelle
  imports Complex_Main "HOL-Library.Word" "HOL-Library.Multiset"
begin

chapter \<open>The currency codec and token algebra of sdk-core, and the wallet engine\<close>

text \<open>
  A shallow embedding of \<^verbatim>\<open>packages/sdk-core/src/converter.ts\<close>,
  \<^verbatim>\<open>packages/sdk-core/src/token.ts\<close>, the error classes and the wallet class, with the
  properties their specification states about them. Exceptions are values of the type
  \<open>error\<close>; a function that can throw returns \<open>error + 'a\<close>, with \<open>Inl\<close> for the
  exception.
\<close>

section \<open>Data model\<close>

subsection \<open>Strings\<close>

text \<open>
  A JavaScript string is a sequence of 16-bit code units. \<open>js\<close> writes an ASCII literal
  of the source as such a sequence.
\<close>

type_synonym code_unit = "16 word"
type_synonym jsstring = "code_unit list"

definition js :: "string \<Rightarrow> jsstring" where
  "js s = map of_char s"

subsection \<open>Tokens, currency identities, errors\<close>

text \<open>
  Modelled from the spec: \<^verbatim>\<open>TokenType\<close>, declared in \<^verbatim>\<open>./types\<close>, which is not among
  the sources. The kinds of a token are Basic, DexShare and Erc20 (section 3, Token); as
  a numeric enum in that order, \<^verbatim>\<open>BASIC\<close> is the number 0 and the only falsy member.
\<close>

datatype TokenType = BASIC | DEX_SHARE | ERC20

definition truthyType :: "TokenType \<Rightarrow> bool" where
  "truthyType t = (t \<noteq> BASIC)"

text \<open>
  Modelled from the spec: \<^verbatim>\<open>FixedPointNumber\<close>, a class of sdk-core that is not among
  the sources. A fixed-point number has an unbounded integer mantissa and a scale, the
  number of fractional digits (section 3, Decimal); its value is
  \<open>inner / 10 ^ precision\<close>.
\<close>

record FixedPointNumber =
  inner :: int
  precision :: nat

text \<open>
  The class \<^verbatim>\<open>Token\<close> (token.ts, lines 27 to 36). \<^verbatim>\<open>decimals\<close> counts fractional
  digits and is a natural number here; the optional \<^verbatim>\<open>pair\<close> is never assigned.
\<close>

record Token =
  name :: jsstring
  symbol :: jsstring
  decimals :: nat
  decimal :: nat
  ed :: FixedPointNumber
  chain :: "jsstring option"
  type :: TokenType
  display :: jsstring

text \<open>
  The interface \<^verbatim>\<open>Configs\<close> (token.ts, lines 16 to 25): every field is optional,
  \<open>None\<close> is \<^verbatim>\<open>undefined\<close>. The fields carry the prefix \<open>c_\<close> to keep them apart
  from the fields of \<open>Token\<close>.
\<close>

record Configs =
  c_display :: "jsstring option"
  c_decimals :: "nat option"
  c_decimal :: "nat option"
  c_type :: "TokenType option"
  c_chain :: "jsstring option"
  c_symbol :: "jsstring option"
  c_detail :: "nat option"
  c_ed :: "FixedPointNumber option"

text \<open>
  \<^verbatim>\<open>CurrencyId\<close> is the chain's codec type, an enum with the accessors
  \<^verbatim>\<open>isToken/asToken\<close>, \<^verbatim>\<open>isDexShare/asDexShare\<close>, \<^verbatim>\<open>isErc20/asErc20\<close>. A variant
  carries what \<^verbatim>\<open>toString()\<close> of its content returns; \<open>IdOther\<close> stands for every
  other variant, with what \<^verbatim>\<open>toString()\<close> of the whole value returns.
\<close>

datatype CurrencyId =
    IdToken jsstring
  | IdDexShare CurrencyId CurrencyId
  | IdErc20 jsstring
  | IdOther jsstring

text \<open>
  \<^verbatim>\<open>MaybeCurrency\<close>: the shapes \<^verbatim>\<open>forceToCurrencyName\<close> tells apart, a string, an
  array of two strings, a \<open>Token\<close>, a \<open>CurrencyId\<close>.
\<close>

datatype MaybeCurrency =
    MString jsstring
  | MArray jsstring jsstring
  | MToken Token
  | MCurrencyId CurrencyId

text \<open>
  The exceptions. \<open>URIError\<close>, \<open>TypeError\<close> and \<open>ReferenceError\<close> are the
  language's own; the error classes of the repository carry the value their constructor
  was given (their message is built from it); \<open>CreateTypeError\<close> is the opaque failure of
  the chain client's \<^verbatim>\<open>createType\<close>.
\<close>

datatype error =
    URIError
  | TypeError
  | ReferenceError
  | CreateTypeError
  | NotDexShareName jsstring
  | ConvertToCurrencyNameFailed MaybeCurrency
  | ConvertToCurrencyIdFailed MaybeCurrency
  | CurrencyNotFound jsstring
  | SDKNotReady jsstring

section \<open>The built-ins \<^verbatim>\<open>encodeURIComponent\<close> and \<^verbatim>\<open>decodeURIComponent\<close>\<close>

text \<open>
  Both follow the abstract operations Encode and Decode of ECMA-262. The characters
  \<^verbatim>\<open>encodeURIComponent\<close> leaves alone are the letters, the digits and
  \<^verbatim>\<open>- _ . ! ~ * ' ( )\<close>.
\<close>

definition uriUnescaped :: "code_unit \<Rightarrow> bool" where
  "uriUnescaped c =
     (let n = unat c in
        (65 \<le> n \<and> n \<le> 90) \<or> (97 \<le> n \<and> n \<le> 122) \<or> (48 \<le> n \<and> n \<le> 57) \<or>
        n \<in> {45, 95, 46, 33, 126, 42, 39, 40, 41})"

definition isLeadingSurrogate :: "code_unit \<Rightarrow> bool" where
  "isLeadingSurrogate c = (0xD800 \<le> unat c \<and> unat c \<le> 0xDBFF)"

definition isTrailingSurrogate :: "code_unit \<Rightarrow> bool" where
  "isTrailingSurrogate c = (0xDC00 \<le> unat c \<and> unat c \<le> 0xDFFF)"

definition UTF16SurrogatePairToCodePoint :: "code_unit \<Rightarrow> code_unit \<Rightarrow> nat" where
  "UTF16SurrogatePairToCodePoint lead trail =
     (unat lead - 0xD800) * 0x400 + (unat trail - 0xDC00) + 0x10000"

text \<open>The UTF-8 octets of a code point.\<close>

definition utf8Octets :: "nat \<Rightarrow> nat list" where
  "utf8Octets cp =
     (if cp < 0x80 then [cp]
      else if cp < 0x800 then [0xC0 + cp div 64, 0x80 + cp mod 64]
      else if cp < 0x10000 then [0xE0 + cp div 4096, 0x80 + cp div 64 mod 64, 0x80 + cp mod 64]
      else [0xF0 + cp div 262144, 0x80 + cp div 4096 mod 64, 0x80 + cp div 64 mod 64,
            0x80 + cp mod 64])"

definition hexDigit :: "nat \<Rightarrow> code_unit" where
  "hexDigit d = of_nat (if d < 10 then 48 + d else 55 + d)"

text \<open>An octet as \<^verbatim>\<open>%XX\<close>, in upper-case hexadecimal digits.\<close>

definition percentEscape :: "nat \<Rightarrow> jsstring" where
  "percentEscape b = [0x25, hexDigit (b div 16), hexDigit (b mod 16)]"

definition escapeCodePoint :: "nat \<Rightarrow> jsstring" where
  "escapeCodePoint cp = concat (map percentEscape (utf8Octets cp))"

text \<open>
  Encode: an unescaped code unit is copied; any other code unit starts a code point,
  which is written as the escapes of its UTF-8 octets. A surrogate that is not half of
  a pair throws \<open>URIError\<close>.
\<close>

fun Encode :: "jsstring \<Rightarrow> error + jsstring" where
  "Encode [] = Inr []"
| "Encode (c # cs) =
     (if uriUnescaped c then
        (case Encode cs of Inl e \<Rightarrow> Inl e | Inr r \<Rightarrow> Inr (c # r))
      else if isLeadingSurrogate c then
        (case cs of
           [] \<Rightarrow> Inl URIError
         | d # ds \<Rightarrow>
             if isTrailingSurrogate d then
               (case Encode ds of
                  Inl e \<Rightarrow> Inl e
                | Inr r \<Rightarrow> Inr (escapeCodePoint (UTF16SurrogatePairToCodePoint c d) @ r))
             else Inl URIError)
      else if isTrailingSurrogate c then Inl URIError
      else
        (case Encode cs of Inl e \<Rightarrow> Inl e | Inr r \<Rightarrow> Inr (escapeCodePoint (unat c) @ r)))"

definition encodeURIComponent :: "jsstring \<Rightarrow> error + jsstring" where
  "encodeURIComponent s = Encode s"

definition hexValue :: "code_unit \<Rightarrow> nat option" where
  "hexValue c =
     (let n = unat c in
        if 48 \<le> n \<and> n \<le> 57 then Some (n - 48)
        else if 65 \<le> n \<and> n \<le> 70 then Some (n - 55)
        else if 97 \<le> n \<and> n \<le> 102 then Some (n - 87)
        else None)"

text \<open>The octet that the two code units at the head of a string spell in hexadecimal.\<close>

definition ParseHexOctet :: "jsstring \<Rightarrow> nat option" where
  "ParseHexOctet s =
     (case s of
        h # l # _ \<Rightarrow>
          (case hexValue h of
             None \<Rightarrow> None
           | Some a \<Rightarrow> (case hexValue l of None \<Rightarrow> None | Some b \<Rightarrow> Some (16 * a + b)))
      | _ \<Rightarrow> None)"

text \<open>The number of leading 1 bits of an octet.\<close>

definition leadingOnes :: "nat \<Rightarrow> nat" where
  "leadingOnes b =
     (if b < 0x80 then 0 else if b < 0xC0 then 1 else if b < 0xE0 then 2
      else if b < 0xF0 then 3 else if b < 0xF8 then 4 else if b < 0xFC then 5
      else if b < 0xFE then 6 else if b < 0xFF then 7 else 8)"

text \<open>The next \<open>j\<close> escapes \<^verbatim>\<open>%XX\<close> of a string, as octets.\<close>

fun continuationOctets :: "nat \<Rightarrow> jsstring \<Rightarrow> nat list option" where
  "continuationOctets 0 s = Some []"
| "continuationOctets (Suc j) [] = None"
| "continuationOctets (Suc j) (p # rest) =
     (if p = 0x25 then
        (case ParseHexOctet rest of
           None \<Rightarrow> None
         | Some b \<Rightarrow>
             (case continuationOctets j (drop 2 rest) of
                None \<Rightarrow> None
              | Some bs \<Rightarrow> Some (b # bs)))
      else None)"

definition isContinuation :: "nat \<Rightarrow> bool" where
  "isContinuation b = (0x80 \<le> b \<and> b \<le> 0xBF)"

text \<open>
  The code point of a well-formed UTF-8 sequence of two to four octets whose first
  octet announces that length: continuation octets in range, no overlong form, no
  surrogate, nothing above \<open>0x10FFFF\<close>.
\<close>

definition utf8CodePoint :: "nat list \<Rightarrow> nat option" where
  "utf8CodePoint bs =
     (case bs of
        [b0, b1] \<Rightarrow>
          if isContinuation b1 then
            (let cp = (b0 - 0xC0) * 64 + (b1 - 0x80)
             in if 0x80 \<le> cp then Some cp else None)
          else None
      | [b0, b1, b2] \<Rightarrow>
          if isContinuation b1 \<and> isContinuation b2 then
            (let cp = (b0 - 0xE0) * 4096 + (b1 - 0x80) * 64 + (b2 - 0x80)
             in if 0x800 \<le> cp \<and> \<not> (0xD800 \<le> cp \<and> cp \<le> 0xDFFF) then Some cp else None)
          else None
      | [b0, b1, b2, b3] \<Rightarrow>
          if isContinuation b1 \<and> isContinuation b2 \<and> isContinuation b3 then
            (let cp = (b0 - 0xF0) * 262144 + (b1 - 0x80) * 4096 + (b2 - 0x80) * 64 + (b3 - 0x80)
             in if 0x10000 \<le> cp \<and> cp \<le> 0x10FFFF then Some cp else None)
          else None
      | _ \<Rightarrow> None)"

definition UTF16EncodeCodePoint :: "nat \<Rightarrow> jsstring" where
  "UTF16EncodeCodePoint cp =
     (if cp < 0x10000 then [of_nat cp]
      else [of_nat (0xD800 + (cp - 0x10000) div 0x400), of_nat (0xDC00 + (cp - 0x10000) mod 0x400)])"

text \<open>
  Decode with no reserved set: a code unit other than \<^verbatim>\<open>%\<close> is copied; \<^verbatim>\<open>%\<close> must
  start an escape, and an escape of an octet with leading 1 bits must start a well-formed
  UTF-8 sequence of escapes. Anything else throws \<open>URIError\<close>.
\<close>

fun Decode :: "jsstring \<Rightarrow> error + jsstring" where
  "Decode [] = Inr []"
| "Decode (c # cs) =
     (if c \<noteq> 0x25 then
        (case Decode cs of Inl e \<Rightarrow> Inl e | Inr r \<Rightarrow> Inr (c # r))
      else
        (case ParseHexOctet cs of
           None \<Rightarrow> Inl URIError
         | Some b \<Rightarrow>
             (let n = leadingOnes b in
                if n = 0 then
                  (case Decode (drop 2 cs) of Inl e \<Rightarrow> Inl e | Inr r \<Rightarrow> Inr (of_nat b # r))
                else if n = 1 \<or> 4 < n then Inl URIError
                else
                  (case continuationOctets (n - 1) (drop 2 cs) of
                     None \<Rightarrow> Inl URIError
                   | Some bs \<Rightarrow>
                       (case utf8CodePoint (b # bs) of
                          None \<Rightarrow> Inl URIError
                        | Some v \<Rightarrow>
                            (case Decode (drop (3 * (n - 1)) (drop 2 cs)) of
                               Inl e \<Rightarrow> Inl e
                             | Inr r \<Rightarrow> Inr (UTF16EncodeCodePoint v @ r)))))))"

definition decodeURIComponent :: "jsstring \<Rightarrow> error + jsstring" where
  "decodeURIComponent s = Decode s"

text \<open>A string is well formed when every surrogate in it is half of a pair.\<close>

fun isWellFormed :: "jsstring \<Rightarrow> bool" where
  "isWellFormed [] = True"
| "isWellFormed (c # cs) =
     (if isLeadingSurrogate c then
        (case cs of [] \<Rightarrow> False | d # ds \<Rightarrow> isTrailingSurrogate d \<and> isWellFormed ds)
      else \<not> isTrailingSurrogate c \<and> isWellFormed cs)"

section \<open>converter.ts: dex-share names\<close>

definition startsWith :: "jsstring \<Rightarrow> jsstring \<Rightarrow> bool" where
  "startsWith s p = (take (length p) s = p)"

definition createDexShareName :: "jsstring \<Rightarrow> jsstring \<Rightarrow> error + jsstring" where
  "createDexShareName name1 name2 =
     (case encodeURIComponent name1 of
        Inl e \<Rightarrow> Inl e
      | Inr e1 \<Rightarrow>
          (case encodeURIComponent name2 of
             Inl e \<Rightarrow> Inl e
           | Inr e2 \<Rightarrow> Inr (js ''lp://'' @ e1 @ js ''/'' @ e2)))"

definition isDexShareName :: "jsstring \<Rightarrow> bool" where
  "isDexShareName s = startsWith s (js ''lp://'')"

text \<open>
  \<^verbatim>\<open>/^lp:\/\/([^/]*)?\/([^/]*)$/.exec(name)\<close>: the result is \<open>None\<close> when the
  expression does not match, and the two captures otherwise. After the literal prefix,
  the first group takes the longest run of code units other than \<^verbatim>\<open>/\<close>; a \<^verbatim>\<open>/\<close> must
  follow, and the second group takes the rest, which must hold no \<^verbatim>\<open>/\<close>. Giving back
  code units of the first run never helps, since the code unit given back is not \<^verbatim>\<open>/\<close>.
  The first group stands under the quantifier \<^verbatim>\<open>?\<close>: an iteration of a quantified
  atom that matches the empty string is rejected (ECMA-262, RepeatMatcher, step 2.a), so
  with an empty run the group does not take part and its capture is \<^verbatim>\<open>undefined\<close>,
  here \<open>None\<close>.
\<close>

definition reg_exec :: "jsstring \<Rightarrow> (jsstring option \<times> jsstring) option" where
  "reg_exec s =
     (if startsWith s (js ''lp://'') then
        (let r = drop 5 s;
             a = takeWhile (\<lambda>c. c \<noteq> 0x2F) r
         in (case dropWhile (\<lambda>c. c \<noteq> 0x2F) r of
               [] \<Rightarrow> None
             | _ # b \<Rightarrow>
                 if 0x2F \<in> set b then None
                 else Some (if a = [] then None else Some a, b)))
      else None)"

text \<open>The conversion of an argument to a string: \<^verbatim>\<open>undefined\<close> becomes its name.\<close>

definition ToString :: "jsstring option \<Rightarrow> jsstring" where
  "ToString v = (case v of None \<Rightarrow> js ''undefined'' | Some s \<Rightarrow> s)"

definition unzipDexShareName :: "jsstring \<Rightarrow> error + (jsstring \<times> jsstring)" where
  "unzipDexShareName s =
     (if \<not> isDexShareName s then Inl (NotDexShareName s)
      else
        (case reg_exec s of
           None \<Rightarrow> Inl (NotDexShareName s)
         | Some (g1, g2) \<Rightarrow>
             (case decodeURIComponent (ToString g1) of
                Inl e \<Rightarrow> Inl e
              | Inr a \<Rightarrow>
                  (case decodeURIComponent g2 of
                     Inl e \<Rightarrow> Inl e
                   | Inr b \<Rightarrow> Inr (a, b)))))"

text \<open>
  The shape \<^verbatim>\<open>lp://A/B\<close> with a single top-level separator: the prefix, then two
  segments free of \<^verbatim>\<open>/\<close> with one \<^verbatim>\<open>/\<close> between them.
\<close>

definition dexShareShape :: "jsstring \<Rightarrow> bool" where
  "dexShareShape s =
     (\<exists>a b. s = js ''lp://'' @ a @ js ''/'' @ b \<and> 0x2F \<notin> set a \<and> 0x2F \<notin> set b)"

section \<open>converter.ts: names and identities\<close>

text \<open>
  \<^verbatim>\<open>forceToCurrencyName\<close> (converter.ts, lines 88 to 112): whatever is thrown inside
  the \<^verbatim>\<open>try\<close> block is replaced by \<open>ConvertToCurrencyNameFailed\<close> with the argument of
  this call.
\<close>

function (sequential) forceToCurrencyName :: "MaybeCurrency \<Rightarrow> error + jsstring" where
  "forceToCurrencyName (MString s) = Inr s"
| "forceToCurrencyName (MArray a b) =
     (case createDexShareName a b of
        Inl e \<Rightarrow> Inl (ConvertToCurrencyNameFailed (MArray a b))
      | Inr n \<Rightarrow> Inr n)"
| "forceToCurrencyName (MToken t) = Inr (name t)"
| "forceToCurrencyName (MCurrencyId (IdToken s)) = Inr s"
| "forceToCurrencyName (MCurrencyId (IdDexShare a b)) =
     (case forceToCurrencyName (MCurrencyId a) of
        Inl e \<Rightarrow> Inl (ConvertToCurrencyNameFailed (MCurrencyId (IdDexShare a b)))
      | Inr n0 \<Rightarrow>
          (case forceToCurrencyName (MCurrencyId b) of
             Inl e \<Rightarrow> Inl (ConvertToCurrencyNameFailed (MCurrencyId (IdDexShare a b)))
           | Inr n1 \<Rightarrow>
               (case createDexShareName n0 n1 of
                  Inl e \<Rightarrow> Inl (ConvertToCurrencyNameFailed (MCurrencyId (IdDexShare a b)))
                | Inr n \<Rightarrow> Inr n)))"
| "forceToCurrencyName (MCurrencyId (IdErc20 s)) = Inr s"
| "forceToCurrencyName (MCurrencyId (IdOther s)) = Inr s"
  by pat_completeness auto
termination
  by (relation "measure (\<lambda>t. case t of MCurrencyId c \<Rightarrow> size c | _ \<Rightarrow> 0)") auto

text \<open>\<^verbatim>\<open>CurrencyObject\<close>: \<^verbatim>\<open>{ Token: name }\<close> or \<^verbatim>\<open>{ DexShare: [a, b] }\<close>.\<close>

datatype CurrencyObject = OToken jsstring | ODexShare CurrencyObject CurrencyObject

definition getCurrencyTypeByName :: "jsstring \<Rightarrow> TokenType" where
  "getCurrencyTypeByName s = (if isDexShareName s then DEX_SHARE else BASIC)"

definition getBasicCurrencyObject :: "jsstring \<Rightarrow> CurrencyObject" where
  "getBasicCurrencyObject s = OToken s"

section \<open>token.ts\<close>

text \<open>
  Modelled from the spec: the canonical zero of the fixed-point numbers (section 3,
  Decimal).
\<close>

definition FN_ZERO :: FixedPointNumber where
  "FN_ZERO = \<lparr>inner = 0, precision = 0\<rparr>"

text \<open>
  \<^verbatim>\<open>a || d\<close> on an optional number, an optional string, an optional object and an
  optional token type: \<^verbatim>\<open>undefined\<close>, the number 0 and the empty string are falsy, an
  object never is.
\<close>

definition numOr :: "nat option \<Rightarrow> nat \<Rightarrow> nat" where
  "numOr v d = (case v of None \<Rightarrow> d | Some n \<Rightarrow> if n = 0 then d else n)"

definition strOr :: "jsstring option \<Rightarrow> jsstring \<Rightarrow> jsstring" where
  "strOr v d = (case v of None \<Rightarrow> d | Some x \<Rightarrow> if x = [] then d else x)"

definition objOr :: "'a option \<Rightarrow> 'a \<Rightarrow> 'a" where
  "objOr v d = (case v of None \<Rightarrow> d | Some x \<Rightarrow> x)"

definition typeOr :: "TokenType option \<Rightarrow> TokenType \<Rightarrow> TokenType" where
  "typeOr v d = (case v of None \<Rightarrow> d | Some t \<Rightarrow> if truthyType t then t else d)"

text \<open>\<^verbatim>\<open>configs?.field\<close>: \<^verbatim>\<open>undefined\<close> when \<^verbatim>\<open>configs\<close> is.\<close>

definition optField :: "Configs option \<Rightarrow> (Configs \<Rightarrow> 'a option) \<Rightarrow> 'a option" where
  "optField configs f = (case configs of None \<Rightarrow> None | Some c \<Rightarrow> f c)"

text \<open>The constructor of \<^verbatim>\<open>Token\<close> (token.ts, lines 38 to 47).\<close>

definition Token_constructor :: "jsstring \<Rightarrow> Configs option \<Rightarrow> Token" where
  "Token_constructor nm configs =
     (let d = numOr (optField configs c_decimals) (numOr (optField configs c_decimal) 18)
      in \<lparr>name = nm,
          symbol = strOr (optField configs c_symbol) nm,
          decimals = d,
          decimal = d,
          ed = objOr (optField configs c_ed) FN_ZERO,
          chain = optField configs c_chain,
          type = typeOr (optField configs c_type) BASIC,
          display = strOr (optField configs c_display) nm\<rparr>)"

text \<open>
  \<^verbatim>\<open>Array.prototype.sort\<close> with a comparator. For a consistent comparator ECMA-262
  fixes the result: ascending by the comparator, elements that compare equal in their
  original order. Insertion from the right end gives that result; an element goes before
  the first one it does not exceed. The comparator returns a number, of which only the
  sign is used, here an integer.
\<close>

fun insertCmp :: "('a \<Rightarrow> 'a \<Rightarrow> int) \<Rightarrow> 'a \<Rightarrow> 'a list \<Rightarrow> 'a list" where
  "insertCmp cmp x [] = [x]"
| "insertCmp cmp x (y # ys) = (if cmp x y \<le> 0 then x # y # ys else y # insertCmp cmp x ys)"

definition Array_sort :: "('a \<Rightarrow> 'a \<Rightarrow> int) \<Rightarrow> 'a list \<Rightarrow> 'a list" where
  "Array_sort cmp xs = foldr (insertCmp cmp) xs []"

text \<open>
  A plain object, as the list of its own properties in creation order.
  \<^verbatim>\<open>Object.fromEntries\<close> defines the properties one by one; defining a key again
  replaces its value and keeps its place. \<^verbatim>\<open>Object.keys\<close> lists the keys that are array
  indices first, in ascending numeric order, then the other keys in creation order. An
  array index is the canonical decimal string of an integer from 0 to \<open>2^32 - 2\<close>.
\<close>

type_synonym 'v object = "(jsstring \<times> 'v) list"

fun defineProperty :: "'v object \<Rightarrow> jsstring \<Rightarrow> 'v \<Rightarrow> 'v object" where
  "defineProperty [] k v = [(k, v)]"
| "defineProperty ((k', v') # ps) k v =
     (if k' = k then (k, v) # ps else (k', v') # defineProperty ps k v)"

definition Object_fromEntries :: "(jsstring \<times> 'v) list \<Rightarrow> 'v object" where
  "Object_fromEntries es = foldl (\<lambda>ob (k, v). defineProperty ob k v) [] es"

definition isDigit :: "code_unit \<Rightarrow> bool" where
  "isDigit c = (48 \<le> unat c \<and> unat c \<le> 57)"

definition decimalValue :: "jsstring \<Rightarrow> nat" where
  "decimalValue s = foldl (\<lambda>a c. 10 * a + (unat c - 48)) 0 s"

definition isArrayIndex :: "jsstring \<Rightarrow> bool" where
  "isArrayIndex s =
     (s \<noteq> [] \<and> list_all isDigit s \<and> (hd s \<noteq> 0x30 \<or> length s = 1) \<and>
      decimalValue s \<le> 4294967294)"

definition Object_keys :: "'v object \<Rightarrow> jsstring list" where
  "Object_keys ob =
     (let ks = map fst ob
      in sort_key decimalValue (filter isArrayIndex ks) @ filter (\<lambda>k. \<not> isArrayIndex k) ks)"

definition getProperty :: "'v object \<Rightarrow> jsstring \<Rightarrow> 'v option" where
  "getProperty ob k = map_of ob k"

text \<open>
  \<^verbatim>\<open>sortTokenByName\<close> of \<^verbatim>\<open>./sort-token\<close> is not among the sources; it is the
  parameter \<open>cmp\<close> of the three sorting functions and of \<open>fromTokens\<close>.
\<close>

definition sortTokenNames :: "(jsstring \<Rightarrow> jsstring \<Rightarrow> int) \<Rightarrow> jsstring list \<Rightarrow> jsstring list" where
  "sortTokenNames cmp names = Array_sort (\<lambda>a b. cmp a b) names"

text \<open>
  \<^verbatim>\<open>Object.keys(nameMap).sort(...).map((name) => nameMap[name])\<close>: every name is a key
  of \<open>nameMap\<close>, so no element of the result is \<^verbatim>\<open>undefined\<close>.
\<close>

definition sortByNameMap ::
  "(jsstring \<Rightarrow> jsstring \<Rightarrow> int) \<Rightarrow> 'v object \<Rightarrow> 'v list" where
  "sortByNameMap cmp nameMap =
     List.map_filter (getProperty nameMap) (Array_sort (\<lambda>a b. cmp a b) (Object_keys nameMap))"

definition Token_sort :: "(jsstring \<Rightarrow> jsstring \<Rightarrow> int) \<Rightarrow> Token list \<Rightarrow> Token list" where
  "Token_sort cmp tokens =
     sortByNameMap cmp (Object_fromEntries (map (\<lambda>item. (name item, item)) tokens))"

text \<open>The names of a list of currencies; the first failure is thrown.\<close>

fun currencyNames :: "MaybeCurrency list \<Rightarrow> error + jsstring list" where
  "currencyNames [] = Inr []"
| "currencyNames (item # items) =
     (case forceToCurrencyName item of
        Inl e \<Rightarrow> Inl e
      | Inr n \<Rightarrow> (case currencyNames items of Inl e \<Rightarrow> Inl e | Inr ns \<Rightarrow> Inr (n # ns)))"

definition sortCurrencies ::
  "(jsstring \<Rightarrow> jsstring \<Rightarrow> int) \<Rightarrow> MaybeCurrency list \<Rightarrow> error + MaybeCurrency list" where
  "sortCurrencies cmp currencies =
     (case currencyNames currencies of
        Inl e \<Rightarrow> Inl e
      | Inr ns \<Rightarrow> Inr (sortByNameMap cmp (Object_fromEntries (zip ns currencies))))"

text \<open>
  \<^verbatim>\<open>Token.fromTokens\<close> (token.ts, lines 88 to 100). The array pattern binds
  \<^verbatim>\<open>_token1\<close> and \<^verbatim>\<open>_token2\<close> to the first two elements of the sorted list, or to
  \<^verbatim>\<open>undefined\<close> where the list is too short; reading a property of \<^verbatim>\<open>undefined\<close>
  throws \<open>TypeError\<close>.
\<close>

definition element :: "'a list \<Rightarrow> nat \<Rightarrow> 'a option" where
  "element xs i = (if i < length xs then Some (xs ! i) else None)"

definition fromTokens :: "(jsstring \<Rightarrow> jsstring \<Rightarrow> int) \<Rightarrow> Token \<Rightarrow> Token \<Rightarrow> error + Token" where
  "fromTokens cmp token1 token2 =
     (let sorted = Token_sort cmp [token1, token2]
      in case element sorted 0 of
           None \<Rightarrow> Inl TypeError
         | Some t1 \<Rightarrow>
             (case element sorted 1 of
                None \<Rightarrow> Inl TypeError
              | Some t2 \<Rightarrow>
                  (case createDexShareName (name t1) (name t2) of
                     Inl e \<Rightarrow> Inl e
                   | Inr n \<Rightarrow>
                       Inr (Token_constructor n
                              (Some \<lparr>c_display = None, c_decimals = Some (decimals t1),
                                     c_decimal = None, c_type = Some DEX_SHARE, c_chain = None,
                                     c_symbol = None, c_detail = None, c_ed = Some (ed t1)\<rparr>)))))"

text \<open>The truthiness of an optional number.\<close>

definition truthyNum :: "nat option \<Rightarrow> bool" where
  "truthyNum v = (case v of None \<Rightarrow> False | Some n \<Rightarrow> n \<noteq> 0)"

text \<open>
  Fixtures for the examples: a configuration with no field set, and a comparator that
  orders names by their place in a table, as a subtraction of ranks.
\<close>

definition noConfigs :: Configs where
  "noConfigs = \<lparr>c_display = None, c_decimals = None, c_decimal = None, c_type = None,
     c_chain = None, c_symbol = None, c_detail = None, c_ed = None\<rparr>"

definition rank :: "jsstring list \<Rightarrow> jsstring \<Rightarrow> nat" where
  "rank table a = length (takeWhile (\<lambda>x. x \<noteq> a) table)"

definition rankCmp :: "jsstring list \<Rightarrow> jsstring \<Rightarrow> jsstring \<Rightarrow> int" where
  "rankCmp table a b = int (rank table a) - int (rank table b)"

section \<open>converter.ts: currency objects and identities\<close>

text \<open>
  \<^verbatim>\<open>getDexShareCurrencyObject\<close> recurses on the two names that \<open>unzipDexShareName\<close>
  returns. The recursion ends: a decoded string is no longer than the encoded one, each
  capture is shorter than the whole name, and the string \<^verbatim>\<open>undefined\<close> that stands for a
  missing first capture is not a dex-share name. The lemmas that follow establish this.
\<close>

lemma length_lp [simp]: "length (js ''lp://'') = 5"
  by (simp add: js_def)

text \<open>The definitions that evaluate the codec on a literal.\<close>

lemma continuationOctets_numeral:
  "continuationOctets (numeral k) (p # rest) =
     (if p = 0x25 then
        (case ParseHexOctet rest of
           None \<Rightarrow> None
         | Some b \<Rightarrow>
             (case continuationOctets (pred_numeral k) (drop 2 rest) of
                None \<Rightarrow> None
              | Some bs \<Rightarrow> Some (b # bs)))
      else None)"
  by (simp add: numeral_eq_Suc)

lemmas uri_eval =
  js_def uriUnescaped_def isLeadingSurrogate_def isTrailingSurrogate_def escapeCodePoint_def
  utf8Octets_def percentEscape_def hexDigit_def ParseHexOctet_def hexValue_def leadingOnes_def
  utf8CodePoint_def isContinuation_def UTF16EncodeCodePoint_def
  UTF16SurrogatePairToCodePoint_def encodeURIComponent_def decodeURIComponent_def
  continuationOctets_numeral

lemmas name_eval =
  createDexShareName_def unzipDexShareName_def isDexShareName_def startsWith_def reg_exec_def
  ToString_def

lemma ParseHexOctet_length: "ParseHexOctet s = Some b \<Longrightarrow> 2 \<le> length s"
  by (auto simp: ParseHexOctet_def split: list.splits option.splits)

lemma continuationOctets_length: "continuationOctets j s = Some bs \<Longrightarrow> 3 * j \<le> length s"
proof (induction j s arbitrary: bs rule: continuationOctets.induct)
  case (1 s)
  show ?case by simp
next
  case (2 j)
  then show ?case by simp
next
  case (3 j p rest)
  from "3.prems" obtain b bs' where p: "p = 0x25" and b: "ParseHexOctet rest = Some b"
    and c: "continuationOctets j (drop 2 rest) = Some bs'"
    by (auto split: if_splits option.splits)
  from "3.IH" [OF p b c] have "3 * j \<le> length rest - 2" by simp
  moreover have "2 \<le> length rest" using b by (rule ParseHexOctet_length)
  ultimately show ?case by simp
qed

lemma length_UTF16EncodeCodePoint: "length (UTF16EncodeCodePoint v) \<le> 2"
  by (simp add: UTF16EncodeCodePoint_def)

lemma Decode_length: "Decode s = Inr r \<Longrightarrow> length r \<le> length s"
proof (induction s arbitrary: r rule: Decode.induct)
  case 1
  then show ?case by simp
next
  case (2 c cs)
  show ?case
  proof (cases "c \<noteq> 0x25")
    case True
    with "2.prems" obtain r' where r': "Decode cs = Inr r'" "r = c # r'"
      by (auto split: sum.splits)
    from "2.IH"(1) [OF True r'(1)] r'(2) show ?thesis by simp
  next
    case False
    with "2.prems" obtain b where b: "ParseHexOctet cs = Some b"
      by (auto split: option.splits)
    have l2: "2 \<le> length cs" using b by (rule ParseHexOctet_length)
    show ?thesis
    proof (cases "leadingOnes b = 0")
      case True
      with "2.prems" False b obtain r' where r': "Decode (drop 2 cs) = Inr r'" "r = of_nat b # r'"
        by (auto split: sum.splits)
      from "2.IH"(2) [OF False b refl True r'(1)] r'(2) l2 show ?thesis by simp
    next
      case n0: False
      with "2.prems" False b have n14: "\<not> (leadingOnes b = 1 \<or> 4 < leadingOnes b)"
        by (auto split: if_splits)
      with "2.prems" False b n0 obtain bs v r' where
        bs: "continuationOctets (leadingOnes b - 1) (drop 2 cs) = Some bs"
        and v: "utf8CodePoint (b # bs) = Some v"
        and r': "Decode (drop (3 * (leadingOnes b - 1)) (drop 2 cs)) = Inr r'"
                "r = UTF16EncodeCodePoint v @ r'"
        by (auto split: option.splits sum.splits simp: Let_def)
      from "2.IH"(3) [OF False b refl n0 n14 bs v r'(1)]
      have "length r' \<le> length cs - 2 - 3 * (leadingOnes b - 1)" by simp
      moreover have "3 * (leadingOnes b - 1) \<le> length cs - 2"
        using continuationOctets_length [OF bs] by simp
      moreover have "1 \<le> leadingOnes b - 1" using n0 n14 by arith
      ultimately show ?thesis
        using l2 length_UTF16EncodeCodePoint [of v] by (simp add: r'(2))
    qed
  qed
qed

lemma reg_exec_length:
  assumes "reg_exec s = Some (g1, g2)"
  shows "length g2 < length s" and "g1 = Some a \<Longrightarrow> length a < length s"
proof -
  let ?P = "\<lambda>c::code_unit. c \<noteq> 0x2F"
  from assms have sw: "startsWith s (js ''lp://'')"
    by (auto simp: reg_exec_def split: if_splits)
  then have "take 5 s = js ''lp://''"
    by (simp add: startsWith_def)
  then have "length (take 5 s) = 5"
    by (simp only: length_lp)
  then have l5: "5 \<le> length s"
    by simp
  from assms sw obtain c where dw: "dropWhile ?P (drop 5 s) = c # g2"
    and g1: "g1 = (if takeWhile ?P (drop 5 s) = [] then None else Some (takeWhile ?P (drop 5 s)))"
    by (auto simp: reg_exec_def Let_def split: list.splits if_splits)
  have "length (dropWhile ?P (drop 5 s)) \<le> length (drop 5 s)"
    by (rule length_dropWhile_le)
  then show "length g2 < length s" using dw l5 by simp
  have "length (takeWhile ?P (drop 5 s)) \<le> length (drop 5 s)"
    by (rule length_takeWhile_le)
  then show "g1 = Some a \<Longrightarrow> length a < length s"
    using g1 l5 by (auto split: if_splits)
qed

lemma unzipDexShareName_smaller:
  assumes "unzipDexShareName s = Inr (a, b)"
  shows "(if isDexShareName a then Suc (length a) else 0) < Suc (length s)"
    and "(if isDexShareName b then Suc (length b) else 0) < Suc (length s)"
proof -
  from assms obtain g1 g2 where r: "reg_exec s = Some (g1, g2)"
    and a: "Decode (ToString g1) = Inr a" and b: "Decode g2 = Inr b"
    by (auto simp: unzipDexShareName_def decodeURIComponent_def
        split: if_splits option.splits sum.splits)
  from Decode_length [OF b] reg_exec_length(1) [OF r]
  show "(if isDexShareName b then Suc (length b) else 0) < Suc (length s)" by simp
  show "(if isDexShareName a then Suc (length a) else 0) < Suc (length s)"
  proof (cases g1)
    case None
    then have "a = js ''undefined''"
      using a by (simp add: ToString_def uri_eval)
    then have "\<not> isDexShareName a"
      by (simp add: isDexShareName_def startsWith_def js_def)
    then show ?thesis by simp
  next
    case (Some x)
    from Decode_length [OF a] reg_exec_length(2) [OF r Some] Some
    show ?thesis by (simp add: ToString_def)
  qed
qed

function getDexShareCurrencyObject :: "jsstring \<Rightarrow> error + CurrencyObject" where
  "getDexShareCurrencyObject s =
     (if isDexShareName s then
        (case unzipDexShareName s of
           Inl e \<Rightarrow> Inl e
         | Inr (name1, name2) \<Rightarrow>
             (case getDexShareCurrencyObject name1 of
                Inl e \<Rightarrow> Inl e
              | Inr o1 \<Rightarrow>
                  (case getDexShareCurrencyObject name2 of
                     Inl e \<Rightarrow> Inl e
                   | Inr o2 \<Rightarrow> Inr (ODexShare o1 o2))))
      else Inr (getBasicCurrencyObject s))"
  by pat_completeness auto
termination
proof (relation "measure (\<lambda>s. if isDexShareName s then Suc (length s) else 0)")
  show "wf (measure (\<lambda>s. if isDexShareName s then Suc (length s) else 0))" by simp
next
  fix s x name1 name2
  assume "isDexShareName s" "unzipDexShareName s = Inr x" "(name1, name2) = x"
  then show "(name1, s) \<in> measure (\<lambda>s. if isDexShareName s then Suc (length s) else 0)"
    using unzipDexShareName_smaller(1) [of s name1 name2] by simp
next
  fix s x name1 name2 o1
  assume "isDexShareName s" "unzipDexShareName s = Inr x" "(name1, name2) = x"
  then show "(name2, s) \<in> measure (\<lambda>s. if isDexShareName s then Suc (length s) else 0)"
    using unzipDexShareName_smaller(2) [of s name1 name2] by simp
qed

definition getCurrencyObject :: "jsstring \<Rightarrow> error + CurrencyObject" where
  "getCurrencyObject s =
     (if isDexShareName s then getDexShareCurrencyObject s else Inr (getBasicCurrencyObject s))"

text \<open>
  The chain client: \<^verbatim>\<open>createType\<close> builds the wire value of a currency object or fails;
  \<^verbatim>\<open>api.consts\<close> holds the currency identities of the serp treasury, each optional;
  \<^verbatim>\<open>api.runtimeChain\<close> is the chain's label, as a string, and \<^verbatim>\<open>api.registry\<close> lists
  the chain's tokens and their decimals.
\<close>

record SerpTreasuryConsts =
  getSerpCurrencyId :: "CurrencyId option"
  getDinarCurrencyId :: "CurrencyId option"
  getHelpCurrencyId :: "CurrencyId option"
  setterCurrencyId :: "CurrencyId option"
  getSetUSDId :: "CurrencyId option"

record ApiConsts =
  serpTreasury :: "SerpTreasuryConsts option"

record AnyApi =
  createType :: "CurrencyObject \<Rightarrow> error + CurrencyId"
  api_consts :: "ApiConsts option"
  api_runtimeChain :: jsstring
  api_chainTokens :: "jsstring list"
  api_chainDecimals :: "nat list"

text \<open>
  \<^verbatim>\<open>forceToCurrencyId\<close> (converter.ts, lines 114 to 122). The \<^verbatim>\<open>catch\<close> block names
  \<^verbatim>\<open>origin\<close>, which is neither a parameter nor a variable of the module: it is the
  global of that name, a string where the host defines it (a browser's window) and
  unbound elsewhere, where reading it throws \<open>ReferenceError\<close>. The global is the first
  argument, \<open>None\<close> when unbound.
\<close>

definition forceToCurrencyId ::
  "jsstring option \<Rightarrow> AnyApi \<Rightarrow> MaybeCurrency \<Rightarrow> error + CurrencyId" where
  "forceToCurrencyId origin api target =
     (case (case forceToCurrencyName target of
              Inl e \<Rightarrow> Inl e
            | Inr nm \<Rightarrow>
                (case getCurrencyObject nm of
                   Inl e \<Rightarrow> Inl e
                 | Inr ob \<Rightarrow> createType api ob)) of
        Inr cid \<Rightarrow> Inr cid
      | Inl e \<Rightarrow>
          (case origin of
             None \<Rightarrow> Inl ReferenceError
           | Some v \<Rightarrow> Inl (ConvertToCurrencyIdFailed (MString v))))"

text \<open>
  Modelled from the spec: the canonical ordering, which \<^verbatim>\<open>sortTokenByName\<close> of
  \<^verbatim>\<open>./sort-token\<close> implements and which is not among the sources, is a total order over
  names (section 4.2): distinct names never compare equal, the two directions of a
  comparison agree, and the order is transitive.
\<close>

definition totalOrderCmp :: "(jsstring \<Rightarrow> jsstring \<Rightarrow> int) \<Rightarrow> bool" where
  "totalOrderCmp cmp =
     ((\<forall>a b. cmp a b = 0 \<longleftrightarrow> a = b) \<and>
      (\<forall>a b. cmp a b < 0 \<longleftrightarrow> 0 < cmp b a) \<and>
      (\<forall>a b c. cmp a b \<le> 0 \<and> cmp b c \<le> 0 \<longrightarrow> cmp a c \<le> 0))"

text \<open>
  A fixture for the examples, one deterministic collation: the comparison of two names
  code unit by code unit.
\<close>

fun codeUnitCmp :: "jsstring \<Rightarrow> jsstring \<Rightarrow> int" where
  "codeUnitCmp [] [] = 0"
| "codeUnitCmp [] (b # bs) = - 1"
| "codeUnitCmp (a # as) [] = 1"
| "codeUnitCmp (a # as) (b # bs) =
     (if a < b then - 1 else if b < a then 1 else codeUnitCmp as bs)"

section \<open>The wallet\<close>

subsection \<open>Fixed-point numbers\<close>

text \<open>
  Modelled from the spec: \<open>fromInner raw d\<close> reads the raw integer of the ledger as
  already scaled by \<open>d\<close> digits; subtraction and maximum are exact at the larger of the
  two scales, and subtraction may go negative (sections 3 and 4.3).
\<close>

definition fromInner :: "int \<Rightarrow> nat \<Rightarrow> FixedPointNumber" where
  "fromInner raw d = \<lparr>inner = raw, precision = d\<rparr>"

definition alignTo :: "nat \<Rightarrow> FixedPointNumber \<Rightarrow> int" where
  "alignTo p a = inner a * 10 ^ (p - precision a)"

definition FN_sub :: "FixedPointNumber \<Rightarrow> FixedPointNumber \<Rightarrow> FixedPointNumber" where
  "FN_sub a b =
     (let p = max (precision a) (precision b)
      in \<lparr>inner = alignTo p a - alignTo p b, precision = p\<rparr>)"

definition FN_max :: "FixedPointNumber \<Rightarrow> FixedPointNumber \<Rightarrow> FixedPointNumber" where
  "FN_max a b =
     (let p = max (precision a) (precision b)
      in \<lparr>inner = max (alignTo p a) (alignTo p b), precision = p\<rparr>)"

text \<open>
  The number a fixed-point value denotes.
\<close>

definition FN_value :: "FixedPointNumber \<Rightarrow> real" where
  "FN_value a = real_of_int (inner a) / 10 ^ precision a"

subsection \<open>Types of the wallet\<close>

text \<open>
  \<^verbatim>\<open>PriceProviderType\<close> is the numeric enum of the price-provider types:
  \<^verbatim>\<open>MARKET\<close> is 0, and falsy, \<^verbatim>\<open>ORACLE\<close> is 1. \<^verbatim>\<open>ChainType\<close> has the single member
  \<^verbatim>\<open>SETHEUM\<close>. A price provider is one of the two default providers or a provider given
  to the constructor, told apart by a number.
\<close>

datatype PriceProviderType = MARKET | ORACLE

datatype ChainType = SETHEUM

datatype PriceProvider = MarketPriceProvider | OraclePriceProvider | OtherPriceProvider nat

type_synonym TokenRecord = "Token object"

text \<open>
  The records of the wallet. The balances of the chain are unsigned integers. The
  fields of \<^verbatim>\<open>AccountInfo.data\<close> carry the prefix \<open>data_\<close>, those of
  \<^verbatim>\<open>OrmlAccountData\<close> the prefix \<open>orml_\<close>.
\<close>

record WalletConsts =
  runtimeChain :: jsstring
  nativeCurrency :: jsstring

record AccountInfo =
  data_free :: nat
  data_reserved :: nat
  data_miscFrozen :: nat
  data_feeFrozen :: nat
  providers :: nat
  consumers :: nat

record OrmlAccountData =
  orml_free :: nat
  orml_reserved :: nat
  orml_frozen :: nat

record BalanceData =
  available :: FixedPointNumber
  token :: Token
  free :: FixedPointNumber
  locked :: FixedPointNumber
  reserved :: FixedPointNumber

text \<open>
  The value of a member access \<^verbatim>\<open>ob[name]\<close> on an ordinary object, whose prototype
  is \<^verbatim>\<open>Object.prototype\<close>: the object's own property of that name; else, where the name
  is that of a property of \<^verbatim>\<open>Object.prototype\<close>, the inherited member, which is no
  token; else \<^verbatim>\<open>undefined\<close>.
\<close>

datatype 'v member = Undefined | Own 'v | Inherited jsstring

definition objectPrototypeNames :: "jsstring list" where
  "objectPrototypeNames =
     [js ''constructor'', js ''__defineGetter__'', js ''__defineSetter__'',
      js ''hasOwnProperty'', js ''__lookupGetter__'', js ''__lookupSetter__'',
      js ''isPrototypeOf'', js ''propertyIsEnumerable'', js ''toString'', js ''valueOf'',
      js ''__proto__'', js ''toLocaleString'']"

definition getMember :: "'v object \<Rightarrow> jsstring \<Rightarrow> 'v member" where
  "getMember ob k =
     (case getProperty ob k of
        Some v \<Rightarrow> Own v
      | None \<Rightarrow> if k \<in> set objectPrototypeNames then Inherited k else Undefined)"

text \<open>
  \<^verbatim>\<open>PresetTokens\<close>: \<^verbatim>\<open>nativeToken\<close> is always assigned; \<^verbatim>\<open>stableToken\<close> is \<open>None\<close>
  as long as no step has assigned it.
\<close>

record PresetTokens =
  nativeToken :: "Token member"
  stableToken :: "Token member option"

text \<open>
  Modelled from the spec: the storage streams of \<^verbatim>\<open>./storages\<close>, which is not among
  the sources, emit the current value of the chain promptly on subscription and a new
  value on each change (section 6). \<open>Storages\<close> holds the current values, the native
  account information by address and the token account data by token name and address.
\<close>

record Storages =
  nativeBalance :: "jsstring \<Rightarrow> AccountInfo"
  nonNativeBalance :: "jsstring \<Rightarrow> jsstring \<Rightarrow> OrmlAccountData"

text \<open>
  The state of a \<^verbatim>\<open>Wallet\<close>: its fields, with the current values of the two
  \<^verbatim>\<open>BehaviorSubject\<close>s \<^verbatim>\<open>tokens$\<close> and \<^verbatim>\<open>isReady$\<close>. \<^verbatim>\<open>getChainType\<close> of
  \<^verbatim>\<open>../utils/get-chain-type\<close> is not among the sources and is a field here.
\<close>

record Wallet =
  wallet_api :: AnyApi
  priceProviders :: "PriceProviderType \<Rightarrow> PriceProvider option"
  tokens :: TokenRecord
  storages :: Storages
  tokenPriceFetchSource :: "(ChainType \<Rightarrow> (jsstring \<Rightarrow> PriceProviderType option) option) option"
  isReady :: bool
  wallet_consts :: WalletConsts
  getChainType :: "jsstring \<Rightarrow> ChainType"

text \<open>
  The wallet reacts to pushes: a new value of \<^verbatim>\<open>tokens$\<close>, a new value of
  \<^verbatim>\<open>isReady$\<close> (the subscription of \<^verbatim>\<open>initTokens\<close> pushes the token list and then
  \<^verbatim>\<open>true\<close>), and a change of a balance in the chain's storage. An observable is
  modelled by what one subscriber receives: the notifications at subscription, in the
  wallet's state at that moment, and the notifications each later event causes.
  A stream ends with its first error. A promise is pending, fulfilled or rejected.
\<close>

datatype event =
    TokensNext TokenRecord
  | ReadyNext bool
  | NativeBalanceNext jsstring AccountInfo
  | NonNativeBalanceNext jsstring jsstring OrmlAccountData

datatype 'a notification = Next 'a | Error error

datatype 'a promise = Pending | Fulfilled 'a | Rejected error

text \<open>
  What \<open>subscribePrice\<close> returns: \<^verbatim>\<open>of(value)\<close>, the stream of one value; the price
  stream of a provider for a currency; or the dex-share price stream made of the price
  streams of the two legs and the pool detail of the name.
\<close>

datatype PriceObservable =
    Of FixedPointNumber
  | ProviderPrice PriceProvider MaybeCurrency
  | DexSharePrice PriceObservable PriceObservable jsstring

definition applyEvent :: "event \<Rightarrow> Wallet \<Rightarrow> Wallet" where
  "applyEvent e w =
     (case e of
        TokensNext l \<Rightarrow> w\<lparr>tokens := l\<rparr>
      | ReadyNext b \<Rightarrow> w\<lparr>isReady := b\<rparr>
      | NativeBalanceNext a d \<Rightarrow>
          w\<lparr>storages := (storages w)\<lparr>nativeBalance := (nativeBalance (storages w))(a := d)\<rparr>\<rparr>
      | NonNativeBalanceNext n a d \<Rightarrow>
          w\<lparr>storages := (storages w)\<lparr>nonNativeBalance :=
             (nonNativeBalance (storages w))(n := (nonNativeBalance (storages w) n)(a := d))\<rparr>\<rparr>)"

text \<open>
  \<^verbatim>\<open>firstValueFrom\<close>: the promise of the first notification, pending while there is
  none.
\<close>

definition firstValueFrom :: "'a notification list \<Rightarrow> 'a promise" where
  "firstValueFrom ns =
     (case ns of [] \<Rightarrow> Pending | Next v # _ \<Rightarrow> Fulfilled v | Error e # _ \<Rightarrow> Rejected e)"

text \<open>
  \<^verbatim>\<open>Object.entries\<close> and \<^verbatim>\<open>Object.values\<close> follow the order of \<^verbatim>\<open>Object.keys\<close>.
\<close>

definition Object_entries :: "'v object \<Rightarrow> (jsstring \<times> 'v) list" where
  "Object_entries ob =
     List.map_filter (\<lambda>k. map_option (Pair k) (getProperty ob k)) (Object_keys ob)"

definition Object_values :: "'v object \<Rightarrow> 'v list" where
  "Object_values ob = map snd (Object_entries ob)"

text \<open>
  The \<^verbatim>\<open>map\<close> of \<open>subscribeTokens\<close> (lines 152 to 160): with \<^verbatim>\<open>!type\<close>, which holds
  of \<^verbatim>\<open>undefined\<close> and of \<^verbatim>\<open>BASIC\<close>, the whole record; else the entries of that type.
\<close>

definition filterTokens :: "TokenType option \<Rightarrow> TokenRecord \<Rightarrow> TokenRecord" where
  "filterTokens ty d =
     (case ty of
        None \<Rightarrow> d
      | Some t \<Rightarrow>
          if \<not> truthyType t then d
          else Object_fromEntries (filter (\<lambda>(k, v). type v = t) (Object_entries d)))"

text \<open>
  \<open>subscribeTokens\<close> (lines 146 to 165) is
  \<^verbatim>\<open>isReady$.pipe(filter((i) => i), switchMap(() => tokens$.pipe(map(...), shareReplay(1))))\<close>.
  A \<^verbatim>\<open>BehaviorSubject\<close> gives a new subscriber its current value and then every new
  value; \<^verbatim>\<open>filter\<close> drops \<^verbatim>\<open>false\<close>; on each \<^verbatim>\<open>true\<close>, \<^verbatim>\<open>switchMap\<close> leaves the
  inner stream it had and subscribes to \<^verbatim>\<open>tokens$\<close> again, which emits its current
  value. \<open>tokensRun\<close> gives the emissions the events cause; \<open>active\<close> says whether
  there is an inner subscription.
\<close>

fun tokensRun :: "TokenType option \<Rightarrow> bool \<Rightarrow> Wallet \<Rightarrow> event list \<Rightarrow> TokenRecord list" where
  "tokensRun ty active w [] = []"
| "tokensRun ty active w (TokensNext l # es) =
     (if active then [filterTokens ty l] else []) @
     tokensRun ty active (applyEvent (TokensNext l) w) es"
| "tokensRun ty active w (ReadyNext b # es) =
     (if b then [filterTokens ty (tokens w)] else []) @
     tokensRun ty (active \<or> b) (applyEvent (ReadyNext b) w) es"
| "tokensRun ty active w (e # es) = tokensRun ty active (applyEvent e w) es"

definition subscribeTokens :: "Wallet \<Rightarrow> TokenType option \<Rightarrow> event list \<Rightarrow> TokenRecord list" where
  "subscribeTokens w ty es =
     (if isReady w then [filterTokens ty (tokens w)] else []) @ tokensRun ty (isReady w) w es"

definition getTokens :: "Wallet \<Rightarrow> TokenType option \<Rightarrow> event list \<Rightarrow> TokenRecord promise" where
  "getTokens w ty es = firstValueFrom (map Next (subscribeTokens w ty es))"

text \<open>
  The \<^verbatim>\<open>map\<close> of \<open>subscribeToken\<close> (lines 179 to 185): the first token of that name
  among the values of the record, or \<open>CurrencyNotFound\<close>.
\<close>

definition findToken :: "TokenRecord \<Rightarrow> jsstring \<Rightarrow> Token option" where
  "findToken all_tokens nm = List.find (\<lambda>item. name item = nm) (Object_values all_tokens)"

text \<open>
  The two handlers of \<open>subscribeBalance\<close> (lines 205 to 223).
\<close>

definition handleNative :: "AccountInfo \<Rightarrow> Token \<Rightarrow> BalanceData" where
  "handleNative d t =
     (let free' = fromInner (int (data_free d)) (decimals t);
          locked' = FN_max (fromInner (int (data_miscFrozen d)) (decimals t))
                           (fromInner (int (data_feeFrozen d)) (decimals t));
          reserved' = fromInner (int (data_reserved d)) (decimals t);
          available' = FN_max (FN_sub free' locked') FN_ZERO
      in \<lparr>available = available', token = t, free = free', locked = locked',
          reserved = reserved'\<rparr>)"

definition handleNonNative :: "OrmlAccountData \<Rightarrow> Token \<Rightarrow> BalanceData" where
  "handleNonNative d t =
     (let free' = fromInner (int (orml_free d)) (decimals t);
          locked' = fromInner (int (orml_frozen d)) (decimals t);
          reserved' = fromInner (int (orml_reserved d)) (decimals t);
          available' = FN_max (FN_sub free' locked') FN_ZERO
      in \<lparr>available = available', token = t, free = free', locked = locked',
          reserved = reserved'\<rparr>)"

definition isNativeToken :: "Wallet \<Rightarrow> Token \<Rightarrow> bool" where
  "isNativeToken w t = (nativeCurrency (wallet_consts w) = name t)"

definition currentBalance :: "Wallet \<Rightarrow> jsstring \<Rightarrow> Token \<Rightarrow> BalanceData" where
  "currentBalance w address t =
     (if isNativeToken w t then handleNative (nativeBalance (storages w) address) t
      else handleNonNative (nonNativeBalance (storages w) (name t) address) t)"

text \<open>
  \<open>subscribeBalance\<close> (lines 199 to 237) is
  \<^verbatim>\<open>subscribeToken(token).pipe(switchMap((token) => storage.observable.pipe(map(...))))\<close>.
  \<open>subscribeToken\<close> resolves the name at the call, which may throw, and maps every
  emission of \<open>subscribeTokens\<close> to the token of that name, or fails with
  \<open>CurrencyNotFound\<close>, which ends the stream. On each token \<^verbatim>\<open>switchMap\<close> subscribes
  to the storage stream of that token and address, which emits the current balance and
  then every change. The state of a subscription is whether \<open>subscribeTokens\<close> has an
  inner subscription, and the token whose storage stream is subscribed.
\<close>

record BalanceSubscription =
  tokensActive :: bool
  currentToken :: "Token option"

definition onTokens ::
  "Wallet \<Rightarrow> jsstring \<Rightarrow> jsstring \<Rightarrow> TokenRecord \<Rightarrow>
   BalanceData notification \<times> Token option" where
  "onTokens w nm address all_tokens =
     (case findToken all_tokens nm of
        None \<Rightarrow> (Error (CurrencyNotFound nm), None)
      | Some t \<Rightarrow> (Next (currentBalance w address t), Some t))"

fun balanceRun ::
  "jsstring \<Rightarrow> jsstring \<Rightarrow> BalanceSubscription \<Rightarrow> Wallet \<Rightarrow> event list \<Rightarrow>
   BalanceData notification list" where
  "balanceRun nm address s w [] = []"
| "balanceRun nm address s w (TokensNext l # es) =
     (let w' = applyEvent (TokensNext l) w in
        if tokensActive s then
          (case onTokens w' nm address l of
             (Error e, _) \<Rightarrow> [Error e]
           | (Next b, t) \<Rightarrow> Next b # balanceRun nm address (s\<lparr>currentToken := t\<rparr>) w' es)
        else balanceRun nm address s w' es)"
| "balanceRun nm address s w (ReadyNext r # es) =
     (let w' = applyEvent (ReadyNext r) w in
        if r then
          (case onTokens w' nm address (tokens w') of
             (Error e, _) \<Rightarrow> [Error e]
           | (Next b, t) \<Rightarrow>
               Next b # balanceRun nm address (s\<lparr>tokensActive := True, currentToken := t\<rparr>) w' es)
        else balanceRun nm address s w' es)"
| "balanceRun nm address s w (NativeBalanceNext a d # es) =
     (let w' = applyEvent (NativeBalanceNext a d) w in
        (case currentToken s of
           None \<Rightarrow> []
         | Some t \<Rightarrow> if isNativeToken w t \<and> a = address then [Next (handleNative d t)] else []) @
        balanceRun nm address s w' es)"
| "balanceRun nm address s w (NonNativeBalanceNext n a d # es) =
     (let w' = applyEvent (NonNativeBalanceNext n a d) w in
        (case currentToken s of
           None \<Rightarrow> []
         | Some t \<Rightarrow>
             if \<not> isNativeToken w t \<and> n = name t \<and> a = address
             then [Next (handleNonNative d t)] else []) @
        balanceRun nm address s w' es)"

definition subscribeBalance ::
  "Wallet \<Rightarrow> MaybeCurrency \<Rightarrow> jsstring \<Rightarrow> event list \<Rightarrow> error + BalanceData notification list" where
  "subscribeBalance w target address es =
     (case forceToCurrencyName target of
        Inl e \<Rightarrow> Inl e
      | Inr nm \<Rightarrow>
          Inr (if isReady w then
                 (case onTokens w nm address (filterTokens None (tokens w)) of
                    (Error e, _) \<Rightarrow> [Error e]
                  | (Next b, t) \<Rightarrow>
                      Next b # balanceRun nm address
                                 \<lparr>tokensActive = True, currentToken = t\<rparr> w es)
               else balanceRun nm address \<lparr>tokensActive = False, currentToken = None\<rparr> w es))"

text \<open>
  \<open>getBalance\<close> is an \<^verbatim>\<open>async\<close> method: what its body throws rejects the promise.
\<close>

definition getBalance ::
  "Wallet \<Rightarrow> MaybeCurrency \<Rightarrow> jsstring \<Rightarrow> event list \<Rightarrow> BalanceData promise" where
  "getBalance w target address es =
     (case subscribeBalance w target address es of
        Inl e \<Rightarrow> Rejected e
      | Inr ns \<Rightarrow> firstValueFrom ns)"

text \<open>
  \<open>getPresetTokens\<close> (lines 368 to 418). Each of the five steps reads
  \<^verbatim>\<open>this.api.consts?.serpTreasury.field\<close>: \<^verbatim>\<open>undefined\<close> without \<^verbatim>\<open>consts\<close>, a
  \<open>TypeError\<close> without \<^verbatim>\<open>serpTreasury\<close>; where the field is set, \<^verbatim>\<open>stableToken\<close>
  becomes \<^verbatim>\<open>tokens[name]\<close> for the field's name. The token list is an ordinary
  object, so that \<^verbatim>\<open>tokens[name]\<close> is the record's own property or, for a name such
  as \<^verbatim>\<open>toString\<close>, a member inherited from \<^verbatim>\<open>Object.prototype\<close>.
\<close>

definition presetStep ::
  "Wallet \<Rightarrow> (SerpTreasuryConsts \<Rightarrow> CurrencyId option) \<Rightarrow> PresetTokens \<Rightarrow> error + PresetTokens" where
  "presetStep w field d =
     (case api_consts (wallet_api w) of
        None \<Rightarrow> Inr d
      | Some c \<Rightarrow>
          (case serpTreasury c of
             None \<Rightarrow> Inl TypeError
           | Some st \<Rightarrow>
               (case field st of
                  None \<Rightarrow> Inr d
                | Some cid \<Rightarrow>
                    (case forceToCurrencyName (MCurrencyId cid) of
                       Inl e \<Rightarrow> Inl e
                     | Inr nm \<Rightarrow> Inr (d\<lparr>stableToken := Some (getMember (tokens w) nm)\<rparr>)))))"

definition getPresetTokens :: "Wallet \<Rightarrow> error + PresetTokens" where
  "getPresetTokens w =
     (if isReady w = False then Inl (SDKNotReady (js ''wallet''))
      else
        (case forceToCurrencyName (MString (nativeCurrency (wallet_consts w))) of
           Inl e \<Rightarrow> Inl e
         | Inr nm \<Rightarrow>
             (case presetStep w getSerpCurrencyId
                     \<lparr>nativeToken = getMember (tokens w) nm, stableToken = None\<rparr> of
                Inl e \<Rightarrow> Inl e
              | Inr d1 \<Rightarrow>
                  (case presetStep w getDinarCurrencyId d1 of
                     Inl e \<Rightarrow> Inl e
                   | Inr d2 \<Rightarrow>
                       (case presetStep w getHelpCurrencyId d2 of
                          Inl e \<Rightarrow> Inl e
                        | Inr d3 \<Rightarrow>
                            (case presetStep w setterCurrencyId d3 of
                               Inl e \<Rightarrow> Inl e
                             | Inr d4 \<Rightarrow> presetStep w getSetUSDId d4))))))"

text \<open>
  \<open>subscribePrice\<close> (lines 424 to 456). The type is
  \<^verbatim>\<open>type || this.tokenPriceFetchSource?.[getChainType(...)]?.[name] || MARKET\<close>; the
  provider is the one configured for that type, and without one the result is
  \<^verbatim>\<open>of(FN.ZERO)\<close>. The price of a dex-share name is made of the prices of its two legs.
  The recursion on the legs ends as that of \<open>getDexShareCurrencyObject\<close> does.
\<close>

definition truthyProviderType :: "PriceProviderType option \<Rightarrow> bool" where
  "truthyProviderType v = (case v of None \<Rightarrow> False | Some t \<Rightarrow> t \<noteq> MARKET)"

definition configuredType :: "Wallet \<Rightarrow> jsstring \<Rightarrow> PriceProviderType option" where
  "configuredType w nm =
     (case tokenPriceFetchSource w of
        None \<Rightarrow> None
      | Some src \<Rightarrow>
          (case src (getChainType w (runtimeChain (wallet_consts w))) of
             None \<Rightarrow> None
           | Some by_name \<Rightarrow> by_name nm))"

definition orType :: "PriceProviderType option \<Rightarrow> PriceProviderType \<Rightarrow> PriceProviderType" where
  "orType v d = (if truthyProviderType v then (case v of None \<Rightarrow> d | Some t \<Rightarrow> t) else d)"

definition resolvedType :: "Wallet \<Rightarrow> jsstring \<Rightarrow> PriceProviderType option \<Rightarrow> PriceProviderType" where
  "resolvedType w nm ty = orType ty (orType (configuredType w nm) MARKET)"

function subscribePrice ::
  "Wallet \<Rightarrow> MaybeCurrency \<Rightarrow> PriceProviderType option \<Rightarrow> error + PriceObservable" where
  "subscribePrice w target ty =
     (case forceToCurrencyName target of
        Inl e \<Rightarrow> Inl e
      | Inr nm \<Rightarrow>
          (case priceProviders w (resolvedType w nm ty) of
             None \<Rightarrow> Inr (Of FN_ZERO)
           | Some provider \<Rightarrow>
               if isDexShareName nm then
                 (case unzipDexShareName nm of
                    Inl e \<Rightarrow> Inl e
                  | Inr (token0, token1) \<Rightarrow>
                      (case subscribePrice w (MString token0) None of
                         Inl e \<Rightarrow> Inl e
                       | Inr p0 \<Rightarrow>
                           (case subscribePrice w (MString token1) None of
                              Inl e \<Rightarrow> Inl e
                            | Inr p1 \<Rightarrow> Inr (DexSharePrice p0 p1 nm))))
               else Inr (ProviderPrice provider target)))"
  by pat_completeness auto
termination
proof (relation "measure (\<lambda>(w, target, ty).
    case forceToCurrencyName target of
      Inl e \<Rightarrow> 0
    | Inr nm \<Rightarrow> if isDexShareName nm then Suc (length nm) else 0)")
  show "wf (measure (\<lambda>(w, target, ty).
    case forceToCurrencyName target of
      Inl e \<Rightarrow> 0
    | Inr nm \<Rightarrow> if isDexShareName nm then Suc (length nm) else 0))"
    by simp
next
  fix w :: Wallet and target ty nm provider x token0 token1
  assume "forceToCurrencyName target = Inr nm" "isDexShareName nm"
    "unzipDexShareName nm = Inr x" "(token0, token1) = x"
  then show "((w, MString token0, None), w, target, ty) \<in> measure (\<lambda>(w, target, ty).
    case forceToCurrencyName target of
      Inl e \<Rightarrow> 0
    | Inr nm \<Rightarrow> if isDexShareName nm then Suc (length nm) else 0)"
    using unzipDexShareName_smaller(1) [of nm token0 token1] by simp
next
  fix w :: Wallet and target ty nm provider x token0 token1
  assume "forceToCurrencyName target = Inr nm" "isDexShareName nm"
    "unzipDexShareName nm = Inr x" "(token0, token1) = x"
  then show "((w, MString token1, None), w, target, ty) \<in> measure (\<lambda>(w, target, ty).
    case forceToCurrencyName target of
      Inl e \<Rightarrow> 0
    | Inr nm \<Rightarrow> if isDexShareName nm then Suc (length nm) else 0)"
    using unzipDexShareName_smaller(2) [of nm token0 token1] by simp
qed

text \<open>
  The constructor (lines 62 to 80): the providers given override the default ones, key
  by key, also with \<^verbatim>\<open>undefined\<close>; \<^verbatim>\<open>initConsts\<close> reads the first token of the
  chain, and throws \<open>TypeError\<close> when there is none; the token list is empty and the
  wallet not ready until the subscription of \<^verbatim>\<open>initTokens\<close> pushes. The result of
  \<^verbatim>\<open>createStorages\<close> and \<^verbatim>\<open>getChainType\<close> are arguments.
\<close>

definition defaultPriceProviders :: "PriceProviderType \<Rightarrow> PriceProvider option" where
  "defaultPriceProviders t =
     (case t of MARKET \<Rightarrow> Some MarketPriceProvider | ORACLE \<Rightarrow> Some OraclePriceProvider)"

definition spreadProviders ::
  "(PriceProviderType \<Rightarrow> PriceProvider option) \<Rightarrow>
   (PriceProviderType \<Rightarrow> PriceProvider option option) option \<Rightarrow>
   PriceProviderType \<Rightarrow> PriceProvider option" where
  "spreadProviders defaults given t =
     (case given of
        None \<Rightarrow> defaults t
      | Some g \<Rightarrow> (case g t of None \<Rightarrow> defaults t | Some v \<Rightarrow> v))"

definition Wallet_constructor ::
  "AnyApi \<Rightarrow> (ChainType \<Rightarrow> (jsstring \<Rightarrow> PriceProviderType option) option) option \<Rightarrow>
   (PriceProviderType \<Rightarrow> PriceProvider option option) option \<Rightarrow>
   Storages \<Rightarrow> (jsstring \<Rightarrow> ChainType) \<Rightarrow> error + Wallet" where
  "Wallet_constructor chainApi source given createStorages chainTypeOf =
     (case element (api_chainTokens chainApi) 0 of
        None \<Rightarrow> Inl TypeError
      | Some native \<Rightarrow>
          Inr \<lparr>wallet_api = chainApi,
               priceProviders = spreadProviders defaultPriceProviders given,
               tokens = [],
               storages = createStorages,
               tokenPriceFetchSource = source,
               isReady = False,
               wallet_consts = \<lparr>runtimeChain = api_runtimeChain chainApi, nativeCurrency = native\<rparr>,
               getChainType = chainTypeOf\<rparr>)"

text \<open>
  The state of the wallet after a list of events.
\<close>

definition applyEvents :: "Wallet \<Rightarrow> event list \<Rightarrow> Wallet" where
  "applyEvents w es = foldl (\<lambda>w e. applyEvent e w) w es"

text \<open>
  Fixtures for the examples: a chain with the tokens SETM and SERP, a wallet as the
  constructor leaves it, and the same wallet once the token list has been pushed.
\<close>

definition exampleApi :: AnyApi where
  "exampleApi =
     \<lparr>createType = (\<lambda>ob. Inl CreateTypeError), api_consts = None,
      api_runtimeChain = js ''Setheum'', api_chainTokens = [js ''SETM'', js ''SERP''],
      api_chainDecimals = [18, 12]\<rparr>"

definition exampleStorages :: Storages where
  "exampleStorages =
     \<lparr>nativeBalance = (\<lambda>a. \<lparr>data_free = 5, data_reserved = 0, data_miscFrozen = 7,
                              data_feeFrozen = 3, providers = 1, consumers = 0\<rparr>),
      nonNativeBalance = (\<lambda>n a. \<lparr>orml_free = 10, orml_reserved = 0, orml_frozen = 4\<rparr>)\<rparr>"

definition exampleAccount :: AccountInfo where
  "exampleAccount =
     \<lparr>data_free = 9, data_reserved = 1, data_miscFrozen = 2, data_feeFrozen = 4,
      providers = 1, consumers = 0\<rparr>"

definition exampleWallet :: Wallet where
  "exampleWallet =
     \<lparr>wallet_api = exampleApi,
      priceProviders = spreadProviders defaultPriceProviders None,
      tokens = [],
      storages = exampleStorages,
      tokenPriceFetchSource = None,
      isReady = False,
      wallet_consts = \<lparr>runtimeChain = js ''Setheum'', nativeCurrency = js ''SETM''\<rparr>,
      getChainType = (\<lambda>c. SETHEUM)\<rparr>"

definition exampleTokens :: TokenRecord where
  "exampleTokens =
     [(js ''SETM'', Token_constructor (js ''SETM'') (Some (noConfigs\<lparr>c_decimals := Some 18\<rparr>))),
      (js ''SERP'', Token_constructor (js ''SERP'') (Some (noConfigs\<lparr>c_decimals := Some 12\<rparr>)))]"

definition exampleSETM :: Token where
  "exampleSETM = Token_constructor (js ''SETM'') (Some (noConfigs\<lparr>c_decimals := Some 18\<rparr>))"

definition readyWallet :: Wallet where
  "readyWallet = applyEvents exampleWallet [TokensNext exampleTokens, ReadyNext True]"

chapter \<open>Properties\<close>

section \<open>Properties of the URI built-ins\<close>

lemma js_slash: "js ''/'' = [0x2F]"
  by (simp add: js_def)

lemma unat_of_nat16: "n < 65536 \<Longrightarrow> unat (of_nat n :: code_unit) = n"
  by (simp add: unat_of_nat take_bit_nat_eq_self)

lemma hexValue_hexDigit: "d < 16 \<Longrightarrow> hexValue (hexDigit d) = Some d"
  by (auto simp: hexValue_def hexDigit_def unat_of_nat16 Let_def)

lemma hexDigit_not_slash: "d < 16 \<Longrightarrow> hexDigit d \<noteq> 0x2F"
proof
  assume d: "d < 16" and "hexDigit d = 0x2F"
  then have "unat (hexDigit d) = 47" by simp
  with d show False by (auto simp: hexDigit_def unat_of_nat16 split: if_splits)
qed

lemma uriUnescaped_not_slash: "uriUnescaped c \<Longrightarrow> c \<noteq> 0x2F"
  by (auto simp: uriUnescaped_def)

lemma uriUnescaped_not_percent: "uriUnescaped c \<Longrightarrow> c \<noteq> 0x25"
  by (auto simp: uriUnescaped_def)

lemma ParseHexOctet_escape:
  "b < 256 \<Longrightarrow> ParseHexOctet (hexDigit (b div 16) # hexDigit (b mod 16) # r) = Some b"
  by (simp add: ParseHexOctet_def hexValue_hexDigit)

lemma continuationOctets_escapes:
  "\<forall>b \<in> set bs. b < 256 \<Longrightarrow>
   continuationOctets (length bs) (concat (map percentEscape bs) @ r) = Some bs"
  by (induction bs) (simp_all add: percentEscape_def ParseHexOctet_escape)

lemma length_escapes: "length (concat (map percentEscape bs)) = 3 * length bs"
  by (induction bs) (simp_all add: percentEscape_def)

lemma split3: "(cp::nat) div 4096 * 4096 + cp div 64 mod 64 * 64 + cp mod 64 = cp"
proof -
  define q where "q = cp div 64"
  have "cp div 4096 = q div 64"
    unfolding q_def by (simp add: div_mult2_eq)
  moreover have "q div 64 * 4096 + q mod 64 * 64 = q * 64"
  proof -
    have "q div 64 * 4096 + q mod 64 * 64 = (q div 64 * 64 + q mod 64) * 64"
      by (simp only: add_mult_distrib mult.assoc)
    then show ?thesis by (simp only: div_mult_mod_eq)
  qed
  moreover have "q * 64 + cp mod 64 = cp"
    unfolding q_def by simp
  ultimately show ?thesis
    unfolding q_def [symmetric] by simp
qed

lemma split4:
  "(cp::nat) div 262144 * 262144 + cp div 4096 mod 64 * 4096 + cp div 64 mod 64 * 64 + cp mod 64 = cp"
proof -
  define q where "q = cp div 4096"
  have "cp div 262144 = q div 64"
    unfolding q_def by (simp add: div_mult2_eq)
  moreover have "q div 64 * 262144 + q mod 64 * 4096 = q * 4096"
  proof -
    have "q div 64 * 262144 + q mod 64 * 4096 = (q div 64 * 64 + q mod 64) * 4096"
      by (simp only: add_mult_distrib mult.assoc)
    then show ?thesis by (simp only: div_mult_mod_eq)
  qed
  moreover have "q * 4096 + cp div 64 mod 64 * 64 + cp mod 64 = cp"
    unfolding q_def using split3 [of cp] by simp
  ultimately show ?thesis
    unfolding q_def [symmetric] by simp
qed

lemma mod64_le: "(x::nat) mod 64 \<le> 63"
proof -
  have "x mod 64 < 64" by simp
  then show ?thesis by simp
qed

lemma div_bound: "(x::nat) < m * k \<Longrightarrow> x div k < m"
  by (simp add: less_mult_imp_div_less)

lemma utf8_two:
  assumes "0x80 \<le> cp" "cp < 0x800"
  shows "utf8Octets cp = [0xC0 + cp div 64, 0x80 + cp mod 64]"
    and "leadingOnes (0xC0 + cp div 64) = 2"
    and "utf8CodePoint [0xC0 + cp div 64, 0x80 + cp mod 64] = Some cp"
    and "0xC0 + cp div 64 < 256"
proof -
  have d: "cp div 64 < 32" using assms by (intro div_bound) simp
  show "utf8Octets cp = [0xC0 + cp div 64, 0x80 + cp mod 64]"
    using assms by (simp add: utf8Octets_def)
  show "leadingOnes (0xC0 + cp div 64) = 2"
    using d by (simp add: leadingOnes_def)
  show "utf8CodePoint [0xC0 + cp div 64, 0x80 + cp mod 64] = Some cp"
    using assms by (simp add: utf8CodePoint_def isContinuation_def mod64_le)
  show "0xC0 + cp div 64 < 256" using d by simp
qed

lemma utf8_three:
  assumes "0x800 \<le> cp" "cp < 0x10000" "\<not> (0xD800 \<le> cp \<and> cp \<le> 0xDFFF)"
  shows "utf8Octets cp = [0xE0 + cp div 4096, 0x80 + cp div 64 mod 64, 0x80 + cp mod 64]"
    and "leadingOnes (0xE0 + cp div 4096) = 3"
    and "utf8CodePoint [0xE0 + cp div 4096, 0x80 + cp div 64 mod 64, 0x80 + cp mod 64] = Some cp"
    and "0xE0 + cp div 4096 < 256"
proof -
  have d: "cp div 4096 < 16" using assms by (intro div_bound) simp
  show "utf8Octets cp = [0xE0 + cp div 4096, 0x80 + cp div 64 mod 64, 0x80 + cp mod 64]"
    using assms by (simp add: utf8Octets_def)
  show "leadingOnes (0xE0 + cp div 4096) = 3"
    using d by (simp add: leadingOnes_def)
  show "utf8CodePoint [0xE0 + cp div 4096, 0x80 + cp div 64 mod 64, 0x80 + cp mod 64] = Some cp"
    using assms by (simp add: utf8CodePoint_def isContinuation_def mod64_le split3)
  show "0xE0 + cp div 4096 < 256" using d by simp
qed

lemma utf8_four:
  assumes "0x10000 \<le> cp" "cp \<le> 0x10FFFF"
  shows "utf8Octets cp =
           [0xF0 + cp div 262144, 0x80 + cp div 4096 mod 64, 0x80 + cp div 64 mod 64, 0x80 + cp mod 64]"
    and "leadingOnes (0xF0 + cp div 262144) = 4"
    and "utf8CodePoint
           [0xF0 + cp div 262144, 0x80 + cp div 4096 mod 64, 0x80 + cp div 64 mod 64, 0x80 + cp mod 64]
         = Some cp"
    and "0xF0 + cp div 262144 < 256"
proof -
  have d: "cp div 262144 < 5" using assms by (intro div_bound) simp
  show "utf8Octets cp =
           [0xF0 + cp div 262144, 0x80 + cp div 4096 mod 64, 0x80 + cp div 64 mod 64, 0x80 + cp mod 64]"
    using assms by (simp add: utf8Octets_def)
  show "leadingOnes (0xF0 + cp div 262144) = 4"
    using d by (simp add: leadingOnes_def)
  show "utf8CodePoint
           [0xF0 + cp div 262144, 0x80 + cp div 4096 mod 64, 0x80 + cp div 64 mod 64, 0x80 + cp mod 64]
         = Some cp"
    using assms by (simp add: utf8CodePoint_def isContinuation_def mod64_le split4)
  show "0xF0 + cp div 262144 < 256" using d by simp
qed

lemma utf8Octets_bound:
  assumes "cp \<le> 0x10FFFF" "\<not> (0xD800 \<le> cp \<and> cp \<le> 0xDFFF)"
  shows "\<forall>b \<in> set (utf8Octets cp). b < 256"
proof -
  have m: "\<And>x::nat. 0x80 + x mod 64 < 256"
    using mod64_le by (simp add: add.commute le_imp_less_Suc trans_less_add2)
  consider "cp < 0x80" | "0x80 \<le> cp" "cp < 0x800" | "0x800 \<le> cp" "cp < 0x10000"
    | "0x10000 \<le> cp"
    by linarith
  then show ?thesis
  proof cases
    case 1
    then show ?thesis by (simp add: utf8Octets_def)
  next
    case 2
    then show ?thesis using utf8_two(1,4) [of cp] m by simp
  next
    case 3
    then show ?thesis using utf8_three(1,4) [of cp] assms m by simp
  next
    case 4
    then show ?thesis using utf8_four(1,4) [of cp] assms m by simp
  qed
qed

lemma Decode_single:
  assumes "b < 0x80"
  shows "Decode (percentEscape b @ r) =
           (case Decode r of Inl e \<Rightarrow> Inl e | Inr r' \<Rightarrow> Inr (of_nat b # r'))"
proof -
  have "b < 256" using assms by simp
  then have "ParseHexOctet (hexDigit (b div 16) # hexDigit (b mod 16) # r) = Some b"
    by (rule ParseHexOctet_escape)
  moreover have "leadingOnes b = 0" using assms by (simp add: leadingOnes_def)
  ultimately show ?thesis by (simp add: percentEscape_def)
qed

lemma Decode_multi:
  assumes b0: "b0 < 256" and bs: "\<forall>b \<in> set bs. b < 256"
    and n: "leadingOnes b0 = Suc (length bs)" and len: "bs \<noteq> []" "length bs \<le> 3"
    and cp: "utf8CodePoint (b0 # bs) = Some cp"
  shows "Decode (concat (map percentEscape (b0 # bs)) @ r) =
           (case Decode r of Inl e \<Rightarrow> Inl e | Inr r' \<Rightarrow> Inr (UTF16EncodeCodePoint cp @ r'))"
proof -
  let ?tail = "concat (map percentEscape bs) @ r"
  have p: "ParseHexOctet (hexDigit (b0 div 16) # hexDigit (b0 mod 16) # ?tail) = Some b0"
    using b0 by (rule ParseHexOctet_escape)
  have c: "continuationOctets (length bs) ?tail = Some bs"
    using bs by (rule continuationOctets_escapes)
  have l: "0 < length bs" using len by simp
  show ?thesis
    using l len(2) by (simp add: percentEscape_def p n c cp length_escapes)
qed

lemma Decode_escapeCodePoint:
  assumes "cp \<le> 0x10FFFF" "\<not> (0xD800 \<le> cp \<and> cp \<le> 0xDFFF)"
  shows "Decode (escapeCodePoint cp @ r) =
           (case Decode r of Inl e \<Rightarrow> Inl e | Inr r' \<Rightarrow> Inr (UTF16EncodeCodePoint cp @ r'))"
proof -
  have bound: "\<forall>b \<in> set (utf8Octets cp). b < 256"
    using assms by (rule utf8Octets_bound)
  consider "cp < 0x80" | "0x80 \<le> cp" "cp < 0x800" | "0x800 \<le> cp" "cp < 0x10000"
    | "0x10000 \<le> cp"
    by linarith
  then show ?thesis
  proof cases
    case 1
    then have u: "UTF16EncodeCodePoint cp = [of_nat cp]" "utf8Octets cp = [cp]"
      by (simp_all add: UTF16EncodeCodePoint_def utf8Octets_def)
    show ?thesis
      unfolding escapeCodePoint_def u using Decode_single [OF 1, of r]
      by (simp cong: sum.case_cong)
  next
    case 2
    note f = utf8_two [OF 2]
    show ?thesis
      unfolding escapeCodePoint_def f(1)
      using bound by (intro Decode_multi) (simp_all add: f)
  next
    case 3
    note f = utf8_three [OF 3 assms(2)]
    show ?thesis
      unfolding escapeCodePoint_def f(1)
      using bound by (intro Decode_multi) (simp_all add: f)
  next
    case 4
    note f = utf8_four [OF 4 assms(1)]
    show ?thesis
      unfolding escapeCodePoint_def f(1)
      using bound by (intro Decode_multi) (simp_all add: f)
  qed
qed

lemma escapeCodePoint_no_slash:
  assumes "cp \<le> 0x10FFFF" "\<not> (0xD800 \<le> cp \<and> cp \<le> 0xDFFF)"
  shows "0x2F \<notin> set (escapeCodePoint cp)"
proof -
  have "0x2F \<notin> set (percentEscape b)" if "b < 256" for b
  proof -
    have "b div 16 < 16" using that by (intro div_bound) simp
    then show ?thesis
      using hexDigit_not_slash [of "b div 16"] hexDigit_not_slash [of "b mod 16"]
      by (auto simp: percentEscape_def)
  qed
  then show ?thesis
    using utf8Octets_bound [OF assms] by (auto simp: escapeCodePoint_def)
qed

lemma escapeCodePoint_not_Nil: "escapeCodePoint cp \<noteq> []"
  by (simp add: escapeCodePoint_def utf8Octets_def percentEscape_def)

lemma UTF16_unit: "UTF16EncodeCodePoint (unat (c :: code_unit)) = [c]"
proof -
  have "unat c < 2 ^ 16" using unsigned_less [of c] by simp
  then show ?thesis by (simp add: UTF16EncodeCodePoint_def)
qed

lemma UTF16_pair:
  assumes "isLeadingSurrogate c" "isTrailingSurrogate d"
  shows "UTF16EncodeCodePoint (UTF16SurrogatePairToCodePoint c d) = [c, d]"
    and "0x10000 \<le> UTF16SurrogatePairToCodePoint c d"
    and "UTF16SurrogatePairToCodePoint c d \<le> 0x10FFFF"
proof -
  define h where "h = unat c - 0xD800"
  define l where "l = unat d - 0xDC00"
  have h: "h < 1024" "unat c = 0xD800 + h"
    using assms(1) by (auto simp: isLeadingSurrogate_def h_def)
  have l: "l < 1024" "unat d = 0xDC00 + l"
    using assms(2) by (auto simp: isTrailingSurrogate_def l_def)
  have cp: "UTF16SurrogatePairToCodePoint c d = h * 1024 + l + 0x10000"
    by (simp add: UTF16SurrogatePairToCodePoint_def h_def l_def)
  have "(h * 1024 + l) div 1024 = h" "(h * 1024 + l) mod 1024 = l"
    using l(1) by simp_all
  then have "UTF16EncodeCodePoint (h * 1024 + l + 0x10000) =
      [of_nat (unat c), of_nat (unat d)]"
    by (simp add: UTF16EncodeCodePoint_def h(2) l(2))
  then show "UTF16EncodeCodePoint (UTF16SurrogatePairToCodePoint c d) = [c, d]"
    by (simp add: cp)
  show "0x10000 \<le> UTF16SurrogatePairToCodePoint c d"
    by (simp add: cp)
  have "h * 1024 \<le> 1023 * 1024" using h(1) by simp
  then show "UTF16SurrogatePairToCodePoint c d \<le> 0x10FFFF"
    using l(1) by (simp add: cp)
qed

lemma uriUnescaped_not_surrogate:
  "uriUnescaped c \<Longrightarrow> \<not> isLeadingSurrogate c \<and> \<not> isTrailingSurrogate c"
  by (auto simp: uriUnescaped_def isLeadingSurrogate_def isTrailingSurrogate_def)

lemma unit_code_point:
  assumes "\<not> isLeadingSurrogate c" "\<not> isTrailingSurrogate c"
  shows "unat c \<le> 0x10FFFF" "\<not> (0xD800 \<le> unat c \<and> unat c \<le> 0xDFFF)"
proof -
  have "unat c < 2 ^ 16" using unsigned_less [of c] by simp
  then show "unat c \<le> 0x10FFFF" by simp
  show "\<not> (0xD800 \<le> unat c \<and> unat c \<le> 0xDFFF)"
    using assms by (auto simp: isLeadingSurrogate_def isTrailingSurrogate_def)
qed

lemma Decode_copy:
  "c \<noteq> 0x25 \<Longrightarrow>
   Decode (c # cs) = (case Decode cs of Inl e \<Rightarrow> Inl e | Inr r \<Rightarrow> Inr (c # r))"
  by simp

lemma Encode_unescaped:
  "uriUnescaped c \<Longrightarrow>
   Encode (c # cs) = (case Encode cs of Inl e \<Rightarrow> Inl e | Inr r \<Rightarrow> Inr (c # r))"
  by simp

lemma Encode_pair:
  "\<not> uriUnescaped c \<Longrightarrow> isLeadingSurrogate c \<Longrightarrow> isTrailingSurrogate d \<Longrightarrow>
   Encode (c # d # ds) =
     (case Encode ds of
        Inl e \<Rightarrow> Inl e
      | Inr r \<Rightarrow> Inr (escapeCodePoint (UTF16SurrogatePairToCodePoint c d) @ r))"
  by simp

lemma Encode_unit:
  "\<not> uriUnescaped c \<Longrightarrow> \<not> isLeadingSurrogate c \<Longrightarrow> \<not> isTrailingSurrogate c \<Longrightarrow>
   Encode (c # cs) =
     (case Encode cs of Inl e \<Rightarrow> Inl e | Inr r \<Rightarrow> Inr (escapeCodePoint (unat c) @ r))"
  by simp

lemma Encode_wellFormed:
  "isWellFormed s \<Longrightarrow>
   \<exists>e. Encode s = Inr e \<and> Decode e = Inr s \<and> 0x2F \<notin> set e \<and> (e = [] \<longleftrightarrow> s = [])"
proof (induction s rule: Encode.induct)
  case 1
  show ?case by simp
next
  case (2 c cs)
  show ?case
  proof (cases "uriUnescaped c")
    case True
    then have wf: "isWellFormed cs"
      using "2.prems" uriUnescaped_not_surrogate [of c] by simp
    from "2.IH"(1) [OF True wf] obtain e where
      e: "Encode cs = Inr e" "Decode e = Inr cs" "0x2F \<notin> set e" by blast
    have "Encode (c # cs) = Inr (c # e)"
      by (simp only: Encode_unescaped [OF True] e sum.case)
    moreover have "Decode (c # e) = Inr (c # cs)"
      by (simp only: Decode_copy [OF uriUnescaped_not_percent [OF True]] e sum.case)
    moreover have "0x2F \<notin> set (c # e)"
      using e(3) uriUnescaped_not_slash [OF True] by simp
    ultimately show ?thesis by blast
  next
    case False
    show ?thesis
    proof (cases "isLeadingSurrogate c")
      case lead: True
      then obtain d ds where cs: "cs = d # ds" and d: "isTrailingSurrogate d"
        and wf: "isWellFormed ds"
        using "2.prems" by (auto split: list.splits)
      from "2.IH"(2) [OF False lead cs d wf] obtain e where
        e: "Encode ds = Inr e" "Decode e = Inr ds" "0x2F \<notin> set e" by blast
      note p = UTF16_pair [OF lead d]
      have v: "\<not> (0xD800 \<le> UTF16SurrogatePairToCodePoint c d
                 \<and> UTF16SurrogatePairToCodePoint c d \<le> 0xDFFF)"
        using p(2) by simp
      let ?x = "escapeCodePoint (UTF16SurrogatePairToCodePoint c d)"
      have "Encode (c # cs) = Inr (?x @ e)"
        by (simp only: cs Encode_pair [OF False lead d] e sum.case)
      moreover have "Decode (?x @ e) = Inr (c # cs)"
        by (simp only: Decode_escapeCodePoint [OF p(3) v] e sum.case p(1) cs append.simps)
      moreover have "0x2F \<notin> set (?x @ e)"
        using e(3) escapeCodePoint_no_slash [OF p(3) v] by simp
      moreover have "?x @ e \<noteq> []"
        using escapeCodePoint_not_Nil by simp
      ultimately show ?thesis by blast
    next
      case nolead: False
      then have nt: "\<not> isTrailingSurrogate c" and wf: "isWellFormed cs"
        using "2.prems" by simp_all
      from "2.IH"(3) [OF False nolead nt wf] obtain e where
        e: "Encode cs = Inr e" "Decode e = Inr cs" "0x2F \<notin> set e" by blast
      note u = unit_code_point [OF nolead nt]
      let ?x = "escapeCodePoint (unat c)"
      have "Encode (c # cs) = Inr (?x @ e)"
        by (simp only: Encode_unit [OF False nolead nt] e sum.case)
      moreover have "Decode (?x @ e) = Inr (c # cs)"
        by (simp only: Decode_escapeCodePoint [OF u] e sum.case UTF16_unit append.simps)
      moreover have "0x2F \<notin> set (?x @ e)"
        using e(3) escapeCodePoint_no_slash [OF u] by simp
      moreover have "?x @ e \<noteq> []"
        using escapeCodePoint_not_Nil by simp
      ultimately show ?thesis by blast
    qed
  qed
qed

section \<open>Properties of the dex-share names\<close>

lemma js_lp: "js ''lp://'' = [0x6C, 0x70, 0x3A, 0x2F, 0x2F]"
  by (simp add: js_def)

lemma startsWith_append [simp]: "startsWith (p @ r) p"
  by (simp add: startsWith_def)

lemma startsWithD: "startsWith s p \<Longrightarrow> s = p @ drop (length p) s"
  by (metis append_take_drop_id startsWith_def)

lemma reg_exec_shape:
  assumes "0x2F \<notin> set a" "0x2F \<notin> set b"
  shows "reg_exec (js ''lp://'' @ a @ js ''/'' @ b) = Some (if a = [] then None else Some a, b)"
proof -
  have t: "takeWhile (\<lambda>c. c \<noteq> 0x2F) (a @ 0x2F # b) = a"
    using assms(1) by (simp add: takeWhile_tail) (metis takeWhile_eq_all_conv)
  have d: "dropWhile (\<lambda>c. c \<noteq> 0x2F) (a @ 0x2F # b) = 0x2F # b"
    using assms(1) by (simp add: dropWhile_append3) (metis dropWhile_eq_Nil_conv)
  show ?thesis
    using assms(2) by (simp add: reg_exec_def js_slash t d)
qed

lemma reg_exec_Some_shape:
  assumes "reg_exec s = Some g"
  shows "dexShareShape s"
proof -
  let ?P = "\<lambda>c::code_unit. c \<noteq> 0x2F"
  from assms have sw: "startsWith s (js ''lp://'')"
    by (auto simp: reg_exec_def split: if_splits)
  define r where "r = drop 5 s"
  from assms sw obtain c b where dw: "dropWhile ?P r = c # b" and b: "0x2F \<notin> set b"
    by (auto simp: reg_exec_def r_def Let_def split: list.splits if_splits)
  have "\<not> ?P (hd (dropWhile ?P r))"
    using dw hd_dropWhile [of ?P r] by simp
  then have c: "c = 0x2F" using dw by simp
  have "takeWhile ?P r @ c # b = r"
    using takeWhile_dropWhile_id [of ?P r] by (simp only: dw)
  moreover have "s = js ''lp://'' @ r"
    using startsWithD [OF sw] by (simp only: r_def length_lp)
  ultimately have "s = js ''lp://'' @ takeWhile ?P r @ js ''/'' @ b"
    by (simp add: c js_slash)
  moreover have "0x2F \<notin> set (takeWhile ?P r)"
    by (auto dest: set_takeWhileD)
  ultimately show ?thesis
    unfolding dexShareShape_def using b by blast
qed

lemma dexShareShape_code:
  "dexShareShape s \<longleftrightarrow>
     startsWith s (js ''lp://'') \<and> length (filter (\<lambda>c. c = 0x2F) (drop 5 s)) = 1"
proof
  assume "dexShareShape s"
  then obtain a b where s: "s = js ''lp://'' @ a @ js ''/'' @ b"
    and a: "0x2F \<notin> set a" and b: "0x2F \<notin> set b"
    unfolding dexShareShape_def by blast
  have "filter (\<lambda>c. c = 0x2F) a = []" "filter (\<lambda>c. c = 0x2F) b = []"
    using a b by (auto simp: filter_empty_conv)
  then show "startsWith s (js ''lp://'') \<and> length (filter (\<lambda>c. c = 0x2F) (drop 5 s)) = 1"
    by (simp add: s js_slash)
next
  let ?P = "\<lambda>c::code_unit. c \<noteq> 0x2F"
  assume h: "startsWith s (js ''lp://'') \<and> length (filter (\<lambda>c. c = 0x2F) (drop 5 s)) = 1"
  define r where "r = drop 5 s"
  have r: "r = takeWhile ?P r @ dropWhile ?P r" by simp
  have f0: "filter (\<lambda>c. c = 0x2F) (takeWhile ?P r) = []"
    by (auto simp: filter_empty_conv dest: set_takeWhileD)
  have "length (filter (\<lambda>c. c = 0x2F) r) = 1" using h by (simp add: r_def)
  then have l: "length (filter (\<lambda>c. c = 0x2F) (dropWhile ?P r)) = 1"
    using f0 by (metis append_Nil filter_append r)
  then obtain c b where dw: "dropWhile ?P r = c # b"
    by (cases "dropWhile ?P r") auto
  have "\<not> ?P (hd (dropWhile ?P r))"
    using dw hd_dropWhile [of ?P r] by simp
  then have c: "c = 0x2F" using dw by simp
  have "filter (\<lambda>c. c = 0x2F) b = []" using l by (simp add: dw c)
  then have b: "0x2F \<notin> set b" by (auto simp: filter_empty_conv)
  have "takeWhile ?P r @ c # b = r"
    using takeWhile_dropWhile_id [of ?P r] by (simp only: dw)
  moreover have "s = js ''lp://'' @ r"
    using startsWithD [of s "js ''lp://''"] h by (simp only: r_def length_lp)
  ultimately have "s = js ''lp://'' @ takeWhile ?P r @ js ''/'' @ b"
    by (simp add: c js_slash)
  moreover have "0x2F \<notin> set (takeWhile ?P r)"
    by (auto dest: set_takeWhileD)
  ultimately show "dexShareShape s"
    unfolding dexShareShape_def using b by blast
qed

text \<open>
  Claim C3. A string that does not have the shape \<^verbatim>\<open>lp://A/B\<close> with a single
  top-level separator makes \<open>unzipDexShareName\<close> throw \<open>NotDexShareName\<close> with that
  string: one that does not start with \<^verbatim>\<open>lp://\<close>, and one with a further \<^verbatim>\<open>/\<close> such as
  \<^verbatim>\<open>lp://A/B/C\<close>. No value is returned on such an input.
\<close>

theorem unzipDexShareName_rejects:
  assumes "\<not> dexShareShape s"
  shows "unzipDexShareName s = Inl (NotDexShareName s)"
proof -
  have "reg_exec s = None"
    using assms reg_exec_Some_shape by (cases "reg_exec s") auto
  then show ?thesis by (simp add: unzipDexShareName_def)
qed

theorem unzipDexShareName_rejects_witness:
  "\<not> dexShareShape (js ''lp://A/B/C'') \<and> \<not> dexShareShape (js ''SETM'') \<and>
   unzipDexShareName (js ''lp://A/B/C'') = Inl (NotDexShareName (js ''lp://A/B/C'')) \<and>
   unzipDexShareName (js ''SETM'') = Inl (NotDexShareName (js ''SETM''))"
proof -
  have a: "\<not> dexShareShape (js ''lp://A/B/C'')"
    by (simp add: dexShareShape_code js_def startsWith_def)
  have b: "\<not> dexShareShape (js ''SETM'')"
    by (simp add: dexShareShape_code js_def startsWith_def)
  show ?thesis
    using a b unzipDexShareName_rejects [OF a] unzipDexShareName_rejects [OF b] by simp
qed

text \<open>
  Claim C1, as amended. For names \<open>n0\<close> and \<open>n1\<close> in which every surrogate is half of
  a pair, and \<open>n0\<close> not empty, \<open>createDexShareName\<close> returns a name that
  \<open>unzipDexShareName\<close> decodes to the pair \<open>(n0, n1)\<close>. The names may hold \<^verbatim>\<open>/\<close>,
  \<^verbatim>\<open>%\<close> and any other reserved character, and may be dex-share names themselves.
\<close>

theorem createDexShareName_roundtrip:
  assumes "isWellFormed n0" "isWellFormed n1" "n0 \<noteq> []"
  shows "\<exists>s. createDexShareName n0 n1 = Inr s \<and> unzipDexShareName s = Inr (n0, n1)"
proof -
  from Encode_wellFormed [OF assms(1)] obtain e0 where
    e0: "Encode n0 = Inr e0" "Decode e0 = Inr n0" "0x2F \<notin> set e0" "e0 \<noteq> []"
    using assms(3) by blast
  from Encode_wellFormed [OF assms(2)] obtain e1 where
    e1: "Encode n1 = Inr e1" "Decode e1 = Inr n1" "0x2F \<notin> set e1"
    by blast
  let ?s = "js ''lp://'' @ e0 @ js ''/'' @ e1"
  have "createDexShareName n0 n1 = Inr ?s"
    by (simp add: createDexShareName_def encodeURIComponent_def e0 e1)
  moreover have "unzipDexShareName ?s = Inr (n0, n1)"
    using reg_exec_shape [OF e0(3) e1(3)] e0 e1
    by (simp add: unzipDexShareName_def isDexShareName_def decodeURIComponent_def ToString_def)
  ultimately show ?thesis by blast
qed

theorem createDexShareName_roundtrip_witness:
  "isWellFormed (js ''lp://SETM/SERP'') \<and> isWellFormed (js ''sa://0'') \<and>
   js ''lp://SETM/SERP'' \<noteq> [] \<and>
   (\<exists>s. createDexShareName (js ''lp://SETM/SERP'') (js ''sa://0'') = Inr s \<and>
        unzipDexShareName s = Inr (js ''lp://SETM/SERP'', js ''sa://0''))"
proof -
  have a: "isWellFormed (js ''lp://SETM/SERP'')" by (simp add: uri_eval)
  have b: "isWellFormed (js ''sa://0'')" by (simp add: uri_eval)
  have c: "js ''lp://SETM/SERP'' \<noteq> []" by (simp add: js_def)
  show ?thesis
    using a b c createDexShareName_roundtrip [OF a b c] by simp
qed

text \<open>
  The claim as stated, for every pair of strings, fails on a string with an unpaired
  surrogate: \<^verbatim>\<open>encodeURIComponent\<close> throws \<open>URIError\<close> and no name is made.
\<close>

theorem createDexShareName_roundtrip_counterexample:
  "\<not> (\<exists>s. createDexShareName [0xD800] (js ''SETM'') = Inr s \<and>
          unzipDexShareName s = Inr ([0xD800], js ''SETM''))"
proof -
  have "createDexShareName [0xD800] (js ''SETM'') = Inl URIError"
    by (simp add: uri_eval name_eval)
  then show ?thesis by simp
qed

lemma createDexShareName_nested:
  "createDexShareName (js ''lp://SETM/SERP'') (js ''sa://0'') =
     Inr (js ''lp://lp%3A%2F%2FSETM%2FSERP/sa%3A%2F%2F0'')"
  by (simp add: uri_eval name_eval)

lemma unzipDexShareName_nested:
  "unzipDexShareName (js ''lp://lp%3A%2F%2FSETM%2FSERP/sa%3A%2F%2F0'') =
     Inr (js ''lp://SETM/SERP'', js ''sa://0'')"
  by (simp add: uri_eval name_eval)

text \<open>
  With an empty first name the first capture is \<^verbatim>\<open>undefined\<close>, and the decoded first
  leg is the string \<^verbatim>\<open>undefined\<close>.
\<close>

lemma unzipDexShareName_empty_first_leg:
  "createDexShareName [] (js ''SETM'') = Inr (js ''lp:///SETM'') \<and>
   unzipDexShareName (js ''lp:///SETM'') = Inr (js ''undefined'', js ''SETM'')"
  by (simp add: uri_eval name_eval)

lemma Encode_surrogate_pair:
  "Encode [0xD83D, 0xDE00, 0x20AC, 0xE9] = Inr (js ''%F0%9F%98%80%E2%82%AC%C3%A9'') \<and>
   Decode (js ''%F0%9F%98%80%E2%82%AC%C3%A9'') = Inr [0xD83D, 0xDE00, 0x20AC, 0xE9]"
  by (simp add: uri_eval)

section \<open>Properties of the token constructor and of \<open>fromTokens\<close>\<close>

text \<open>
  Claim C9. The constructor sets \<open>decimals\<close> to 18 whenever \<^verbatim>\<open>configs.decimals\<close> and
  \<^verbatim>\<open>configs.decimal\<close> are both falsy; a token constructed with \<^verbatim>\<open>decimals\<close> 0 (and no
  \<^verbatim>\<open>decimal\<close>) has 18 decimals, not 0.
\<close>

theorem Token_constructor_decimals_default:
  "(\<not> truthyNum (optField configs c_decimals) \<and> \<not> truthyNum (optField configs c_decimal)
      \<longrightarrow> decimals (Token_constructor nm configs) = 18) \<and>
   decimals (Token_constructor nm (Some (c\<lparr>c_decimals := Some 0, c_decimal := None\<rparr>))) = 18"
  by (auto simp: Token_constructor_def Let_def numOr_def truthyNum_def optField_def split: option.splits)

theorem Token_constructor_decimals_default_witness:
  "\<not> truthyNum (optField (Some (noConfigs\<lparr>c_decimals := Some 0\<rparr>)) c_decimals) \<and>
   \<not> truthyNum (optField (Some (noConfigs\<lparr>c_decimals := Some 0\<rparr>)) c_decimal) \<and>
   decimals (Token_constructor (js ''SETM'') (Some (noConfigs\<lparr>c_decimals := Some 0\<rparr>))) = 18"
proof -
  have a: "\<not> truthyNum (optField (Some (noConfigs\<lparr>c_decimals := Some 0\<rparr>)) c_decimals)"
    by (simp add: truthyNum_def optField_def)
  have b: "\<not> truthyNum (optField (Some (noConfigs\<lparr>c_decimals := Some 0\<rparr>)) c_decimal)"
    by (simp add: truthyNum_def optField_def noConfigs_def)
  show ?thesis
    using a b Token_constructor_decimals_default
      [of "Some (noConfigs\<lparr>c_decimals := Some 0\<rparr>)" "js ''SETM''"]
    by blast
qed

lemma Token_constructor_decimals_nonzero: "decimals (Token_constructor nm configs) \<noteq> 0"
  by (simp add: Token_constructor_def Let_def numOr_def split: option.splits)

lemma Token_constructor_decimals_truthy:
  "optField configs c_decimals = Some n \<Longrightarrow> n \<noteq> 0 \<Longrightarrow> decimals (Token_constructor nm configs) = n"
  by (simp add: Token_constructor_def Let_def numOr_def)

lemma Array_sort_two:
  "Array_sort cmp [k1, k2] = (if cmp k1 k2 \<le> 0 then [k1, k2] else [k2, k1])"
  by (simp add: Array_sort_def)

lemma Object_keys_two:
  "Object_keys [(n1, t1), (n2, t2)] = [n1, n2] \<or> Object_keys [(n1, t1), (n2, t2)] = [n2, n1]"
  by (simp add: Object_keys_def)

lemma Token_sort_same_name:
  "name token1 = name token2 \<Longrightarrow> Token_sort cmp [token1, token2] = [token2]"
  by (simp add: Token_sort_def sortByNameMap_def Object_fromEntries_def Object_keys_def
      Array_sort_def getProperty_def List.map_filter_simps)

lemma Token_sort_two:
  assumes "name token1 \<noteq> name token2"
  shows "\<exists>a b. Token_sort cmp [token1, token2] = [a, b] \<and>
           ((a = token1 \<and> b = token2) \<or> (a = token2 \<and> b = token1)) \<and>
           (cmp (name a) (name b) \<le> 0 \<or> 0 < cmp (name b) (name a))"
proof -
  let ?ob = "[(name token1, token1), (name token2, token2)]"
  have fe: "Object_fromEntries ?ob = ?ob"
    using assms by (simp add: Object_fromEntries_def)
  have g: "getProperty ?ob (name token1) = Some token1"
       "getProperty ?ob (name token2) = Some token2"
    using assms by (simp_all add: getProperty_def)
  from Object_keys_two [of "name token1" token1 "name token2" token2]
  show ?thesis
  proof
    assume k: "Object_keys ?ob = [name token1, name token2]"
    show ?thesis
      by (cases "cmp (name token1) (name token2) \<le> 0")
         (simp_all add: Token_sort_def sortByNameMap_def fe k Array_sort_two g
            List.map_filter_simps)
  next
    assume k: "Object_keys ?ob = [name token2, name token1]"
    show ?thesis
      by (cases "cmp (name token2) (name token1) \<le> 0")
         (simp_all add: Token_sort_def sortByNameMap_def fe k Array_sort_two g
            List.map_filter_simps)
  qed
qed

lemma Encode_not_wellFormed: "\<not> isWellFormed s \<Longrightarrow> Encode s = Inl URIError"
proof (induction s rule: Encode.induct)
  case 1
  then show ?case by simp
next
  case (2 c cs)
  show ?case
  proof (cases "uriUnescaped c")
    case True
    then have "\<not> isWellFormed cs"
      using "2.prems" uriUnescaped_not_surrogate [of c] by simp
    from "2.IH"(1) [OF True this] show ?thesis
      by (simp only: Encode_unescaped [OF True] sum.case)
  next
    case False
    show ?thesis
    proof (cases "isLeadingSurrogate c")
      case lead: True
      show ?thesis
      proof (cases cs)
        case Nil
        then show ?thesis using False lead by simp
      next
        case (Cons d ds)
        show ?thesis
        proof (cases "isTrailingSurrogate d")
          case True
          then have "\<not> isWellFormed ds" using "2.prems" lead Cons by simp
          from "2.IH"(2) [OF False lead Cons True this] show ?thesis
            by (simp only: Cons Encode_pair [OF False lead True] sum.case)
        next
          case nt: False
          then show ?thesis using False lead Cons by simp
        qed
      qed
    next
      case nolead: False
      show ?thesis
      proof (cases "isTrailingSurrogate c")
        case True
        then show ?thesis using False nolead by simp
      next
        case nt: False
        then have "\<not> isWellFormed cs" using "2.prems" nolead by simp
        from "2.IH"(3) [OF False nolead nt this] show ?thesis
          by (simp only: Encode_unit [OF False nolead nt] sum.case)
      qed
    qed
  qed
qed

lemma createDexShareName_returns_iff:
  "(\<exists>n. createDexShareName a b = Inr n) \<longleftrightarrow> isWellFormed a \<and> isWellFormed b"
proof
  assume "\<exists>n. createDexShareName a b = Inr n"
  then show "isWellFormed a \<and> isWellFormed b"
    using Encode_not_wellFormed [of a] Encode_not_wellFormed [of b]
    by (auto simp: createDexShareName_def encodeURIComponent_def split: sum.splits)
next
  assume "isWellFormed a \<and> isWellFormed b"
  then obtain ea eb where "Encode a = Inr ea" "Encode b = Inr eb"
    using Encode_wellFormed [of a] Encode_wellFormed [of b] by blast
  then show "\<exists>n. createDexShareName a b = Inr n"
    by (simp add: createDexShareName_def encodeURIComponent_def)
qed

lemma createDexShareName_error:
  "createDexShareName a b = Inl e \<Longrightarrow> e = URIError"
  using Encode_not_wellFormed [of a] Encode_not_wellFormed [of b]
    Encode_wellFormed [of a] Encode_wellFormed [of b]
  by (cases "isWellFormed a"; cases "isWellFormed b")
     (auto simp: createDexShareName_def encodeURIComponent_def split: sum.splits)

lemma element_two [simp]: "element [a, b] 0 = Some a" "element [a, b] (Suc 0) = Some b"
  "element [a] 0 = Some a" "element [a] (Suc 0) = None"
  "element [a, b] 1 = Some b" "element [a] 1 = None"
  by (simp_all add: element_def)

lemma fromTokens_two:
  assumes "Token_sort cmp [token1, token2] = [a, b]"
    and "createDexShareName (name a) (name b) = Inr nm"
    and "decimals a \<noteq> 0"
  shows "\<exists>r. fromTokens cmp token1 token2 = Inr r \<and> name r = nm \<and> type r = DEX_SHARE \<and>
           decimals r = decimals a \<and> ed r = ed a \<and> symbol r = nm \<and> display r = nm \<and>
           chain r = None \<and> decimal r = decimals a"
  using assms
  by (simp add: fromTokens_def Token_constructor_def Let_def optField_def numOr_def objOr_def
      typeOr_def truthyType_def strOr_def)

text \<open>
  Claim C2, as amended. For two tokens made by the constructor, with distinct names in
  which every surrogate is half of a pair, \<open>fromTokens\<close> sorts the two with \<open>Token_sort\<close>
  and returns a token whose name is \<open>createDexShareName\<close> of the sorted names, whose
  type is \<open>DEX_SHARE\<close>, and whose decimals and existential deposit are those of the
  first sorted token. The sorted pair is the two tokens, and the first does not exceed
  the second under \<open>cmp\<close>. For SETM with 18 decimals and SERP with 12, where the
  comparator puts SETM first, the result is named \<^verbatim>\<open>lp://SETM/SERP\<close>, has 18 decimals
  and the existential deposit of SETM, in whichever order the two are passed.
\<close>

theorem fromTokens_composite:
  "(token1 = Token_constructor n1 c1 \<and> token2 = Token_constructor n2 c2 \<and> n1 \<noteq> n2 \<and>
    isWellFormed n1 \<and> isWellFormed n2 \<longrightarrow>
      (\<exists>a b nm r.
         Token_sort cmp [token1, token2] = [a, b] \<and>
         ((a = token1 \<and> b = token2) \<or> (a = token2 \<and> b = token1)) \<and>
         (cmp (name a) (name b) \<le> 0 \<or> 0 < cmp (name b) (name a)) \<and>
         createDexShareName (name a) (name b) = Inr nm \<and>
         fromTokens cmp token1 token2 = Inr r \<and>
         name r = nm \<and> type r = DEX_SHARE \<and> decimals r = decimals a \<and> ed r = ed a)) \<and>
   (cmp (js ''SETM'') (js ''SERP'') < 0 \<and> 0 < cmp (js ''SERP'') (js ''SETM'') \<longrightarrow>
      (\<exists>r. fromTokens cmp
              (Token_constructor (js ''SETM'') (Some (cs\<lparr>c_decimals := Some 18, c_ed := Some e\<rparr>)))
              (Token_constructor (js ''SERP'') (Some (cr\<lparr>c_decimals := Some 12\<rparr>))) = Inr r \<and>
           fromTokens cmp
              (Token_constructor (js ''SERP'') (Some (cr\<lparr>c_decimals := Some 12\<rparr>)))
              (Token_constructor (js ''SETM'') (Some (cs\<lparr>c_decimals := Some 18, c_ed := Some e\<rparr>))) = Inr r \<and>
           name r = js ''lp://SETM/SERP'' \<and> decimals r = 18 \<and> ed r = e \<and> type r = DEX_SHARE))"
proof (intro conjI impI)
  assume h: "token1 = Token_constructor n1 c1 \<and> token2 = Token_constructor n2 c2 \<and> n1 \<noteq> n2 \<and>
    isWellFormed n1 \<and> isWellFormed n2"
  then have nm: "name token1 = n1" "name token2 = n2"
    by (simp_all add: Token_constructor_def Let_def)
  have d: "decimals token1 \<noteq> 0" "decimals token2 \<noteq> 0"
    using h Token_constructor_decimals_nonzero by simp_all
  from h nm have "name token1 \<noteq> name token2" by simp
  from Token_sort_two [OF this, of cmp] obtain a b where
    s: "Token_sort cmp [token1, token2] = [a, b]"
    and ab: "(a = token1 \<and> b = token2) \<or> (a = token2 \<and> b = token1)"
    and o: "cmp (name a) (name b) \<le> 0 \<or> 0 < cmp (name b) (name a)"
    by blast
  from ab h nm have "isWellFormed (name a) \<and> isWellFormed (name b)" by auto
  then obtain x where x: "createDexShareName (name a) (name b) = Inr x"
    using createDexShareName_returns_iff by blast
  from ab d have "decimals a \<noteq> 0" by auto
  from fromTokens_two [OF s x this] obtain r where
    "fromTokens cmp token1 token2 = Inr r" "name r = x" "type r = DEX_SHARE"
    "decimals r = decimals a" "ed r = ed a"
    by blast
  with s ab o x show "\<exists>a b nm r.
         Token_sort cmp [token1, token2] = [a, b] \<and>
         ((a = token1 \<and> b = token2) \<or> (a = token2 \<and> b = token1)) \<and>
         (cmp (name a) (name b) \<le> 0 \<or> 0 < cmp (name b) (name a)) \<and>
         createDexShareName (name a) (name b) = Inr nm \<and>
         fromTokens cmp token1 token2 = Inr r \<and>
         name r = nm \<and> type r = DEX_SHARE \<and> decimals r = decimals a \<and> ed r = ed a"
    by blast
next
  let ?SETM = "Token_constructor (js ''SETM'') (Some (cs\<lparr>c_decimals := Some 18, c_ed := Some e\<rparr>))"
  let ?SERP = "Token_constructor (js ''SERP'') (Some (cr\<lparr>c_decimals := Some 12\<rparr>))"
  assume c: "cmp (js ''SETM'') (js ''SERP'') < 0 \<and> 0 < cmp (js ''SERP'') (js ''SETM'')"
  have nm: "name ?SETM = js ''SETM''" "name ?SERP = js ''SERP''"
    by (simp_all add: Token_constructor_def Let_def)
  have ne: "js ''SETM'' \<noteq> js ''SERP''" by (simp add: js_def)
  have k: "Object_keys [(js ''SETM'', ?SETM), (js ''SERP'', ?SERP)] = [js ''SETM'', js ''SERP'']"
          "Object_keys [(js ''SERP'', ?SERP), (js ''SETM'', ?SETM)] = [js ''SERP'', js ''SETM'']"
    by (simp_all add: Object_keys_def isArrayIndex_def isDigit_def js_def)
  have s1: "Token_sort cmp [?SETM, ?SERP] = [?SETM, ?SERP]"
    using c ne
    by (simp add: Token_sort_def sortByNameMap_def Object_fromEntries_def nm k Array_sort_two
        getProperty_def List.map_filter_simps)
  have s2: "Token_sort cmp [?SERP, ?SETM] = [?SETM, ?SERP]"
    using c ne
    by (simp add: Token_sort_def sortByNameMap_def Object_fromEntries_def nm k Array_sort_two
        getProperty_def List.map_filter_simps)
  have x: "createDexShareName (name ?SETM) (name ?SERP) = Inr (js ''lp://SETM/SERP'')"
    unfolding nm by (simp add: uri_eval name_eval)
  have d: "decimals ?SETM \<noteq> 0" by (rule Token_constructor_decimals_nonzero)
  have v: "decimals ?SETM = 18" "ed ?SETM = e"
    by (simp_all add: Token_constructor_def Let_def optField_def numOr_def objOr_def)
  have same: "fromTokens cmp ?SERP ?SETM = fromTokens cmp ?SETM ?SERP"
    by (simp only: fromTokens_def s1 s2)
  from fromTokens_two [OF s1 x d] obtain r where
    "fromTokens cmp ?SETM ?SERP = Inr r" "name r = js ''lp://SETM/SERP''" "type r = DEX_SHARE"
    "decimals r = decimals ?SETM" "ed r = ed ?SETM"
    by blast
  then show "\<exists>r. fromTokens cmp ?SETM ?SERP = Inr r \<and> fromTokens cmp ?SERP ?SETM = Inr r \<and>
           name r = js ''lp://SETM/SERP'' \<and> decimals r = 18 \<and> ed r = e \<and> type r = DEX_SHARE"
    by (simp only: same v) blast
qed

lemma rankCmp_SETM_SERP:
  "rankCmp [js ''SETM'', js ''SERP''] (js ''SETM'') (js ''SERP'') < 0"
  "0 < rankCmp [js ''SETM'', js ''SERP''] (js ''SERP'') (js ''SETM'')"
  by (simp_all add: rankCmp_def rank_def js_def)

theorem fromTokens_composite_witness:
  "rankCmp [js ''SETM'', js ''SERP''] (js ''SETM'') (js ''SERP'') < 0 \<and>
   0 < rankCmp [js ''SETM'', js ''SERP''] (js ''SERP'') (js ''SETM'') \<and>
   (\<exists>r. fromTokens (rankCmp [js ''SETM'', js ''SERP''])
          (Token_constructor (js ''SETM'')
             (Some (noConfigs\<lparr>c_decimals := Some 18,
                               c_ed := Some \<lparr>inner = 100000000, precision = 18\<rparr>\<rparr>)))
          (Token_constructor (js ''SERP'') (Some (noConfigs\<lparr>c_decimals := Some 12\<rparr>))) = Inr r \<and>
        name r = js ''lp://SETM/SERP'' \<and> decimals r = 18 \<and>
        ed r = \<lparr>inner = 100000000, precision = 18\<rparr> \<and> type r = DEX_SHARE)"
  using rankCmp_SETM_SERP
    fromTokens_composite [where cmp = "rankCmp [js ''SETM'', js ''SERP'']" and cs = noConfigs
      and cr = noConfigs and e = "\<lparr>inner = 100000000, precision = 18\<rparr>"]
  by blast

text \<open>
  The claim as stated, for every two tokens, fails on two tokens of the same name:
  \<open>Token_sort\<close> keeps one of them, and reading the name of the second sorted element
  throws \<open>TypeError\<close>.
\<close>

theorem fromTokens_composite_counterexample:
  "fromTokens (rankCmp [js ''SETM'', js ''SERP''])
     (Token_constructor (js ''SETM'') (Some (noConfigs\<lparr>c_decimals := Some 18\<rparr>)))
     (Token_constructor (js ''SETM'') (Some (noConfigs\<lparr>c_decimals := Some 12\<rparr>)))
   = Inl TypeError"
proof -
  have "name (Token_constructor (js ''SETM'') (Some (noConfigs\<lparr>c_decimals := Some 18\<rparr>))) =
        name (Token_constructor (js ''SETM'') (Some (noConfigs\<lparr>c_decimals := Some 12\<rparr>)))"
    by (simp add: Token_constructor_def Let_def)
  from Token_sort_same_name [OF this] show ?thesis
    by (simp only: fromTokens_def Let_def element_two option.case)
qed

text \<open>
  Claim C10, as amended. For two tokens of the same name \<open>Token_sort\<close> returns the
  single token passed second, and \<open>fromTokens\<close> throws \<open>TypeError\<close>. For two tokens
  with distinct names in which every surrogate is half of a pair, \<open>fromTokens\<close> returns
  a token of type \<open>DEX_SHARE\<close>.
\<close>

theorem fromTokens_partial:
  "(name token1 = name token2 \<longrightarrow>
      Token_sort cmp [token1, token2] = [token2] \<and>
      fromTokens cmp token1 token2 = Inl TypeError) \<and>
   (name token1 \<noteq> name token2 \<and> isWellFormed (name token1) \<and> isWellFormed (name token2) \<longrightarrow>
      (\<exists>r. fromTokens cmp token1 token2 = Inr r \<and> type r = DEX_SHARE))"
proof (intro conjI impI)
  assume e: "name token1 = name token2"
  show "Token_sort cmp [token1, token2] = [token2]"
    using e by (rule Token_sort_same_name)
  then show "fromTokens cmp token1 token2 = Inl TypeError"
    by (simp only: fromTokens_def Let_def element_two option.case)
next
  assume h: "name token1 \<noteq> name token2 \<and> isWellFormed (name token1) \<and> isWellFormed (name token2)"
  then have "name token1 \<noteq> name token2" by simp
  from Token_sort_two [OF this, of cmp] obtain a b where
    s: "Token_sort cmp [token1, token2] = [a, b]"
    and ab: "(a = token1 \<and> b = token2) \<or> (a = token2 \<and> b = token1)"
    by blast
  from ab h have "isWellFormed (name a) \<and> isWellFormed (name b)" by auto
  then obtain x where x: "createDexShareName (name a) (name b) = Inr x"
    using createDexShareName_returns_iff by blast
  show "\<exists>r. fromTokens cmp token1 token2 = Inr r \<and> type r = DEX_SHARE"
    by (simp add: fromTokens_def s x Token_constructor_def Let_def optField_def typeOr_def
        truthyType_def)
qed

theorem fromTokens_partial_witness:
  "name (Token_constructor (js ''SETM'') None) = name (Token_constructor (js ''SETM'') (Some noConfigs)) \<and>
   fromTokens (rankCmp []) (Token_constructor (js ''SETM'') None)
     (Token_constructor (js ''SETM'') (Some noConfigs)) = Inl TypeError \<and>
   name (Token_constructor (js ''SETM'') None) \<noteq> name (Token_constructor (js ''SERP'') None) \<and>
   isWellFormed (name (Token_constructor (js ''SETM'') None)) \<and>
   isWellFormed (name (Token_constructor (js ''SERP'') None)) \<and>
   (\<exists>r. fromTokens (rankCmp []) (Token_constructor (js ''SETM'') None)
          (Token_constructor (js ''SERP'') None) = Inr r \<and> type r = DEX_SHARE)"
proof -
  have a: "name (Token_constructor (js ''SETM'') None) =
           name (Token_constructor (js ''SETM'') (Some noConfigs))"
    by (simp add: Token_constructor_def Let_def)
  have b: "name (Token_constructor (js ''SETM'') None) \<noteq> name (Token_constructor (js ''SERP'') None)"
    by (simp add: Token_constructor_def Let_def js_def)
  have c: "isWellFormed (name (Token_constructor (js ''SETM'') None))"
          "isWellFormed (name (Token_constructor (js ''SERP'') None))"
    by (simp_all add: Token_constructor_def Let_def uri_eval)
  show ?thesis
    using a b c
      fromTokens_partial [of "Token_constructor (js ''SETM'') None"
         "Token_constructor (js ''SETM'') (Some noConfigs)" "rankCmp []"]
      fromTokens_partial [of "Token_constructor (js ''SETM'') None"
         "Token_constructor (js ''SERP'') None" "rankCmp []"]
    by blast
qed

text \<open>
  Distinct names alone do not make \<open>fromTokens\<close> return: a name with an unpaired
  surrogate makes \<open>createDexShareName\<close> throw \<open>URIError\<close>.
\<close>

theorem fromTokens_partial_counterexample:
  "name (Token_constructor [0xD800] None) \<noteq> name (Token_constructor (js ''SETM'') None) \<and>
   fromTokens (rankCmp []) (Token_constructor [0xD800] None) (Token_constructor (js ''SETM'') None)
     = Inl URIError"
proof -
  let ?a = "Token_constructor [0xD800] None"
  let ?b = "Token_constructor (js ''SETM'') None"
  have nm: "name ?a = [0xD800]" "name ?b = js ''SETM''"
    by (simp_all add: Token_constructor_def Let_def)
  have ne: "name ?a \<noteq> name ?b" unfolding nm by (simp add: js_def)
  from Token_sort_two [OF ne, of "rankCmp []"] obtain x y where
    s: "Token_sort (rankCmp []) [?a, ?b] = [x, y]"
    and xy: "(x = ?a \<and> y = ?b) \<or> (x = ?b \<and> y = ?a)"
    by blast
  have "\<not> isWellFormed [0xD800]" by (simp add: uri_eval)
  then have "\<not> (isWellFormed (name x) \<and> isWellFormed (name y))"
    using xy nm by auto
  then have "createDexShareName (name x) (name y) = Inl URIError"
    using createDexShareName_returns_iff [of "name x" "name y"] createDexShareName_error
    by (cases "createDexShareName (name x) (name y)") auto
  then have "fromTokens (rankCmp []) ?a ?b = Inl URIError"
    by (simp only: fromTokens_def s Let_def element_two option.case sum.case)
  with ne show ?thesis by blast
qed

section \<open>Properties of the sorting functions\<close>

lemma mset_insertCmp: "mset (insertCmp cmp x xs) = add_mset x (mset xs)"
  by (induction xs) simp_all

lemma mset_Array_sort: "mset (Array_sort cmp xs) = mset xs"
  by (induction xs) (simp_all add: Array_sort_def mset_insertCmp)

lemma set_insertCmp: "set (insertCmp cmp x xs) = insert x (set xs)"
  by (induction xs) auto

lemma sorted_insertCmp:
  assumes tot: "\<And>a b. \<not> cmp a b \<le> 0 \<Longrightarrow> cmp b a \<le> 0"
    and trans: "\<And>a b c. cmp a b \<le> 0 \<Longrightarrow> cmp b c \<le> 0 \<Longrightarrow> cmp a c \<le> 0"
  shows "sorted_wrt (\<lambda>a b. cmp a b \<le> 0) xs \<Longrightarrow>
         sorted_wrt (\<lambda>a b. cmp a b \<le> 0) (insertCmp cmp x xs)"
proof (induction xs)
  case Nil
  show ?case by simp
next
  case (Cons y ys)
  show ?case
  proof (cases "cmp x y \<le> 0")
    case True
    then have "\<forall>z \<in> set ys. cmp x z \<le> 0"
      using Cons.prems trans by auto
    then show ?thesis using True Cons.prems by simp
  next
    case False
    then have "cmp y x \<le> 0" by (rule tot)
    then show ?thesis
      using False Cons by (simp add: set_insertCmp)
  qed
qed

lemma totalOrderCmp_total: "totalOrderCmp cmp \<Longrightarrow> \<not> cmp a b \<le> 0 \<Longrightarrow> cmp b a \<le> 0"
  unfolding totalOrderCmp_def by (metis less_le not_le)

lemma totalOrderCmp_trans:
  "totalOrderCmp cmp \<Longrightarrow> cmp a b \<le> 0 \<Longrightarrow> cmp b c \<le> 0 \<Longrightarrow> cmp a c \<le> 0"
  unfolding totalOrderCmp_def by blast

lemma totalOrderCmp_antisym:
  assumes "totalOrderCmp cmp" "cmp a b \<le> 0" "cmp b a \<le> 0"
  shows "a = b"
proof -
  have "\<not> cmp a b < 0"
    using assms unfolding totalOrderCmp_def by (metis not_le)
  then have "cmp a b = 0" using assms(2) by simp
  then show ?thesis using assms(1) unfolding totalOrderCmp_def by blast
qed

lemma sorted_Array_sort:
  assumes "totalOrderCmp cmp"
  shows "sorted_wrt (\<lambda>a b. cmp a b \<le> 0) (Array_sort cmp xs)"
proof (induction xs)
  case Nil
  show ?case by (simp add: Array_sort_def)
next
  case (Cons x xs)
  have "sorted_wrt (\<lambda>a b. cmp a b \<le> 0) (insertCmp cmp x (Array_sort cmp xs))"
    using Cons totalOrderCmp_total [OF assms] totalOrderCmp_trans [OF assms]
    by (intro sorted_insertCmp) blast+
  then show ?case by (simp add: Array_sort_def)
qed

lemma Array_sort_sorted:
  "sorted_wrt (\<lambda>a b. cmp a b \<le> 0) xs \<Longrightarrow> Array_sort cmp xs = xs"
proof (induction xs)
  case Nil
  show ?case by (simp add: Array_sort_def)
next
  case (Cons x xs)
  then have "Array_sort cmp xs = xs" by simp
  then have "Array_sort cmp (x # xs) = insertCmp cmp x xs"
    by (simp add: Array_sort_def)
  also have "\<dots> = x # xs"
    using Cons.prems by (cases xs) simp_all
  finally show ?case .
qed

lemma sorted_unique:
  assumes anti: "\<And>a b. cmp a b \<le> 0 \<Longrightarrow> cmp b a \<le> 0 \<Longrightarrow> a = b"
  shows "sorted_wrt (\<lambda>a b. cmp a b \<le> 0) xs \<Longrightarrow> sorted_wrt (\<lambda>a b. cmp a b \<le> 0) ys \<Longrightarrow>
         mset xs = mset ys \<Longrightarrow> xs = ys"
proof (induction xs arbitrary: ys)
  case Nil
  then show ?case by simp
next
  case (Cons x xs)
  then obtain y ys' where ys: "ys = y # ys'"
    by (cases ys) auto
  have "x \<in> set ys" using Cons.prems(3) by (metis list.set_intros(1) mset_eq_setD)
  then have yx: "x = y \<or> cmp y x \<le> 0" using Cons.prems(2) ys by auto
  have "y \<in> set (x # xs)" using Cons.prems(3) ys by (metis list.set_intros(1) mset_eq_setD)
  then have xy: "x = y \<or> cmp x y \<le> 0" using Cons.prems(1) by auto
  from xy yx anti have e: "x = y" by blast
  then have "mset xs = mset ys'" using Cons.prems(3) ys by simp
  moreover have "sorted_wrt (\<lambda>a b. cmp a b \<le> 0) xs" "sorted_wrt (\<lambda>a b. cmp a b \<le> 0) ys'"
    using Cons.prems ys by simp_all
  ultimately have "xs = ys'" using Cons.IH by blast
  with e ys show ?case by simp
qed

lemma Array_sort_permutation:
  assumes "totalOrderCmp cmp" "mset xs = mset ys"
  shows "Array_sort cmp xs = Array_sort cmp ys"
proof -
  have "mset (Array_sort cmp xs) = mset (Array_sort cmp ys)"
    using assms(2) by (simp add: mset_Array_sort)
  then show ?thesis
    using sorted_Array_sort [OF assms(1)] totalOrderCmp_antisym [OF assms(1)]
    by (intro sorted_unique [where cmp = cmp]) blast+
qed

lemma defineProperty_fresh:
  "k \<notin> fst ` set ob \<Longrightarrow> defineProperty ob k v = ob @ [(k, v)]"
  by (induction ob) auto

lemma foldl_defineProperty_distinct:
  "distinct (map fst (ob @ es)) \<Longrightarrow>
   foldl (\<lambda>ob (k, v). defineProperty ob k v) ob es = ob @ es"
proof (induction es arbitrary: ob)
  case Nil
  show ?case by simp
next
  case (Cons e es)
  obtain k v where e: "e = (k, v)" by (cases e)
  have "k \<notin> fst ` set ob" using Cons.prems e by auto
  then have d: "defineProperty ob k v = ob @ [(k, v)]" by (rule defineProperty_fresh)
  have "distinct (map fst ((ob @ [(k, v)]) @ es))" using Cons.prems e by simp
  from Cons.IH [OF this] show ?case by (simp add: e d)
qed

lemma Object_fromEntries_distinct:
  "distinct (map fst es) \<Longrightarrow> Object_fromEntries es = es"
  using foldl_defineProperty_distinct [of "[]" es] by (simp add: Object_fromEntries_def)

lemma mset_Object_keys: "mset (Object_keys ob) = mset (map fst ob)"
  by (simp add: Object_keys_def Let_def)

lemma map_filter_lookup:
  "\<forall>k \<in> set ks. \<exists>v. getProperty ob k = Some v \<and> f v = k \<Longrightarrow>
   map f (List.map_filter (getProperty ob) ks) = ks"
  by (induction ks) (auto simp: List.map_filter_simps)

lemma codeUnitCmp_zero: "codeUnitCmp a b = 0 \<longleftrightarrow> a = b"
  by (induction a b rule: codeUnitCmp.induct) auto

lemma codeUnitCmp_flip: "codeUnitCmp a b < 0 \<longleftrightarrow> 0 < codeUnitCmp b a"
  by (induction a b rule: codeUnitCmp.induct) auto

lemma codeUnitCmp_trans:
  "codeUnitCmp a b \<le> 0 \<Longrightarrow> codeUnitCmp b c \<le> 0 \<Longrightarrow> codeUnitCmp a c \<le> 0"
proof (induction a arbitrary: b c)
  case Nil
  show ?case by (cases c) simp_all
next
  case (Cons x as)
  from Cons.prems(1) obtain y bs where b: "b = y # bs" by (cases b) auto
  from Cons.prems(2) b obtain z cs where c: "c = z # cs" by (cases c) auto
  from Cons.prems(1) b have 1: "x < y \<or> (x = y \<and> codeUnitCmp as bs \<le> 0)"
    by (auto split: if_splits)
  from Cons.prems(2) b c have 2: "y < z \<or> (y = z \<and> codeUnitCmp bs cs \<le> 0)"
    by (auto split: if_splits)
  from 1 2 Cons.IH [of bs cs] have "x < z \<or> (x = z \<and> codeUnitCmp as cs \<le> 0)"
    by auto
  then show ?case by (auto simp: c)
qed

lemma totalOrderCmp_codeUnitCmp: "totalOrderCmp codeUnitCmp"
  unfolding totalOrderCmp_def
  using codeUnitCmp_zero codeUnitCmp_flip codeUnitCmp_trans by blast

lemma currencyNames_zip:
  "currencyNames cs = Inr ns \<Longrightarrow> (k, c) \<in> set (zip ns cs) \<Longrightarrow> forceToCurrencyName c = Inr k"
proof (induction cs arbitrary: ns)
  case Nil
  then show ?case by simp
next
  case (Cons x xs)
  then show ?case
    by (auto split: sum.splits)
qed

lemma currencyNames_length: "currencyNames cs = Inr ns \<Longrightarrow> length ns = length cs"
  by (induction cs arbitrary: ns) (auto split: sum.splits)

lemma currencyNames_lookup:
  "\<forall>k \<in> set ks. \<exists>c. getProperty ob k = Some c \<and> forceToCurrencyName c = Inr k \<Longrightarrow>
   currencyNames (List.map_filter (getProperty ob) ks) = Inr ks"
  by (induction ks) (auto simp: List.map_filter_simps)

lemma getProperty_key:
  "k \<in> set (map fst ob) \<Longrightarrow> \<exists>v. getProperty ob k = Some v \<and> (k, v) \<in> set ob"
  by (induction ob) (auto simp: getProperty_def)

lemma set_Array_sort: "set (Array_sort cmp xs) = set xs"
  using mset_Array_sort [of cmp xs] by (rule mset_eq_setD)

text \<open>
  Claim C5. Where the comparator is a total order over names, sorting is consistent
  across the three representations: \<open>sortTokenNames\<close> is idempotent; for tokens with
  pairwise distinct names, the names of \<open>Token_sort\<close>'s result are \<open>sortTokenNames\<close>
  of the tokens' names; and for currencies whose names \<open>forceToCurrencyName\<close> resolves
  to pairwise distinct names, \<open>sortCurrencies\<close> returns currencies whose names are
  \<open>sortTokenNames\<close> of those names.
\<close>

theorem sorting_consistent:
  "totalOrderCmp cmp \<longrightarrow>
     sortTokenNames cmp (sortTokenNames cmp names) = sortTokenNames cmp names \<and>
     (distinct (map name toks) \<longrightarrow>
        map name (Token_sort cmp toks) = sortTokenNames cmp (map name toks)) \<and>
     (currencyNames currencies = Inr names \<and> distinct names \<longrightarrow>
        (\<exists>sorted. sortCurrencies cmp currencies = Inr sorted \<and>
                  currencyNames sorted = Inr (sortTokenNames cmp names)))"
proof (intro impI conjI)
  assume t: "totalOrderCmp cmp"
  show "sortTokenNames cmp (sortTokenNames cmp names) = sortTokenNames cmp names"
    unfolding sortTokenNames_def
    using sorted_Array_sort [OF t, of names] by (rule Array_sort_sorted)
next
  assume t: "totalOrderCmp cmp" and d: "distinct (map name toks)"
  let ?ob = "map (\<lambda>item. (name item, item)) toks"
  have fst: "map fst ?ob = map name toks" by (simp add: comp_def)
  have fe: "Object_fromEntries ?ob = ?ob"
    using d by (intro Object_fromEntries_distinct) (simp only: fst)
  have ks: "Array_sort cmp (Object_keys ?ob) = Array_sort cmp (map name toks)"
    using t by (intro Array_sort_permutation) (simp_all only: mset_Object_keys fst)
  have "\<exists>v. getProperty ?ob k = Some v \<and> name v = k"
    if "k \<in> set (Array_sort cmp (map name toks))" for k
  proof -
    from that have "k \<in> set (map fst ?ob)"
      by (simp only: fst set_Array_sort)
    from getProperty_key [OF this] obtain v where
      v: "getProperty ?ob k = Some v" "(k, v) \<in> set ?ob" by blast
    from v(2) have "name v = k" by auto
    with v(1) show ?thesis by blast
  qed
  then have "map name (List.map_filter (getProperty ?ob) (Array_sort cmp (map name toks)))
      = Array_sort cmp (map name toks)"
    by (intro map_filter_lookup) blast
  then show "map name (Token_sort cmp toks) = sortTokenNames cmp (map name toks)"
    by (simp add: Token_sort_def sortByNameMap_def fe ks sortTokenNames_def)
next
  assume t: "totalOrderCmp cmp" and h: "currencyNames currencies = Inr names \<and> distinct names"
  let ?ob = "zip names currencies"
  have len: "length names = length currencies"
    using h currencyNames_length by blast
  then have fst: "map fst ?ob = names" by simp
  have fe: "Object_fromEntries ?ob = ?ob"
    using h by (intro Object_fromEntries_distinct) (simp only: fst)
  have ks: "Array_sort cmp (Object_keys ?ob) = Array_sort cmp names"
    using t by (intro Array_sort_permutation) (simp_all add: mset_Object_keys fst)
  have "\<exists>c. getProperty ?ob k = Some c \<and> forceToCurrencyName c = Inr k"
    if "k \<in> set (Array_sort cmp names)" for k
  proof -
    from that have "k \<in> set (map fst ?ob)"
      by (simp only: fst set_Array_sort)
    from getProperty_key [OF this] obtain c where
      c: "getProperty ?ob k = Some c" "(k, c) \<in> set ?ob" by blast
    have "currencyNames currencies = Inr names" using h by simp
    from currencyNames_zip [OF this c(2)] c(1) show ?thesis by blast
  qed
  then have "currencyNames (List.map_filter (getProperty ?ob) (Array_sort cmp names))
      = Inr (Array_sort cmp names)"
    by (intro currencyNames_lookup) blast
  then show "\<exists>sorted. sortCurrencies cmp currencies = Inr sorted \<and>
                  currencyNames sorted = Inr (sortTokenNames cmp names)"
    using h by (simp add: sortCurrencies_def sortByNameMap_def fe ks sortTokenNames_def)
qed

theorem sorting_consistent_witness:
  "totalOrderCmp codeUnitCmp \<and>
   distinct (map name [Token_constructor (js ''SETM'') None, Token_constructor (js ''SERP'') None,
                       Token_constructor (js ''lp://SETM/SERP'') None]) \<and>
   currencyNames [MString (js ''SETM''), MCurrencyId (IdToken (js ''SERP'')),
                  MArray (js ''SETM'') (js ''SERP'')]
     = Inr [js ''SETM'', js ''SERP'', js ''lp://SETM/SERP''] \<and>
   distinct [js ''SETM'', js ''SERP'', js ''lp://SETM/SERP''] \<and>
   sortTokenNames codeUnitCmp
     (sortTokenNames codeUnitCmp [js ''SETM'', js ''SERP'', js ''lp://SETM/SERP''])
     = sortTokenNames codeUnitCmp [js ''SETM'', js ''SERP'', js ''lp://SETM/SERP''] \<and>
   map name (Token_sort codeUnitCmp
               [Token_constructor (js ''SETM'') None, Token_constructor (js ''SERP'') None,
                Token_constructor (js ''lp://SETM/SERP'') None])
     = sortTokenNames codeUnitCmp
         (map name [Token_constructor (js ''SETM'') None, Token_constructor (js ''SERP'') None,
                    Token_constructor (js ''lp://SETM/SERP'') None]) \<and>
   (\<exists>sorted.
      sortCurrencies codeUnitCmp
        [MString (js ''SETM''), MCurrencyId (IdToken (js ''SERP'')),
         MArray (js ''SETM'') (js ''SERP'')] = Inr sorted \<and>
      currencyNames sorted
        = Inr (sortTokenNames codeUnitCmp [js ''SETM'', js ''SERP'', js ''lp://SETM/SERP'']))"
proof -
  let ?ts = "[Token_constructor (js ''SETM'') None, Token_constructor (js ''SERP'') None,
              Token_constructor (js ''lp://SETM/SERP'') None]"
  let ?cs = "[MString (js ''SETM''), MCurrencyId (IdToken (js ''SERP'')),
              MArray (js ''SETM'') (js ''SERP'')]"
  let ?ns = "[js ''SETM'', js ''SERP'', js ''lp://SETM/SERP'']"
  have d1: "distinct (map name ?ts)"
    by (simp add: Token_constructor_def Let_def js_def)
  have c: "currencyNames ?cs = Inr ?ns"
    by (simp add: name_eval uri_eval)
  have d2: "distinct ?ns"
    by (simp add: js_def)
  show ?thesis
    using totalOrderCmp_codeUnitCmp d1 c d2
      sorting_consistent [of codeUnitCmp ?ns ?ts ?cs]
    by blast
qed

lemma sortTokenNames_example:
  "sortTokenNames codeUnitCmp [js ''SETM'', js ''SERP'', js ''lp://SETM/SERP'']
     = [js ''SERP'', js ''SETM'', js ''lp://SETM/SERP'']"
  by (simp add: sortTokenNames_def Array_sort_def js_def)

section \<open>Properties of \<open>forceToCurrencyName\<close> and \<open>forceToCurrencyId\<close>\<close>

lemma forceToCurrencyName_error:
  "forceToCurrencyName target = Inl e \<Longrightarrow> e = ConvertToCurrencyNameFailed target"
  by (cases target rule: forceToCurrencyName.cases) (auto split: sum.splits)

text \<open>
  Claim C4 holds of \<open>forceToCurrencyName\<close> (the lemma above) and fails of
  \<open>forceToCurrencyId\<close>: on the string \<^verbatim>\<open>lp://SETM\<close>, which \<open>getCurrencyObject\<close>
  rejects, the error carries the global \<^verbatim>\<open>origin\<close> and not the target, and where the
  global is unbound the error is \<open>ReferenceError\<close>.
\<close>

theorem forceToCurrencyId_loses_target:
  "forceToCurrencyId (Some v) api (MString (js ''lp://SETM'')) =
     Inl (ConvertToCurrencyIdFailed (MString v)) \<and>
   forceToCurrencyId None api (MString (js ''lp://SETM'')) = Inl ReferenceError \<and>
   forceToCurrencyId (Some (js ''https://apps.setheum.network'')) api (MString (js ''lp://SETM''))
     \<noteq> Inl (ConvertToCurrencyIdFailed (MString (js ''lp://SETM'')))"
  by (simp add: forceToCurrencyId_def getCurrencyObject_def name_eval uri_eval)

lemma forceToCurrencyId_error:
  "forceToCurrencyId origin api target = Inl e \<Longrightarrow>
   e = (case origin of None \<Rightarrow> ReferenceError | Some v \<Rightarrow> ConvertToCurrencyIdFailed (MString v))"
  by (auto simp: forceToCurrencyId_def split: sum.splits option.splits)

section \<open>Properties of the wallet\<close>

subsection \<open>Prices\<close>

lemma subscribePrice_unfold:
  "forceToCurrencyName target = Inr nm \<Longrightarrow> priceProviders w (resolvedType w nm ty) = None \<Longrightarrow>
   subscribePrice w target ty = Inr (Of FN_ZERO)"
  by (subst subscribePrice.simps) simp

text \<open>
  Claim C8, as amended. Where \<open>forceToCurrencyName\<close> resolves the name of the token
  and no price provider is configured for the resolved type, \<open>subscribePrice\<close>
  returns the stream of the one value \<open>FN_ZERO\<close> and throws nothing.
\<close>

theorem subscribePrice_no_provider:
  "forceToCurrencyName target = Inr nm \<and> priceProviders w (resolvedType w nm ty) = None \<longrightarrow>
     subscribePrice w target ty = Inr (Of FN_ZERO)"
  using subscribePrice_unfold by blast

lemma applyEvents_Cons [simp]:
  "applyEvents w [] = w" "applyEvents w (e # es) = applyEvents (applyEvent e w) es"
  by (simp_all add: applyEvents_def)

lemma readyWallet_eq:
  "readyWallet = exampleWallet\<lparr>tokens := exampleTokens, isReady := True\<rparr>"
  by (simp add: readyWallet_def applyEvent_def)

theorem subscribePrice_no_provider_witness:
  "forceToCurrencyName (MString (js ''SETM'')) = Inr (js ''SETM'') \<and>
   priceProviders (readyWallet\<lparr>priceProviders := (\<lambda>t. None)\<rparr>)
     (resolvedType (readyWallet\<lparr>priceProviders := (\<lambda>t. None)\<rparr>) (js ''SETM'') None) = None \<and>
   subscribePrice (readyWallet\<lparr>priceProviders := (\<lambda>t. None)\<rparr>) (MString (js ''SETM'')) None
     = Inr (Of FN_ZERO)"
proof -
  have a: "forceToCurrencyName (MString (js ''SETM'')) = Inr (js ''SETM'')" by simp
  have b: "priceProviders (readyWallet\<lparr>priceProviders := (\<lambda>t. None)\<rparr>)
     (resolvedType (readyWallet\<lparr>priceProviders := (\<lambda>t. None)\<rparr>) (js ''SETM'') None) = None"
    by simp
  show ?thesis
    using a b
      subscribePrice_no_provider [of "MString (js ''SETM'')" "js ''SETM''"
        "readyWallet\<lparr>priceProviders := (\<lambda>t. None)\<rparr>" None]
    by blast
qed

text \<open>
  The claim as stated, for every token, fails on a pair with an unpaired surrogate:
  the type asked for is \<open>ORACLE\<close>, whatever the name, and no provider is configured,
  but the name is resolved first and \<open>subscribePrice\<close> throws
  \<open>ConvertToCurrencyNameFailed\<close>.
\<close>

theorem subscribePrice_no_provider_counterexample:
  "resolvedType (readyWallet\<lparr>priceProviders := (\<lambda>t. None)\<rparr>) (js ''SETM'') (Some ORACLE) = ORACLE \<and>
   priceProviders (readyWallet\<lparr>priceProviders := (\<lambda>t. None)\<rparr>) ORACLE = None \<and>
   subscribePrice (readyWallet\<lparr>priceProviders := (\<lambda>t. None)\<rparr>)
     (MArray [0xD800] (js ''SETM'')) (Some ORACLE)
     = Inl (ConvertToCurrencyNameFailed (MArray [0xD800] (js ''SETM'')))"
proof -
  have "forceToCurrencyName (MArray [0xD800] (js ''SETM'')) =
      Inl (ConvertToCurrencyNameFailed (MArray [0xD800] (js ''SETM'')))"
    by (simp add: uri_eval name_eval)
  then have "subscribePrice (readyWallet\<lparr>priceProviders := (\<lambda>t. None)\<rparr>)
     (MArray [0xD800] (js ''SETM'')) (Some ORACLE)
     = Inl (ConvertToCurrencyNameFailed (MArray [0xD800] (js ''SETM'')))"
    by (subst subscribePrice.simps) simp
  then show ?thesis
    by (simp add: resolvedType_def orType_def truthyProviderType_def)
qed

lemma resolvedType_given: "resolvedType w nm (Some ORACLE) = ORACLE"
  by (simp add: resolvedType_def orType_def truthyProviderType_def)

lemma subscribePrice_example:
  "subscribePrice readyWallet (MString (js ''lp://SETM/SERP'')) None =
     Inr (DexSharePrice (ProviderPrice MarketPriceProvider (MString (js ''SETM'')))
                        (ProviderPrice MarketPriceProvider (MString (js ''SERP'')))
                        (js ''lp://SETM/SERP''))"
  by (simp add: readyWallet_eq exampleWallet_def resolvedType_def orType_def configuredType_def
      truthyProviderType_def spreadProviders_def defaultPriceProviders_def name_eval uri_eval)

subsection \<open>Balances\<close>

lemma alignTo_value:
  assumes "precision a \<le> p"
  shows "real_of_int (alignTo p a) / 10 ^ p = FN_value a"
proof -
  have "(10::real) ^ p = 10 ^ (p - precision a) * 10 ^ precision a"
    using assms by (simp flip: power_add)
  then show ?thesis
    by (simp add: alignTo_def FN_value_def)
qed

lemma FN_value_sub: "FN_value (FN_sub a b) = FN_value a - FN_value b"
proof -
  let ?p = "max (precision a) (precision b)"
  have "FN_value (FN_sub a b) = real_of_int (alignTo ?p a) / 10 ^ ?p - real_of_int (alignTo ?p b) / 10 ^ ?p"
    by (simp add: FN_sub_def FN_value_def Let_def diff_divide_distrib)
  then show ?thesis by (simp add: alignTo_value)
qed

lemma FN_value_max: "FN_value (FN_max a b) = max (FN_value a) (FN_value b)"
proof -
  let ?p = "max (precision a) (precision b)"
  have pos: "(0::real) < 10 ^ ?p" by simp
  have "FN_value (FN_max a b) = real_of_int (max (alignTo ?p a) (alignTo ?p b)) / 10 ^ ?p"
    by (simp add: FN_max_def FN_value_def Let_def)
  also have "\<dots> = max (real_of_int (alignTo ?p a) / 10 ^ ?p) (real_of_int (alignTo ?p b) / 10 ^ ?p)"
  proof (cases "alignTo ?p a \<le> alignTo ?p b")
    case True
    then have "real_of_int (alignTo ?p a) / 10 ^ ?p \<le> real_of_int (alignTo ?p b) / 10 ^ ?p"
      using pos by (simp add: divide_right_mono)
    with True show ?thesis by (simp add: max_def)
  next
    case False
    then have "real_of_int (alignTo ?p b) / 10 ^ ?p \<le> real_of_int (alignTo ?p a) / 10 ^ ?p"
      using pos by (simp add: divide_right_mono)
    with False show ?thesis by (simp add: max_def)
  qed
  finally show ?thesis by (simp add: alignTo_value)
qed

lemma FN_value_ZERO: "FN_value FN_ZERO = 0"
  by (simp add: FN_value_def FN_ZERO_def)

lemma FN_max_ZERO_inner: "0 \<le> inner (FN_max a FN_ZERO)"
  by (simp add: FN_max_def FN_ZERO_def alignTo_def Let_def)

lemma handleNative_snapshot:
  "available (handleNative d t) =
     FN_max (FN_sub (free (handleNative d t)) (locked (handleNative d t))) FN_ZERO"
  "locked (handleNative d t) =
     FN_max (fromInner (int (data_miscFrozen d)) (decimals t))
            (fromInner (int (data_feeFrozen d)) (decimals t))"
  by (simp_all add: handleNative_def Let_def)

lemma handleNonNative_snapshot:
  "available (handleNonNative d t) =
     FN_max (FN_sub (free (handleNonNative d t)) (locked (handleNonNative d t))) FN_ZERO"
  by (simp add: handleNonNative_def Let_def)

lemma currentBalance_snapshot:
  "available (currentBalance w address t) =
     FN_max (FN_sub (free (currentBalance w address t)) (locked (currentBalance w address t))) FN_ZERO"
  by (simp add: currentBalance_def handleNative_snapshot handleNonNative_snapshot)

lemma onTokens_snapshot:
  "onTokens w nm address l = (Next b, t) \<Longrightarrow>
   available b = FN_max (FN_sub (free b) (locked b)) FN_ZERO"
  using currentBalance_snapshot by (auto simp: onTokens_def split: option.splits)

lemma balanceRun_snapshot:
  "Next b \<in> set (balanceRun nm address s w es) \<Longrightarrow>
   available b = FN_max (FN_sub (free b) (locked b)) FN_ZERO"
proof (induction es arbitrary: s w)
  case Nil
  then show ?case by simp
next
  case (Cons e es)
  show ?case
  proof (cases e)
    case (TokensNext l)
    let ?w = "applyEvent (TokensNext l) w"
    show ?thesis
    proof (cases "tokensActive s")
      case True
      obtain n t where o: "onTokens ?w nm address l = (n, t)" by force
      show ?thesis
      proof (cases n)
        case (Next x)
        with Cons.prems TokensNext True o have
          "b = x \<or> Next b \<in> set (balanceRun nm address (s\<lparr>currentToken := t\<rparr>) ?w es)"
          by (simp add: Let_def)
        then show ?thesis
          using onTokens_snapshot [of ?w nm address l x t] o Next Cons.IH by blast
      next
        case (Error x)
        with Cons.prems TokensNext True o show ?thesis by (simp add: Let_def)
      qed
    next
      case False
      with Cons.prems TokensNext have "Next b \<in> set (balanceRun nm address s ?w es)"
        by (simp add: Let_def)
      then show ?thesis by (rule Cons.IH)
    qed
  next
    case (ReadyNext r)
    let ?w = "applyEvent (ReadyNext r) w"
    show ?thesis
    proof (cases r)
      case True
      obtain n t where o: "onTokens ?w nm address (tokens ?w) = (n, t)" by force
      show ?thesis
      proof (cases n)
        case (Next x)
        with Cons.prems ReadyNext True o have
          "b = x \<or> Next b \<in> set (balanceRun nm address
                                   (s\<lparr>tokensActive := True, currentToken := t\<rparr>) ?w es)"
          by (simp add: Let_def)
        then show ?thesis
          using onTokens_snapshot [of ?w nm address "tokens ?w" x t] o Next Cons.IH by blast
      next
        case (Error x)
        with Cons.prems ReadyNext True o show ?thesis by (simp add: Let_def)
      qed
    next
      case False
      with Cons.prems ReadyNext have "Next b \<in> set (balanceRun nm address s ?w es)"
        by (simp add: Let_def)
      then show ?thesis by (rule Cons.IH)
    qed
  next
    case (NativeBalanceNext a d)
    let ?w = "applyEvent (NativeBalanceNext a d) w"
    from Cons.prems NativeBalanceNext have
      "(\<exists>t. b = handleNative d t) \<or> Next b \<in> set (balanceRun nm address s ?w es)"
      by (auto simp: Let_def split: option.splits if_splits)
    then show ?thesis
      using handleNative_snapshot(1) Cons.IH by blast
  next
    case (NonNativeBalanceNext n a d)
    let ?w = "applyEvent (NonNativeBalanceNext n a d) w"
    from Cons.prems NonNativeBalanceNext have
      "(\<exists>t. b = handleNonNative d t) \<or> Next b \<in> set (balanceRun nm address s ?w es)"
      by (auto simp: Let_def split: option.splits if_splits)
    then show ?thesis
      using handleNonNative_snapshot Cons.IH by blast
  qed
qed

lemma subscribeBalance_snapshot:
  assumes "subscribeBalance w target address es = Inr ns" "Next b \<in> set ns"
  shows "available b = FN_max (FN_sub (free b) (locked b)) FN_ZERO"
proof -
  from assms(1) obtain nm where nm: "forceToCurrencyName target = Inr nm"
    by (auto simp: subscribeBalance_def split: sum.splits)
  show ?thesis
  proof (cases "isReady w")
    case True
    obtain n t where o: "onTokens w nm address (filterTokens None (tokens w)) = (n, t)" by force
    show ?thesis
    proof (cases n)
      case (Next x)
      with assms nm True o have
        "b = x \<or> Next b \<in> set (balanceRun nm address \<lparr>tokensActive = True, currentToken = t\<rparr> w es)"
        by (auto simp: subscribeBalance_def)
      then show ?thesis
        using onTokens_snapshot [of w nm address "filterTokens None (tokens w)" x t] o Next
          balanceRun_snapshot by blast
    next
      case (Error x)
      with assms nm True o show ?thesis by (auto simp: subscribeBalance_def)
    qed
  next
    case False
    with assms nm have
      "Next b \<in> set (balanceRun nm address \<lparr>tokensActive = False, currentToken = None\<rparr> w es)"
      by (auto simp: subscribeBalance_def)
    then show ?thesis by (rule balanceRun_snapshot)
  qed
qed

lemma wallet_consts_applyEvent [simp]: "wallet_consts (applyEvent e w) = wallet_consts w"
  by (cases e) (simp_all add: applyEvent_def)

lemma wallet_consts_applyEvents [simp]: "wallet_consts (applyEvents w es) = wallet_consts w"
  by (induction es arbitrary: w) simp_all

lemma isNativeToken_applyEvent [simp]: "isNativeToken (applyEvent e w) t = isNativeToken w t"
  by (simp add: isNativeToken_def)

lemma token_currentBalance [simp]: "token (currentBalance w address t) = t"
  by (simp add: currentBalance_def handleNative_def handleNonNative_def Let_def)

lemma token_handleNative [simp]: "token (handleNative d t) = t"
  by (simp add: handleNative_def Let_def)

lemma token_handleNonNative [simp]: "token (handleNonNative d t) = t"
  by (simp add: handleNonNative_def Let_def)

lemma findToken_name: "findToken l nm = Some t \<Longrightarrow> name t = nm"
  by (auto simp: findToken_def find_Some_iff)

lemma onTokens_Next:
  "onTokens w nm address l = (Next b, t) \<Longrightarrow>
   b = currentBalance w address (token b) \<and> name (token b) = nm \<and> t = Some (token b)"
  by (auto simp: onTokens_def findToken_name split: option.splits)

lemma currentBalance_native_event:
  "isNativeToken w t \<Longrightarrow>
   currentBalance (applyEvent (NativeBalanceNext address d) w) address t = handleNative d t"
  by (simp add: currentBalance_def) (simp add: applyEvent_def)

lemma currentBalance_nonNative_event:
  "\<not> isNativeToken w t \<Longrightarrow>
   currentBalance (applyEvent (NonNativeBalanceNext (name t) address d) w) address t =
     handleNonNative d t"
  by (simp add: currentBalance_def) (simp add: applyEvent_def)

lemma source_step:
  "\<exists>k\<le>length es. b = currentBalance (applyEvents (applyEvent e w) (take k es)) address (token b) \<Longrightarrow>
   \<exists>k\<le>length (e # es). b = currentBalance (applyEvents w (take k (e # es))) address (token b)"
proof -
  assume "\<exists>k\<le>length es. b = currentBalance (applyEvents (applyEvent e w) (take k es)) address (token b)"
  then obtain k where k: "k \<le> length es"
    "b = currentBalance (applyEvents (applyEvent e w) (take k es)) address (token b)" by blast
  then have "Suc k \<le> length (e # es)"
    "b = currentBalance (applyEvents w (take (Suc k) (e # es))) address (token b)" by simp_all
  then show ?thesis by blast
qed

lemma source_now:
  "b = currentBalance (applyEvent e w) address (token b) \<Longrightarrow>
   \<exists>k\<le>length (e # es). b = currentBalance (applyEvents w (take k (e # es))) address (token b)"
proof -
  assume a: "b = currentBalance (applyEvent e w) address (token b)"
  have "Suc 0 \<le> length (e # es)" by simp
  moreover from a have "b = currentBalance (applyEvents w (take (Suc 0) (e # es))) address (token b)"
    by simp
  ultimately show ?thesis by blast
qed

lemma balanceRun_source:
  "Next b \<in> set (balanceRun nm address s w es) \<Longrightarrow>
   \<forall>t. currentToken s = Some t \<longrightarrow> name t = nm \<Longrightarrow>
   name (token b) = nm \<and>
   (\<exists>k\<le>length es. b = currentBalance (applyEvents w (take k es)) address (token b))"
proof (induction es arbitrary: s w)
  case Nil
  then show ?case by simp
next
  case (Cons e es)
  note inv = Cons.prems(2)
  show ?case
  proof (cases e)
    case (TokensNext l)
    let ?w = "applyEvent (TokensNext l) w"
    show ?thesis
    proof (cases "tokensActive s")
      case True
      obtain n t where o: "onTokens ?w nm address l = (n, t)" by force
      show ?thesis
      proof (cases n)
        case (Next x)
        with Cons.prems(1) TokensNext True o have
          d: "b = x \<or> Next b \<in> set (balanceRun nm address (s\<lparr>currentToken := t\<rparr>) ?w es)"
          by (simp add: Let_def)
        from onTokens_Next [of ?w nm address l x t] o Next have
          x: "x = currentBalance ?w address (token x)" "name (token x) = nm" "t = Some (token x)"
          by simp_all
        from d show ?thesis
        proof
          assume "b = x"
          with x show ?thesis
            using source_now [of b "TokensNext l" w address es] TokensNext by simp
        next
          assume r: "Next b \<in> set (balanceRun nm address (s\<lparr>currentToken := t\<rparr>) ?w es)"
          have "\<forall>t'. currentToken (s\<lparr>currentToken := t\<rparr>) = Some t' \<longrightarrow> name t' = nm"
            using x by simp
          from Cons.IH [OF r this] show ?thesis
            using source_step [of es b "TokensNext l" w address] TokensNext by simp
        qed
      next
        case (Error x)
        with Cons.prems(1) TokensNext True o show ?thesis by (simp add: Let_def)
      qed
    next
      case False
      with Cons.prems(1) TokensNext have "Next b \<in> set (balanceRun nm address s ?w es)"
        by (simp add: Let_def)
      from Cons.IH [OF this inv] show ?thesis
        using source_step [of es b "TokensNext l" w address] TokensNext by simp
    qed
  next
    case (ReadyNext r)
    let ?w = "applyEvent (ReadyNext r) w"
    show ?thesis
    proof (cases r)
      case True
      obtain n t where o: "onTokens ?w nm address (tokens ?w) = (n, t)" by force
      show ?thesis
      proof (cases n)
        case (Next x)
        with Cons.prems(1) ReadyNext True o have
          d: "b = x \<or> Next b \<in> set (balanceRun nm address
                                   (s\<lparr>tokensActive := True, currentToken := t\<rparr>) ?w es)"
          by (simp add: Let_def)
        from onTokens_Next [of ?w nm address "tokens ?w" x t] o Next have
          x: "x = currentBalance ?w address (token x)" "name (token x) = nm" "t = Some (token x)"
          by simp_all
        from d show ?thesis
        proof
          assume "b = x"
          with x show ?thesis
            using source_now [of b "ReadyNext r" w address es] ReadyNext by simp
        next
          assume r': "Next b \<in> set (balanceRun nm address
                                   (s\<lparr>tokensActive := True, currentToken := t\<rparr>) ?w es)"
          have "\<forall>t'. currentToken (s\<lparr>tokensActive := True, currentToken := t\<rparr>) = Some t'
                  \<longrightarrow> name t' = nm"
            using x by simp
          from Cons.IH [OF r' this] show ?thesis
            using source_step [of es b "ReadyNext r" w address] ReadyNext by simp
        qed
      next
        case (Error x)
        with Cons.prems(1) ReadyNext True o show ?thesis by (simp add: Let_def)
      qed
    next
      case False
      with Cons.prems(1) ReadyNext have "Next b \<in> set (balanceRun nm address s ?w es)"
        by (simp add: Let_def)
      from Cons.IH [OF this inv] show ?thesis
        using source_step [of es b "ReadyNext r" w address] ReadyNext by simp
    qed
  next
    case (NativeBalanceNext a d)
    let ?w = "applyEvent (NativeBalanceNext a d) w"
    from Cons.prems(1) NativeBalanceNext have
      "(\<exists>t. currentToken s = Some t \<and> isNativeToken w t \<and> a = address \<and> b = handleNative d t)
       \<or> Next b \<in> set (balanceRun nm address s ?w es)"
      by (cases "currentToken s") (auto simp: Let_def split: if_splits)
    then show ?thesis
    proof
      assume "\<exists>t. currentToken s = Some t \<and> isNativeToken w t \<and> a = address \<and> b = handleNative d t"
      then obtain t where t: "currentToken s = Some t" "isNativeToken w t" "a = address"
        "b = handleNative d t" by blast
      then have "b = currentBalance ?w address (token b)"
        using currentBalance_native_event [of w t address d] by simp
      moreover have "name (token b) = nm" using t inv by simp
      ultimately show ?thesis
        using source_now [of b "NativeBalanceNext a d" w address es] NativeBalanceNext by simp
    next
      assume "Next b \<in> set (balanceRun nm address s ?w es)"
      from Cons.IH [OF this inv] show ?thesis
        using source_step [of es b "NativeBalanceNext a d" w address] NativeBalanceNext by simp
    qed
  next
    case (NonNativeBalanceNext n a d)
    let ?w = "applyEvent (NonNativeBalanceNext n a d) w"
    from Cons.prems(1) NonNativeBalanceNext have
      "(\<exists>t. currentToken s = Some t \<and> \<not> isNativeToken w t \<and> n = name t \<and> a = address \<and>
            b = handleNonNative d t)
       \<or> Next b \<in> set (balanceRun nm address s ?w es)"
      by (cases "currentToken s") (auto simp: Let_def split: if_splits)
    then show ?thesis
    proof
      assume "\<exists>t. currentToken s = Some t \<and> \<not> isNativeToken w t \<and> n = name t \<and> a = address \<and>
            b = handleNonNative d t"
      then obtain t where t: "currentToken s = Some t" "\<not> isNativeToken w t" "n = name t"
        "a = address" "b = handleNonNative d t" by blast
      then have "b = currentBalance ?w address (token b)"
        using currentBalance_nonNative_event [of w t address d] by simp
      moreover have "name (token b) = nm" using t inv by simp
      ultimately show ?thesis
        using source_now [of b "NonNativeBalanceNext n a d" w address es] NonNativeBalanceNext
        by simp
    next
      assume "Next b \<in> set (balanceRun nm address s ?w es)"
      from Cons.IH [OF this inv] show ?thesis
        using source_step [of es b "NonNativeBalanceNext n a d" w address] NonNativeBalanceNext
        by simp
    qed
  qed
qed

lemma subscribeBalance_source:
  assumes "subscribeBalance w target address es = Inr ns" "Next b \<in> set ns"
  shows "forceToCurrencyName target = Inr (name (token b)) \<and>
    (\<exists>k\<le>length es. b = currentBalance (applyEvents w (take k es)) address (token b))"
proof -
  from assms(1) obtain nm where nm: "forceToCurrencyName target = Inr nm"
    by (auto simp: subscribeBalance_def split: sum.splits)
  have "name (token b) = nm \<and>
    (\<exists>k\<le>length es. b = currentBalance (applyEvents w (take k es)) address (token b))"
  proof (cases "isReady w")
    case True
    obtain n t where o: "onTokens w nm address (filterTokens None (tokens w)) = (n, t)" by force
    show ?thesis
    proof (cases n)
      case (Next x)
      with assms nm True o have
        d: "b = x \<or> Next b \<in> set (balanceRun nm address \<lparr>tokensActive = True, currentToken = t\<rparr> w es)"
        by (auto simp: subscribeBalance_def)
      from onTokens_Next [of w nm address "filterTokens None (tokens w)" x t] o Next have
        x: "x = currentBalance w address (token x)" "name (token x) = nm" "t = Some (token x)"
        by simp_all
      from d show ?thesis
      proof
        assume "b = x"
        with x have "b = currentBalance (applyEvents w (take 0 es)) address (token b)" by simp
        then have "\<exists>k\<le>length es. b = currentBalance (applyEvents w (take k es)) address (token b)"
          by blast
        with \<open>b = x\<close> x show ?thesis by simp
      next
        assume r: "Next b \<in> set (balanceRun nm address \<lparr>tokensActive = True, currentToken = t\<rparr> w es)"
        have "\<forall>t'. currentToken \<lparr>tokensActive = True, currentToken = t\<rparr> = Some t' \<longrightarrow> name t' = nm"
          using x by simp
        from balanceRun_source [OF r this] show ?thesis .
      qed
    next
      case (Error x)
      with assms nm True o show ?thesis by (auto simp: subscribeBalance_def)
    qed
  next
    case False
    with assms nm have
      r: "Next b \<in> set (balanceRun nm address \<lparr>tokensActive = False, currentToken = None\<rparr> w es)"
      by (auto simp: subscribeBalance_def)
    have "\<forall>t'. currentToken \<lparr>tokensActive = False, currentToken = None\<rparr> = Some t' \<longrightarrow> name t' = nm"
      by simp
    from balanceRun_source [OF r this] show ?thesis .
  qed
  with nm show ?thesis by simp
qed

lemma FN_value_fromInner: "FN_value (fromInner i p) = real_of_int i / 10 ^ p"
  by (simp add: FN_value_def fromInner_def)

lemma max_divide_pos: "(0::real) < c \<Longrightarrow> max (a / c) (b / c) = max a b / c"
  by (simp add: max_def divide_right_mono divide_le_cancel)

lemma FN_value_locked_native:
  "FN_value (FN_max (fromInner (int m) p) (fromInner (int f) p)) = max (real m) (real f) / 10 ^ p"
proof -
  have "FN_value (FN_max (fromInner (int m) p) (fromInner (int f) p)) =
      max (real m / 10 ^ p) (real f / 10 ^ p)"
    by (simp add: FN_value_max FN_value_fromInner)
  also have "\<dots> = max (real m) (real f) / 10 ^ p"
    by (rule max_divide_pos) simp
  finally show ?thesis .
qed

lemma currentBalance_fields:
  "nativeCurrency (wallet_consts w) = name t \<Longrightarrow>
   free (currentBalance w address t) =
     fromInner (int (data_free (nativeBalance (storages w) address))) (decimals t) \<and>
   locked (currentBalance w address t) =
     FN_max (fromInner (int (data_miscFrozen (nativeBalance (storages w) address))) (decimals t))
            (fromInner (int (data_feeFrozen (nativeBalance (storages w) address))) (decimals t))"
  "nativeCurrency (wallet_consts w) \<noteq> name t \<Longrightarrow>
   free (currentBalance w address t) =
     fromInner (int (orml_free (nonNativeBalance (storages w) (name t) address))) (decimals t) \<and>
   locked (currentBalance w address t) =
     fromInner (int (orml_frozen (nonNativeBalance (storages w) (name t) address))) (decimals t)"
  by (simp_all add: currentBalance_def isNativeToken_def handleNative_def handleNonNative_def
      Let_def)

text \<open>
  Claim C7. Every snapshot that \<open>subscribeBalance\<close> emits, whatever the events, has
  \<open>available = max (free - locked) 0\<close> for its own \<open>free\<close> and \<open>locked\<close>, as
  fixed-point numbers and as the numbers they denote; it is never negative. Each
  snapshot is computed from the account data that the chain's storage holds after some
  of the events: on the native path, where the token is the native currency, \<open>free\<close>
  is the free balance and \<open>locked\<close> is the maximum of \<^verbatim>\<open>miscFrozen\<close> and
  \<^verbatim>\<open>feeFrozen\<close>; on the other path \<open>free\<close> and \<open>locked\<close> are the free and the
  frozen balance of the token's account data.
\<close>

theorem subscribeBalance_available:
  "subscribeBalance w target address es = Inr ns \<and> Next b \<in> set ns \<longrightarrow>
     available b = FN_max (FN_sub (free b) (locked b)) FN_ZERO \<and>
     FN_value (available b) = max (FN_value (free b) - FN_value (locked b)) 0 \<and>
     0 \<le> FN_value (available b) \<and>
     (\<exists>k\<le>length es.
        let chain = storages (applyEvents w (take k es)); t = token b in
          if nativeCurrency (wallet_consts w) = name t
          then let d = nativeBalance chain address in
                 free b = fromInner (int (data_free d)) (decimals t) \<and>
                 locked b = FN_max (fromInner (int (data_miscFrozen d)) (decimals t))
                                   (fromInner (int (data_feeFrozen d)) (decimals t)) \<and>
                 FN_value (locked b) =
                   max (real (data_miscFrozen d)) (real (data_feeFrozen d)) / 10 ^ decimals t
          else let d = nonNativeBalance chain (name t) address in
                 free b = fromInner (int (orml_free d)) (decimals t) \<and>
                 locked b = fromInner (int (orml_frozen d)) (decimals t))"
proof
  assume h: "subscribeBalance w target address es = Inr ns \<and> Next b \<in> set ns"
  then have a: "available b = FN_max (FN_sub (free b) (locked b)) FN_ZERO"
    using subscribeBalance_snapshot by blast
  then have v: "FN_value (available b) = max (FN_value (free b) - FN_value (locked b)) 0"
    by (simp add: FN_value_max FN_value_sub FN_value_ZERO)
  from h obtain k where k: "k \<le> length es"
    and b: "b = currentBalance (applyEvents w (take k es)) address (token b)"
    using subscribeBalance_source [of w target address es ns b] by blast
  let ?w = "applyEvents w (take k es)"
  have f: "free b = free (currentBalance ?w address (token b))"
    and l: "locked b = locked (currentBalance ?w address (token b))"
    using b by simp_all
  have "let chain = storages ?w; t = token b in
          if nativeCurrency (wallet_consts w) = name t
          then let d = nativeBalance chain address in
                 free b = fromInner (int (data_free d)) (decimals t) \<and>
                 locked b = FN_max (fromInner (int (data_miscFrozen d)) (decimals t))
                                   (fromInner (int (data_feeFrozen d)) (decimals t)) \<and>
                 FN_value (locked b) =
                   max (real (data_miscFrozen d)) (real (data_feeFrozen d)) / 10 ^ decimals t
          else let d = nonNativeBalance chain (name t) address in
                 free b = fromInner (int (orml_free d)) (decimals t) \<and>
                 locked b = fromInner (int (orml_frozen d)) (decimals t)"
  proof (cases "nativeCurrency (wallet_consts w) = name (token b)")
    case True
    then have "nativeCurrency (wallet_consts ?w) = name (token b)" by simp
    from currentBalance_fields(1) [OF this, of address] f l True show ?thesis
      by (simp add: Let_def FN_value_locked_native)
  next
    case False
    then have "nativeCurrency (wallet_consts ?w) \<noteq> name (token b)" by simp
    from currentBalance_fields(2) [OF this, of address] f l False show ?thesis
      by (simp add: Let_def)
  qed
  with k have "\<exists>k\<le>length es.
        let chain = storages (applyEvents w (take k es)); t = token b in
          if nativeCurrency (wallet_consts w) = name t
          then let d = nativeBalance chain address in
                 free b = fromInner (int (data_free d)) (decimals t) \<and>
                 locked b = FN_max (fromInner (int (data_miscFrozen d)) (decimals t))
                                   (fromInner (int (data_feeFrozen d)) (decimals t)) \<and>
                 FN_value (locked b) =
                   max (real (data_miscFrozen d)) (real (data_feeFrozen d)) / 10 ^ decimals t
          else let d = nonNativeBalance chain (name t) address in
                 free b = fromInner (int (orml_free d)) (decimals t) \<and>
                 locked b = fromInner (int (orml_frozen d)) (decimals t)"
    by blast
  with a v show "available b = FN_max (FN_sub (free b) (locked b)) FN_ZERO \<and>
     FN_value (available b) = max (FN_value (free b) - FN_value (locked b)) 0 \<and>
     0 \<le> FN_value (available b) \<and>
     (\<exists>k\<le>length es.
        let chain = storages (applyEvents w (take k es)); t = token b in
          if nativeCurrency (wallet_consts w) = name t
          then let d = nativeBalance chain address in
                 free b = fromInner (int (data_free d)) (decimals t) \<and>
                 locked b = FN_max (fromInner (int (data_miscFrozen d)) (decimals t))
                                   (fromInner (int (data_feeFrozen d)) (decimals t)) \<and>
                 FN_value (locked b) =
                   max (real (data_miscFrozen d)) (real (data_feeFrozen d)) / 10 ^ decimals t
          else let d = nonNativeBalance chain (name t) address in
                 free b = fromInner (int (orml_free d)) (decimals t) \<and>
                 locked b = fromInner (int (orml_frozen d)) (decimals t))"
    by simp
qed

lemmas object_eval =
  Object_values_def Object_entries_def Object_keys_def getProperty_def isArrayIndex_def
  isDigit_def List.map_filter_simps

lemma findToken_example: "findToken exampleTokens (js ''SETM'') = Some exampleSETM"
  by (simp add: findToken_def exampleTokens_def exampleSETM_def object_eval js_def
      Token_constructor_def Let_def)

lemma name_exampleSETM: "name exampleSETM = js ''SETM''"
  by (simp add: exampleSETM_def Token_constructor_def Let_def)

lemma decimals_exampleSETM: "decimals exampleSETM = 18"
  by (simp add: exampleSETM_def Token_constructor_def Let_def optField_def numOr_def)

lemma subscribeBalance_example:
  "subscribeBalance readyWallet (MString (js ''SETM'')) (js ''alice'') [] =
     Inr [Next (handleNative (nativeBalance exampleStorages (js ''alice'')) exampleSETM)]"
proof -
  have n: "name exampleSETM = js ''SETM''"
    by (simp add: exampleSETM_def Token_constructor_def Let_def)
  show ?thesis
    by (simp add: subscribeBalance_def readyWallet_eq exampleWallet_def filterTokens_def
        onTokens_def findToken_example currentBalance_def isNativeToken_def n)
qed

lemma handleNative_example:
  "handleNative (nativeBalance exampleStorages (js ''alice'')) exampleSETM =
     \<lparr>available = \<lparr>inner = 0, precision = 18\<rparr>, token = exampleSETM,
      free = \<lparr>inner = 5, precision = 18\<rparr>, locked = \<lparr>inner = 7, precision = 18\<rparr>,
      reserved = \<lparr>inner = 0, precision = 18\<rparr>\<rparr>"
proof -
  have d: "decimals exampleSETM = 18"
    by (simp add: exampleSETM_def Token_constructor_def Let_def optField_def numOr_def)
  show ?thesis
    by (simp add: handleNative_def exampleStorages_def d fromInner_def FN_max_def FN_sub_def
        FN_ZERO_def alignTo_def Let_def)
qed

lemma subscribeBalance_example2:
  "subscribeBalance readyWallet (MString (js ''SETM'')) (js ''alice'')
     [NativeBalanceNext (js ''alice'') exampleAccount] =
     Inr [Next (handleNative (nativeBalance exampleStorages (js ''alice'')) exampleSETM),
          Next (handleNative exampleAccount exampleSETM)]"
  by (simp add: subscribeBalance_def readyWallet_eq exampleWallet_def filterTokens_def
      onTokens_def findToken_example currentBalance_def isNativeToken_def name_exampleSETM)

lemma handleNative_example2:
  "handleNative exampleAccount exampleSETM =
     \<lparr>available = \<lparr>inner = 5, precision = 18\<rparr>, token = exampleSETM,
      free = \<lparr>inner = 9, precision = 18\<rparr>, locked = \<lparr>inner = 4, precision = 18\<rparr>,
      reserved = \<lparr>inner = 1, precision = 18\<rparr>\<rparr>"
  by (simp add: handleNative_def exampleAccount_def decimals_exampleSETM fromInner_def
      FN_max_def FN_sub_def FN_ZERO_def alignTo_def Let_def)

theorem subscribeBalance_available_witness:
  "subscribeBalance readyWallet (MString (js ''SETM'')) (js ''alice'')
     [NativeBalanceNext (js ''alice'') exampleAccount] =
     Inr [Next (handleNative (nativeBalance exampleStorages (js ''alice'')) exampleSETM),
          Next (handleNative exampleAccount exampleSETM)] \<and>
   Next (handleNative exampleAccount exampleSETM)
     \<in> set [Next (handleNative (nativeBalance exampleStorages (js ''alice'')) exampleSETM),
            Next (handleNative exampleAccount exampleSETM)] \<and>
   available (handleNative exampleAccount exampleSETM) =
     FN_max (FN_sub (free (handleNative exampleAccount exampleSETM))
                    (locked (handleNative exampleAccount exampleSETM))) FN_ZERO \<and>
   FN_value (available (handleNative exampleAccount exampleSETM)) =
     max (FN_value (free (handleNative exampleAccount exampleSETM)) -
          FN_value (locked (handleNative exampleAccount exampleSETM))) 0 \<and>
   0 \<le> FN_value (available (handleNative exampleAccount exampleSETM)) \<and>
   (\<exists>k\<le>length [NativeBalanceNext (js ''alice'') exampleAccount].
      let chain = storages (applyEvents readyWallet
                    (take k [NativeBalanceNext (js ''alice'') exampleAccount]));
          t = token (handleNative exampleAccount exampleSETM) in
        if nativeCurrency (wallet_consts readyWallet) = name t
        then let d = nativeBalance chain (js ''alice'') in
               free (handleNative exampleAccount exampleSETM) =
                 fromInner (int (data_free d)) (decimals t) \<and>
               locked (handleNative exampleAccount exampleSETM) =
                 FN_max (fromInner (int (data_miscFrozen d)) (decimals t))
                        (fromInner (int (data_feeFrozen d)) (decimals t)) \<and>
               FN_value (locked (handleNative exampleAccount exampleSETM)) =
                 max (real (data_miscFrozen d)) (real (data_feeFrozen d)) / 10 ^ decimals t
        else let d = nonNativeBalance chain (name t) (js ''alice'') in
               free (handleNative exampleAccount exampleSETM) =
                 fromInner (int (orml_free d)) (decimals t) \<and>
               locked (handleNative exampleAccount exampleSETM) =
                 fromInner (int (orml_frozen d)) (decimals t))"
proof -
  let ?b = "handleNative exampleAccount exampleSETM"
  let ?ns = "[Next (handleNative (nativeBalance exampleStorages (js ''alice'')) exampleSETM),
              Next ?b]"
  have m: "Next ?b \<in> set ?ns" by simp
  show ?thesis
    using subscribeBalance_example2 m
      subscribeBalance_available [of readyWallet "MString (js ''SETM'')" "js ''alice''"
        "[NativeBalanceNext (js ''alice'') exampleAccount]" ?ns ?b]
    by blast
qed

subsection \<open>Queries before the wallet is ready\<close>

lemma tokensRun_not_ready:
  "ReadyNext True \<notin> set es \<Longrightarrow> tokensRun ty False w es = []"
proof (induction es arbitrary: w)
  case Nil
  show ?case by simp
next
  case (Cons e es)
  then show ?case by (cases e) auto
qed

lemma tokensRun_ready:
  "ReadyNext True \<notin> set es \<Longrightarrow>
   tokensRun ty False w (es @ ReadyNext True # es') =
     filterTokens ty (tokens (applyEvents w es)) #
     tokensRun ty True (applyEvents w (es @ [ReadyNext True])) es'"
proof (induction es arbitrary: w)
  case Nil
  show ?case by simp
next
  case (Cons e es)
  then show ?case by (cases e) auto
qed

lemma balanceRun_not_ready:
  "ReadyNext True \<notin> set es \<Longrightarrow>
   balanceRun nm address \<lparr>tokensActive = False, currentToken = None\<rparr> w es = []"
proof (induction es arbitrary: w)
  case Nil
  show ?case by simp
next
  case (Cons e es)
  then show ?case by (cases e) (auto simp: Let_def)
qed

lemma getPresetTokens_not_ready:
  "\<not> isReady w \<Longrightarrow> getPresetTokens w = Inl (SDKNotReady (js ''wallet''))"
  by (simp add: getPresetTokens_def)

lemma currentBalance_ready [simp]:
  "currentBalance (applyEvent (ReadyNext r) w) address t = currentBalance w address t"
  by (simp add: currentBalance_def) (simp add: applyEvent_def)

lemma onTokens_ready [simp]:
  "onTokens (applyEvent (ReadyNext r) w) nm address l = onTokens w nm address l"
  by (simp add: onTokens_def cong: option.case_cong)

lemma tokens_ready [simp]: "tokens (applyEvent (ReadyNext r) w) = tokens w"
  by (simp add: applyEvent_def)

lemma applyEvents_append: "applyEvents w (es @ es') = applyEvents (applyEvents w es) es'"
  by (simp add: applyEvents_def)

lemma balanceRun_ready:
  "ReadyNext True \<notin> set es \<Longrightarrow>
   balanceRun nm address \<lparr>tokensActive = False, currentToken = None\<rparr> w (es @ ReadyNext True # es') =
     (case findToken (tokens (applyEvents w es)) nm of
        None \<Rightarrow> [Error (CurrencyNotFound nm)]
      | Some t \<Rightarrow>
          Next (currentBalance (applyEvents w es) address t) #
          balanceRun nm address \<lparr>tokensActive = True, currentToken = Some t\<rparr>
            (applyEvents w (es @ [ReadyNext True])) es')"
proof (induction es arbitrary: w)
  case Nil
  show ?case by (simp add: Let_def onTokens_def split: option.splits)
next
  case (Cons e es)
  then show ?case by (cases e) (auto simp: Let_def split: option.splits)
qed

lemma balanceRun_error:
  "Error e \<in> set (balanceRun nm address s w es) \<Longrightarrow> e = CurrencyNotFound nm"
proof (induction es arbitrary: s w)
  case Nil
  then show ?case by simp
next
  case (Cons ev es)
  show ?case
  proof (cases ev)
    case (TokensNext l)
    with Cons show ?thesis
      by (auto simp: Let_def onTokens_def split: if_splits option.splits)
  next
    case (ReadyNext r)
    with Cons show ?thesis
      by (auto simp: Let_def onTokens_def split: if_splits option.splits)
  next
    case (NativeBalanceNext a d)
    with Cons show ?thesis
      by (auto simp: Let_def split: if_splits option.splits)
  next
    case (NonNativeBalanceNext n a d)
    with Cons show ?thesis
      by (auto simp: Let_def split: if_splits option.splits)
  qed
qed

lemma subscribeBalance_error:
  assumes "subscribeBalance w target address es = Inr ns" "Error e \<in> set ns"
  shows "\<exists>nm. e = CurrencyNotFound nm"
proof -
  from assms(1) obtain nm where nm: "forceToCurrencyName target = Inr nm"
    by (auto simp: subscribeBalance_def split: sum.splits)
  from assms nm have
    "e = CurrencyNotFound nm \<or> (\<exists>s. Error e \<in> set (balanceRun nm address s w es))"
    by (auto simp: subscribeBalance_def onTokens_def split: if_splits option.splits)
  then show ?thesis using balanceRun_error by blast
qed

lemma firstValueFrom_Rejected: "firstValueFrom ns = Rejected e \<Longrightarrow> Error e \<in> set ns"
  by (auto simp: firstValueFrom_def split: list.splits notification.splits)

lemma getBalance_not_SDKNotReady: "getBalance w target address es \<noteq> Rejected (SDKNotReady x)"
proof
  assume r: "getBalance w target address es = Rejected (SDKNotReady x)"
  show False
  proof (cases "subscribeBalance w target address es")
    case (Inl e)
    then have "forceToCurrencyName target = Inl e"
      by (auto simp: subscribeBalance_def split: sum.splits)
    then have "e = ConvertToCurrencyNameFailed target" by (rule forceToCurrencyName_error)
    with r Inl show False by (simp add: getBalance_def)
  next
    case (Inr ns)
    with r have "Error (SDKNotReady x) \<in> set ns"
      by (simp add: getBalance_def firstValueFrom_Rejected)
    from subscribeBalance_error [OF Inr this] show False by simp
  qed
qed

lemma getTokens_not_Rejected: "getTokens w ty es \<noteq> Rejected e"
  by (cases "subscribeTokens w ty es") (simp_all add: getTokens_def firstValueFrom_def)

lemma forceToCurrencyName_cases:
  "(case forceToCurrencyName target of Inl e \<Rightarrow> f (ConvertToCurrencyNameFailed target) | Inr nm \<Rightarrow> g nm) =
   (case forceToCurrencyName target of Inl e \<Rightarrow> f e | Inr nm \<Rightarrow> g nm)"
  using forceToCurrencyName_error by (auto split: sum.splits)

text \<open>
  Claim C6, as amended. Before the wallet is ready \<open>getPresetTokens\<close> throws
  \<open>SDKNotReady\<close>. The continuous form \<open>subscribeTokens\<close> emits nothing as long as no
  \<^verbatim>\<open>true\<close> is pushed to \<^verbatim>\<open>isReady$\<close>, and the token list of that moment when it
  is. The snapshot forms that return a promise never fail with \<open>SDKNotReady\<close>. The
  promise of \<open>getTokens\<close> is pending, and fulfilled with the token list of that
  moment once \<^verbatim>\<open>true\<close> is pushed. That of \<open>getBalance\<close> is rejected at once with
  \<open>ConvertToCurrencyNameFailed\<close> where the target has no name; else it is pending,
  and once \<^verbatim>\<open>true\<close> is pushed it is fulfilled with the balance of the token of that
  name, or rejected with \<open>CurrencyNotFound\<close> where the token list has no such token.
\<close>

theorem before_ready:
  "(\<not> isReady w \<longrightarrow> getPresetTokens w = Inl (SDKNotReady (js ''wallet''))) \<and>
   (\<not> isReady w \<and> ReadyNext True \<notin> set es \<longrightarrow>
      subscribeTokens w ty es = [] \<and>
      subscribeTokens w ty (es @ [ReadyNext True]) = [filterTokens ty (tokens (applyEvents w es))] \<and>
      getTokens w ty es = Pending \<and>
      getTokens w ty (es @ ReadyNext True # es') =
        Fulfilled (filterTokens ty (tokens (applyEvents w es))) \<and>
      subscribeBalance w target address es =
        (case forceToCurrencyName target of
           Inl e \<Rightarrow> Inl (ConvertToCurrencyNameFailed target)
         | Inr nm \<Rightarrow> Inr []) \<and>
      getBalance w target address es =
        (case forceToCurrencyName target of
           Inl e \<Rightarrow> Rejected (ConvertToCurrencyNameFailed target)
         | Inr nm \<Rightarrow> Pending) \<and>
      getBalance w target address (es @ ReadyNext True # es') =
        (case forceToCurrencyName target of
           Inl e \<Rightarrow> Rejected (ConvertToCurrencyNameFailed target)
         | Inr nm \<Rightarrow>
             (case findToken (tokens (applyEvents w es)) nm of
                None \<Rightarrow> Rejected (CurrencyNotFound nm)
              | Some t \<Rightarrow> Fulfilled (currentBalance (applyEvents w es) address t)))) \<and>
   getTokens w ty es \<noteq> Rejected (SDKNotReady x) \<and>
   getBalance w target address es \<noteq> Rejected (SDKNotReady x)"
proof (intro conjI impI)
  assume "\<not> isReady w"
  then show "getPresetTokens w = Inl (SDKNotReady (js ''wallet''))"
    by (rule getPresetTokens_not_ready)
next
  assume h: "\<not> isReady w \<and> ReadyNext True \<notin> set es"
  then show s: "subscribeTokens w ty es = []"
    by (simp add: subscribeTokens_def tokensRun_not_ready)
  then show "getTokens w ty es = Pending"
    by (simp add: getTokens_def firstValueFrom_def)
  from h show "subscribeTokens w ty (es @ [ReadyNext True]) =
      [filterTokens ty (tokens (applyEvents w es))]"
    by (simp add: subscribeTokens_def tokensRun_ready)
  from h show "getTokens w ty (es @ ReadyNext True # es') =
        Fulfilled (filterTokens ty (tokens (applyEvents w es)))"
    by (simp add: getTokens_def subscribeTokens_def tokensRun_ready firstValueFrom_def)
  from h have sb: "subscribeBalance w target address es =
        (case forceToCurrencyName target of Inl e \<Rightarrow> Inl e | Inr nm \<Rightarrow> Inr [])"
    by (simp add: subscribeBalance_def balanceRun_not_ready cong: sum.case_cong)
  then show "subscribeBalance w target address es =
        (case forceToCurrencyName target of
           Inl e \<Rightarrow> Inl (ConvertToCurrencyNameFailed target)
         | Inr nm \<Rightarrow> Inr [])"
    by (simp only: forceToCurrencyName_cases)
  from sb have "getBalance w target address es =
        (case forceToCurrencyName target of Inl e \<Rightarrow> Rejected e | Inr nm \<Rightarrow> Pending)"
    by (simp add: getBalance_def firstValueFrom_def split: sum.splits)
  then show "getBalance w target address es =
        (case forceToCurrencyName target of
           Inl e \<Rightarrow> Rejected (ConvertToCurrencyNameFailed target)
         | Inr nm \<Rightarrow> Pending)"
    by (simp only: forceToCurrencyName_cases)
  from h have "getBalance w target address (es @ ReadyNext True # es') =
        (case forceToCurrencyName target of
           Inl e \<Rightarrow> Rejected e
         | Inr nm \<Rightarrow>
             (case findToken (tokens (applyEvents w es)) nm of
                None \<Rightarrow> Rejected (CurrencyNotFound nm)
              | Some t \<Rightarrow> Fulfilled (currentBalance (applyEvents w es) address t)))"
    by (simp add: getBalance_def subscribeBalance_def balanceRun_ready firstValueFrom_def
        split: sum.splits option.splits)
  then show "getBalance w target address (es @ ReadyNext True # es') =
        (case forceToCurrencyName target of
           Inl e \<Rightarrow> Rejected (ConvertToCurrencyNameFailed target)
         | Inr nm \<Rightarrow>
             (case findToken (tokens (applyEvents w es)) nm of
                None \<Rightarrow> Rejected (CurrencyNotFound nm)
              | Some t \<Rightarrow> Fulfilled (currentBalance (applyEvents w es) address t)))"
    by (simp only: forceToCurrencyName_cases)
next
  show "getTokens w ty es \<noteq> Rejected (SDKNotReady x)" by (rule getTokens_not_Rejected)
  show "getBalance w target address es \<noteq> Rejected (SDKNotReady x)"
    by (rule getBalance_not_SDKNotReady)
qed

lemma tokens_example: "tokens (applyEvents exampleWallet [TokensNext exampleTokens]) = exampleTokens"
  by (simp add: applyEvent_def)

theorem before_ready_witness:
  "\<not> isReady exampleWallet \<and>
   ReadyNext True \<notin> set [TokensNext exampleTokens] \<and>
   getPresetTokens exampleWallet = Inl (SDKNotReady (js ''wallet'')) \<and>
   subscribeTokens exampleWallet None [TokensNext exampleTokens] = [] \<and>
   subscribeTokens exampleWallet None ([TokensNext exampleTokens] @ [ReadyNext True]) =
     [filterTokens None (tokens (applyEvents exampleWallet [TokensNext exampleTokens]))] \<and>
   getTokens exampleWallet None [TokensNext exampleTokens] = Pending \<and>
   getTokens exampleWallet None ([TokensNext exampleTokens] @ ReadyNext True # []) =
     Fulfilled (filterTokens None (tokens (applyEvents exampleWallet [TokensNext exampleTokens]))) \<and>
   subscribeBalance exampleWallet (MString (js ''SETM'')) (js ''alice'') [TokensNext exampleTokens]
     = Inr [] \<and>
   getBalance exampleWallet (MString (js ''SETM'')) (js ''alice'') [TokensNext exampleTokens]
     = Pending \<and>
   getBalance exampleWallet (MString (js ''SETM'')) (js ''alice'')
       ([TokensNext exampleTokens] @ ReadyNext True # []) =
     Fulfilled (currentBalance (applyEvents exampleWallet [TokensNext exampleTokens])
                  (js ''alice'') exampleSETM) \<and>
   getTokens exampleWallet None [TokensNext exampleTokens] \<noteq> Rejected (SDKNotReady (js ''wallet'')) \<and>
   getBalance exampleWallet (MString (js ''SETM'')) (js ''alice'') [TokensNext exampleTokens]
     \<noteq> Rejected (SDKNotReady (js ''wallet''))"
proof -
  have a: "\<not> isReady exampleWallet" by (simp add: exampleWallet_def)
  have b: "ReadyNext True \<notin> set [TokensNext exampleTokens]" by simp
  have c: "forceToCurrencyName (MString (js ''SETM'')) = Inr (js ''SETM'')" by simp
  have d: "findToken (tokens (applyEvents exampleWallet [TokensNext exampleTokens])) (js ''SETM'')
      = Some exampleSETM"
    by (simp only: tokens_example findToken_example)
  show ?thesis
    using a b
      before_ready [of exampleWallet "[TokensNext exampleTokens]" None "[]"
        "MString (js ''SETM'')" "js ''alice''" "js ''wallet''"]
    by (simp only: c d sum.case option.case) blast
qed

lemma Wallet_constructor_example:
  "Wallet_constructor exampleApi None None exampleStorages (\<lambda>c. SETHEUM) = Inr exampleWallet"
  by (simp add: Wallet_constructor_def exampleApi_def exampleWallet_def element_def)

text \<open>
  The claim as stated fails of \<open>getTokens\<close>: on the wallet the constructor leaves, not
  ready, its promise is pending and not rejected with \<open>SDKNotReady\<close>.
\<close>

theorem before_ready_counterexample:
  "isReady exampleWallet = False \<and> getTokens exampleWallet None [] = Pending"
  by (simp add: exampleWallet_def getTokens_def subscribeTokens_def firstValueFrom_def)

text \<open>
  Two rejections of \<open>getBalance\<close>: of a currency that the token list does not have,
  once the wallet is ready, and of a target without a name, before it is.
\<close>

lemma getBalance_unknown_currency:
  "getBalance exampleWallet (MString (js ''XYZ'')) (js ''alice'')
     [TokensNext exampleTokens, ReadyNext True] = Rejected (CurrencyNotFound (js ''XYZ''))"
  by (simp add: getBalance_def subscribeBalance_def exampleWallet_def Let_def onTokens_def
      applyEvent_def findToken_def exampleTokens_def object_eval js_def Token_constructor_def
      firstValueFrom_def)

lemma getBalance_no_name:
  "getBalance exampleWallet (MArray [0xD800] (js ''SETM'')) (js ''alice'') [] =
     Rejected (ConvertToCurrencyNameFailed (MArray [0xD800] (js ''SETM'')))"
  by (simp add: getBalance_def subscribeBalance_def uri_eval name_eval)

text \<open>
  Once the wallet is ready \<open>getPresetTokens\<close> returns the native token of the token
  list; where the native currency has the name of a property of \<^verbatim>\<open>Object.prototype\<close>
  and the token list has no token of that name, it returns the inherited member.
\<close>

lemma getPresetTokens_example:
  "getPresetTokens readyWallet = Inr \<lparr>nativeToken = Own exampleSETM, stableToken = None\<rparr>"
  by (simp add: getPresetTokens_def presetStep_def readyWallet_eq exampleWallet_def
      exampleApi_def getMember_def exampleTokens_def exampleSETM_def getProperty_def js_def)

lemma getPresetTokens_inherited:
  "getPresetTokens
     (readyWallet\<lparr>wallet_consts :=
        \<lparr>runtimeChain = js ''Setheum'', nativeCurrency = js ''toString''\<rparr>\<rparr>) =
   Inr \<lparr>nativeToken = Inherited (js ''toString''), stableToken = None\<rparr>"
  by (simp add: getPresetTokens_def presetStep_def readyWallet_eq exampleWallet_def
      exampleApi_def getMember_def exampleTokens_def getProperty_def objectPrototypeNames_def
      js_def)

end
